(* ===== verification/Json.thy ===== *)
theory Json
  imports Prelude
begin

text \<open>
  JSON values and the JavaScript operations the node applies to them. The node calls
  \<open>jsonParse\<close> of n8n-workflow (\<open>JSON.parse\<close> that throws on bad input), relies on
  \<open>JSON.stringify\<close> when a request body is sent and when an API error message is built,
  converts values with \<open>String(..)\<close>, tests truthiness and reads and assigns object
  properties. None of this code is in the repository; it is modelled from the ECMAScript
  semantics it has, restricted as follows: numbers are the safe integers
  (\<open>|x| \<le> 2^53 - 1\<close>, exactly one double each; the parser reads fractions and exponents
  and answers \<open>Unsupported\<close> when the value is not such an integer), strings are UTF-8 byte strings
  (\<open>\u\<close> escapes are decoded to UTF-8, surrogate escapes are \<open>Unsupported\<close>).
\<close>

datatype json =
    JNull
  | JBool bool
  | JNum int
  | JStr string
  | JArr "json list"
  | JObj "json jsobj"

subsection \<open>Truthiness, property reads and assignment\<close>

fun js_truthy :: "json \<Rightarrow> bool" where
  "js_truthy JNull = False"
| "js_truthy (JBool b) = b"
| "js_truthy (JNum n) = (n \<noteq> 0)"
| "js_truthy (JStr s) = (s \<noteq> [])"
| "js_truthy (JArr _) = True"
| "js_truthy (JObj _) = True"

text \<open>A JavaScript value that may be \<open>undefined\<close> is a \<open>json option\<close>.\<close>

definition js_truthy_opt :: "json option \<Rightarrow> bool" where
  "js_truthy_opt v = (case v of None \<Rightarrow> False | Some j \<Rightarrow> js_truthy j)"

text \<open>
  Reading an own property of a parsed JSON value. Non-objects have no own property of
  the names the node reads (\<open>statusCode\<close>, \<open>timeoutInMillis\<close>, \<open>body\<close>, \<open>value\<close>, \<open>email\<close>,
  \<open>fields\<close>, \<open>forms\<close>, \<open>label\<close>, \<open>json\<close>).
\<close>

fun js_get :: "json \<Rightarrow> string \<Rightarrow> json option" where
  "js_get (JObj ps) k = map_of ps k"
| "js_get _ k = None"

text \<open>
  Assignment \<open>o[k] = v\<close> on a plain object: an own key is overwritten in place, a new key
  is appended, except the key \<open>__proto__\<close> when it is not an own property: the assignment
  then reaches the \<open>Object.prototype.__proto__\<close> setter and creates no own property.
\<close>

definition js_assign :: "json jsobj \<Rightarrow> string \<Rightarrow> json \<Rightarrow> json jsobj" where
  "js_assign ob k v =
     (if k = ''__proto__'' \<and> map_of ob k = None then ob else AList.update k v ob)"

subsection \<open>Numbers as strings\<close>

fun nat_str :: "nat \<Rightarrow> string" where
  "nat_str n = (if n < 10 then [digit_char n] else nat_str (n div 10) @ [digit_char (n mod 10)])"

declare nat_str.simps [simp del]

definition int_str :: "int \<Rightarrow> string" where
  "int_str i = (if i < 0 then CHR ''-'' # nat_str (nat (- i)) else nat_str (nat i))"

text \<open>\<open>String(v)\<close>: arrays join their elements with commas, \<open>null\<close> elements as empty.\<close>

fun js_String :: "json \<Rightarrow> string" where
  "js_String JNull = ''null''"
| "js_String (JBool b) = (if b then ''true'' else ''false'')"
| "js_String (JNum n) = int_str n"
| "js_String (JStr s) = s"
| "js_String (JArr xs) =
     join_comma (map (\<lambda>x. if x = JNull then [] else js_String x) xs)"
| "js_String (JObj _) = ''[object Object]''"

subsection \<open>\<open>JSON.stringify\<close>\<close>

definition hex_digit :: "nat \<Rightarrow> char" where
  "hex_digit d = (if d < 10 then digit_char d else char_of (87 + d))"

definition esc_char :: "char \<Rightarrow> string" where
  "esc_char c =
     (if c = CHR 0x22 then [CHR 0x5C, CHR 0x22]
      else if c = CHR 0x5C then [CHR 0x5C, CHR 0x5C]
      else if c = CHR 0x08 then [CHR 0x5C, CHR ''b'']
      else if c = CHR 0x0C then [CHR 0x5C, CHR ''f'']
      else if c = CHR 0x0A then [CHR 0x5C, CHR ''n'']
      else if c = CHR 0x0D then [CHR 0x5C, CHR ''r'']
      else if c = CHR 0x09 then [CHR 0x5C, CHR ''t'']
      else if of_char c < (32::nat) then
        [CHR 0x5C, CHR ''u'', CHR ''0'', CHR ''0'',
         hex_digit (of_char c div 16), hex_digit (of_char c mod 16)]
      else [c])"

definition quote_str :: "string \<Rightarrow> string" where
  "quote_str s = CHR 0x22 # concat (map esc_char s) @ [CHR 0x22]"

fun json_print :: "json \<Rightarrow> string"
  and print_elems :: "json list \<Rightarrow> string"
  and print_members :: "json jsobj \<Rightarrow> string" where
  "json_print JNull = ''null''"
| "json_print (JBool b) = (if b then ''true'' else ''false'')"
| "json_print (JNum n) = int_str n"
| "json_print (JStr s) = quote_str s"
| "json_print (JArr []) = ''[]''"
| "json_print (JArr (x # xs)) = CHR ''['' # json_print x @ print_elems xs"
| "json_print (JObj []) = ''{}''"
| "json_print (JObj ((k, v) # ps)) =
     CHR ''{'' # quote_str k @ CHR '':'' # json_print v @ print_members ps"
| "print_elems [] = '']''"
| "print_elems (x # xs) = CHR '','' # json_print x @ print_elems xs"
| "print_members [] = ''}''"
| "print_members ((k, v) # ps) =
     CHR '','' # quote_str k @ CHR '':'' # json_print v @ print_members ps"

subsection \<open>\<open>JSON.parse\<close>\<close>

datatype parse_error = Syntax | OutOfFuel | Unsupported

type_synonym 'a parse = "parse_error + ('a \<times> string)"

definition is_ws :: "char \<Rightarrow> bool" where
  "is_ws c \<longleftrightarrow> c = CHR '' '' \<or> c = CHR 0x09 \<or> c = CHR 0x0A \<or> c = CHR 0x0D"

fun skip_ws :: "string \<Rightarrow> string" where
  "skip_ws [] = []"
| "skip_ws (c # cs) = (if is_ws c then skip_ws cs else c # cs)"

fun parse_digits :: "nat \<Rightarrow> string \<Rightarrow> nat \<times> string" where
  "parse_digits acc [] = (acc, [])"
| "parse_digits acc (c # cs) =
     (if is_digit c then parse_digits (10 * acc + digit_val c) cs else (acc, c # cs))"

text \<open>
  A JavaScript number is an IEEE binary64 value. The model keeps the numbers that are
  exactly the safe integers, \<open>|x| \<le> Number.MAX_SAFE_INTEGER\<close>: each of them is one
  double, \<open>String\<close> and \<open>JSON.stringify\<close> print it in plain decimal, and a JSON number
  whose decimal value is such an integer parses to exactly it, whatever fraction or exponent
  it is written with (\<open>1.0\<close>, \<open>25e-1\<close>, \<open>1E3\<close>). Any other value is \<open>Unsupported\<close>.
\<close>

definition max_safe :: int where
  "max_safe = 2 ^ 53 - 1"

text \<open>\<open>-?(0|[1-9][0-9]*)\<close> is read by \<open>parse_unsigned\<close>; then \<open>(.[0-9]+)?\<close>.\<close>

definition parse_frac :: "nat \<Rightarrow> string \<Rightarrow> parse_error + (nat \<times> nat \<times> string)" where
  "parse_frac n s =
     (case s of
        c # cs \<Rightarrow>
          if c = CHR ''.'' then
            (case cs of
               d # _ \<Rightarrow> if is_digit d then (case parse_digits n cs of (m, r) \<Rightarrow> Inr (m, length cs - length r, r))
                        else Inl Syntax
             | [] \<Rightarrow> Inl Syntax)
          else Inr (n, 0, s)
      | [] \<Rightarrow> Inr (n, 0, []))"

text \<open>\<open>([eE][+-]?[0-9]+)?\<close>.\<close>

definition exp_sign :: "string \<Rightarrow> bool \<times> string" where
  "exp_sign s =
     (case s of
        x # xs \<Rightarrow> if x = CHR ''-'' then (True, xs) else if x = CHR ''+'' then (False, xs) else (False, s)
      | [] \<Rightarrow> (False, []))"

definition parse_exp :: "string \<Rightarrow> parse_error + (int \<times> string)" where
  "parse_exp s =
     (case s of
        c # cs \<Rightarrow>
          if c = CHR ''e'' \<or> c = CHR ''E'' then
            (case exp_sign cs of
               (neg, d # ds) \<Rightarrow>
                 if is_digit d then
                   (case parse_digits 0 (d # ds) of (e, r) \<Rightarrow> Inr (if neg then - int e else int e, r))
                 else Inl Syntax
             | (_, []) \<Rightarrow> Inl Syntax)
          else Inr (0, s)
      | [] \<Rightarrow> Inr (0, []))"

text \<open>The value \<open>m \<cdot> 10^e\<close> when it is an integer.\<close>

definition decimal_value :: "nat \<Rightarrow> int \<Rightarrow> int option" where
  "decimal_value m e =
     (if 0 \<le> e then Some (int m * 10 ^ nat e)
      else if 10 ^ nat (- e) dvd m then Some (int (m div 10 ^ nat (- e))) else None)"

definition number_end :: "nat \<Rightarrow> bool \<Rightarrow> string \<Rightarrow> json parse" where
  "number_end n neg rest =
     (case parse_frac n rest of
        Inl e \<Rightarrow> Inl e
      | Inr (m, k, r1) \<Rightarrow>
          (case parse_exp r1 of
             Inl e \<Rightarrow> Inl e
           | Inr (x, r2) \<Rightarrow>
               (case decimal_value m (x - int k) of
                  Some v \<Rightarrow> if v \<le> max_safe then Inr (JNum (if neg then - v else v), r2) else Inl Unsupported
                | None \<Rightarrow> Inl Unsupported)))"

definition parse_unsigned :: "bool \<Rightarrow> string \<Rightarrow> json parse" where
  "parse_unsigned neg s =
     (case s of
        [] \<Rightarrow> Inl Syntax
      | c # cs \<Rightarrow>
          if \<not> is_digit c then Inl Syntax
          else if c = CHR ''0'' then number_end 0 neg cs
          else (case parse_digits (digit_val c) cs of (n, rest) \<Rightarrow> number_end n neg rest))"

definition parse_number :: "string \<Rightarrow> json parse" where
  "parse_number s =
     (case s of
        c # cs \<Rightarrow> if c = CHR ''-'' then parse_unsigned True cs else parse_unsigned False s
      | [] \<Rightarrow> Inl Syntax)"

fun hex_val :: "char \<Rightarrow> nat option" where
  "hex_val c =
     (let k = of_char c :: nat in
      if 48 \<le> k \<and> k \<le> 57 then Some (k - 48)
      else if 97 \<le> k \<and> k \<le> 102 then Some (k - 87)
      else if 65 \<le> k \<and> k \<le> 70 then Some (k - 55)
      else None)"

text \<open>The UTF-8 bytes of a UTF-16 code unit that is not a surrogate.\<close>

definition utf8_unit :: "nat \<Rightarrow> string option" where
  "utf8_unit u =
     (if u < 128 then Some [char_of u]
      else if u < 2048 then Some [char_of (192 + u div 64), char_of (128 + u mod 64)]
      else if 55296 \<le> u \<and> u < 57344 then None
      else Some [char_of (224 + u div 4096), char_of (128 + (u div 64) mod 64),
                 char_of (128 + u mod 64)])"

definition hex4 :: "char \<Rightarrow> char \<Rightarrow> char \<Rightarrow> char \<Rightarrow> nat option" where
  "hex4 a b c d =
     (case (hex_val a, hex_val b, hex_val c, hex_val d) of
        (Some w, Some x, Some y, Some z) \<Rightarrow> Some (((w * 16 + x) * 16 + y) * 16 + z)
      | _ \<Rightarrow> None)"

definition simple_escape :: "char \<Rightarrow> char option" where
  "simple_escape e =
     (if e = CHR 0x22 then Some (CHR 0x22)
      else if e = CHR 0x5C then Some (CHR 0x5C)
      else if e = CHR ''/'' then Some (CHR ''/'')
      else if e = CHR ''b'' then Some (CHR 0x08)
      else if e = CHR ''f'' then Some (CHR 0x0C)
      else if e = CHR ''n'' then Some (CHR 0x0A)
      else if e = CHR ''r'' then Some (CHR 0x0D)
      else if e = CHR ''t'' then Some (CHR 0x09)
      else None)"

definition prepend :: "string \<Rightarrow> string parse \<Rightarrow> string parse" where
  "prepend out r = (case r of Inl e \<Rightarrow> Inl e | Inr (s, rest) \<Rightarrow> Inr (out @ s, rest))"

text \<open>The escape after a backslash: its bytes and the rest of the input.\<close>

definition unescape :: "char \<Rightarrow> string \<Rightarrow> parse_error + (string \<times> string)" where
  "unescape e r =
     (case simple_escape e of
        Some ch \<Rightarrow> Inr ([ch], r)
      | None \<Rightarrow>
          if e = CHR ''u'' then
            (case r of
               a # b # x # y # r' \<Rightarrow>
                 (case hex4 a b x y of
                    None \<Rightarrow> Inl Syntax
                  | Some u \<Rightarrow> (case utf8_unit u of None \<Rightarrow> Inl Unsupported | Some out \<Rightarrow> Inr (out, r')))
             | _ \<Rightarrow> Inl Syntax)
          else Inl Syntax)"

text \<open>The body of a string literal after its opening quote, up to the closing quote.\<close>

function parse_string :: "string \<Rightarrow> string parse" where
  "parse_string [] = Inl Syntax"
| "parse_string (c # cs) =
     (if c = CHR 0x22 then Inr ([], cs)
      else if c = CHR 0x5C then
        (case cs of
           [] \<Rightarrow> Inl Syntax
         | e # r \<Rightarrow>
             (case unescape e r of
                Inl err \<Rightarrow> Inl err
              | Inr (out, r') \<Rightarrow> prepend out (parse_string r')))
      else if of_char c < (32::nat) then Inl Syntax
      else prepend [c] (parse_string cs))"
  by pat_completeness auto
termination
  by (relation "measure length") (auto simp: unescape_def split: option.splits if_splits list.splits)

text \<open>
  Values, array elements and object members, by recursive descent. Each call spends one
  unit of fuel; \<open>parse_fuel\<close> below shows that twice the input length is enough.
  A duplicate key in an object overwrites the earlier value in its first position, as
  \<open>JSON.parse\<close> does (it creates own data properties, also for \<open>__proto__\<close>).
\<close>

fun parse_value :: "nat \<Rightarrow> string \<Rightarrow> json parse"
  and parse_elems :: "nat \<Rightarrow> json list \<Rightarrow> string \<Rightarrow> json parse"
  and parse_members :: "nat \<Rightarrow> json jsobj \<Rightarrow> string \<Rightarrow> json parse" where
  "parse_value 0 s = Inl OutOfFuel"
| "parse_value (Suc n) s =
     (case skip_ws s of
        [] \<Rightarrow> Inl Syntax
      | c # cs \<Rightarrow>
          if c = CHR ''{'' then
            (case skip_ws cs of
               d # ds \<Rightarrow> if d = CHR ''}'' then Inr (JObj [], ds) else parse_members n [] (d # ds)
             | [] \<Rightarrow> Inl Syntax)
          else if c = CHR ''['' then
            (case skip_ws cs of
               d # ds \<Rightarrow> if d = CHR '']'' then Inr (JArr [], ds) else parse_elems n [] (d # ds)
             | [] \<Rightarrow> Inl Syntax)
          else if c = CHR 0x22 then
            (case parse_string cs of Inl e \<Rightarrow> Inl e | Inr (str, r) \<Rightarrow> Inr (JStr str, r))
          else if c = CHR ''-'' \<or> is_digit c then parse_number (c # cs)
          else if take 4 (c # cs) = ''true'' then Inr (JBool True, drop 4 (c # cs))
          else if take 5 (c # cs) = ''false'' then Inr (JBool False, drop 5 (c # cs))
          else if take 4 (c # cs) = ''null'' then Inr (JNull, drop 4 (c # cs))
          else Inl Syntax)"
| "parse_elems 0 acc s = Inl OutOfFuel"
| "parse_elems (Suc n) acc s =
     (case parse_value n s of
        Inl e \<Rightarrow> Inl e
      | Inr (v, r) \<Rightarrow>
          (case skip_ws r of
             c # cs \<Rightarrow>
               if c = CHR '','' then parse_elems n (acc @ [v]) cs
               else if c = CHR '']'' then Inr (JArr (acc @ [v]), cs)
               else Inl Syntax
           | [] \<Rightarrow> Inl Syntax))"
| "parse_members 0 acc s = Inl OutOfFuel"
| "parse_members (Suc n) acc s =
     (case skip_ws s of
        c # cs \<Rightarrow>
          if c = CHR 0x22 then
            (case parse_string cs of
               Inl e \<Rightarrow> Inl e
             | Inr (k, r) \<Rightarrow>
                 (case skip_ws r of
                    d # ds \<Rightarrow>
                      if d = CHR '':'' then
                        (case parse_value n ds of
                           Inl e \<Rightarrow> Inl e
                         | Inr (v, r') \<Rightarrow>
                             (case skip_ws r' of
                                t # ts \<Rightarrow>
                                  if t = CHR '','' then parse_members n (AList.update k v acc) ts
                                  else if t = CHR ''}'' then Inr (JObj (AList.update k v acc), ts)
                                  else Inl Syntax
                              | [] \<Rightarrow> Inl Syntax))
                      else Inl Syntax
                  | [] \<Rightarrow> Inl Syntax))
          else Inl Syntax
      | [] \<Rightarrow> Inl Syntax)"

text \<open>\<open>jsonParse\<close>: one value, surrounded by whitespace only; anything else throws.\<close>

definition json_parse :: "string \<Rightarrow> json option" where
  "json_parse s =
     (case parse_value (Suc (2 * length s)) s of
        Inr (v, r) \<Rightarrow> if skip_ws r = [] then Some v else None
      | Inl _ \<Rightarrow> None)"

text \<open>
  \<open>None\<close> stands for a thrown \<open>jsonParse\<close> and also for a text the model cannot read
  (\<open>Unsupported\<close>: a number that is not a safe integer, a surrogate escape), which
  \<open>JSON.parse\<close> may well accept. \<open>json_rejects\<close> singles out the texts the parser
  finds malformed: a grammar error, or text after the value. \<open>JSON.parse\<close> throws on
  each of them, so a statement that the node fails on a text is made under this hypothesis.
\<close>

definition json_rejects :: "string \<Rightarrow> bool" where
  "json_rejects s =
     (case parse_value (Suc (2 * length s)) s of
        Inl e \<Rightarrow> e = Syntax
      | Inr (_, r) \<Rightarrow> skip_ws r \<noteq> [])"

text \<open>
  The measure of the parser's progress: a call that has enough fuel does not run out of
  it, and a value it reads leaves a strictly shorter rest.
\<close>

definition progress :: "json parse \<Rightarrow> string \<Rightarrow> bool" where
  "progress x s = (case x of Inl e \<Rightarrow> e \<noteq> OutOfFuel | Inr (_, r) \<Rightarrow> length r < length s)"

subsection \<open>Lemmas on the JavaScript operations\<close>

lemma js_get_truthy: "js_get d k = Some v \<Longrightarrow> js_truthy d"
  by (cases d) auto

lemma js_assign_present [jsobj_simps]:
  "k \<in> fst ` set ob \<Longrightarrow> js_assign ob k v = AList.update k v ob"
  by (auto simp: js_assign_def dest: weak_map_of_SomeI)

lemma nat_str_digit: "n < 10 \<Longrightarrow> nat_str n = [digit_char n]"
  by (simp add: nat_str.simps)

lemma nat_str_step: "10 \<le> n \<Longrightarrow> nat_str n = nat_str (n div 10) @ [digit_char (n mod 10)]"
  by (subst nat_str.simps) simp

lemma nat_str_3digits:
  assumes "100 \<le> n" and "n < 1000"
  shows "nat_str n = [digit_char (n div 100), digit_char (n div 10 mod 10), digit_char (n mod 10)]"
proof -
  have "10 \<le> n div 10" using assms(1) by simp
  moreover have "n div 10 div 10 = n div 100" by (simp add: div_mult2_eq)
  moreover have "n div 100 < 10" using assms(2) by simp
  ultimately show ?thesis using assms(1) by (simp add: nat_str_step nat_str_digit)
qed

subsection \<open>Lemmas on the parser\<close>

lemma unescape_rest: "unescape e r = Inr (out, r') \<Longrightarrow> length r' \<le> length r"
  by (auto simp: unescape_def split: option.splits if_splits list.splits)

lemma parse_digits_rest: "parse_digits acc s = (n, r) \<Longrightarrow> length r \<le> length s"
  by (induction acc s arbitrary: n r rule: parse_digits.induct) (fastforce split: if_splits)+

lemma parse_frac_rest: "parse_frac n s = Inr (m, k, r) \<Longrightarrow> length r \<le> length s"
  by (auto simp: parse_frac_def split: list.splits if_splits prod.splits dest!: parse_digits_rest)

lemma parse_exp_rest: "parse_exp s = Inr (x, r) \<Longrightarrow> length r \<le> length s"
  by (auto simp: parse_exp_def exp_sign_def split: list.splits if_splits prod.splits dest!: parse_digits_rest)

lemma number_end_rest: "number_end n neg rest = Inr (v, r) \<Longrightarrow> length r \<le> length rest"
  by (auto simp: number_end_def split: sum.splits prod.splits option.splits if_splits
      dest!: parse_frac_rest parse_exp_rest)

lemma number_end_fuel: "number_end n neg rest \<noteq> Inl OutOfFuel"
  by (auto simp: number_end_def parse_frac_def parse_exp_def exp_sign_def
      split: sum.splits prod.splits option.splits if_splits list.splits)

lemma parse_unsigned_rest: "parse_unsigned neg s = Inr (v, r) \<Longrightarrow> length r < length s"
proof (cases s)
  case Nil
  assume "parse_unsigned neg s = Inr (v, r)"
  with Nil show ?thesis by (simp add: parse_unsigned_def)
next
  case (Cons c cs)
  assume a: "parse_unsigned neg s = Inr (v, r)"
  obtain n rest where pd: "parse_digits (digit_val c) cs = (n, rest)" by fastforce
  from pd have "length rest \<le> length cs" by (rule parse_digits_rest)
  with a Cons pd show ?thesis
    by (auto simp: parse_unsigned_def split: if_splits dest!: number_end_rest)
qed

lemma parse_number_rest: "parse_number s = Inr (v, r) \<Longrightarrow> length r < length s"
  by (auto simp: parse_number_def split: list.splits if_splits dest!: parse_unsigned_rest)

lemma parse_number_fuel: "parse_number s \<noteq> Inl OutOfFuel"
  by (auto simp: parse_number_def parse_unsigned_def number_end_fuel split: list.splits prod.splits)

lemma prepend_Inr: "prepend out x = Inr (s, r) \<Longrightarrow> \<exists>s'. x = Inr (s', r)"
  by (auto simp: prepend_def split: sum.splits)

lemma prepend_not_fuel: "x \<noteq> Inl OutOfFuel \<Longrightarrow> prepend out x \<noteq> Inl OutOfFuel"
  by (auto simp: prepend_def split: sum.splits)

lemma unescape_not_fuel: "unescape e r \<noteq> Inl OutOfFuel"
  by (auto simp: unescape_def split: option.splits list.splits)

lemma parse_string_rest: "parse_string s = Inr (str, r) \<Longrightarrow> length r < length s"
proof (induction s arbitrary: str rule: parse_string.induct)
  case 1
  then show ?case by simp
next
  case (2 c cs)
  then show ?case
    by (auto split: if_splits list.splits sum.splits prod.splits dest!: prepend_Inr)
       (fastforce dest: unescape_rest)+
qed

lemma parse_string_fuel: "parse_string s \<noteq> Inl OutOfFuel"
proof (induction s rule: parse_string.induct)
  case 1
  then show ?case by simp
next
  case (2 c cs)
  then show ?case
    by (auto simp: prepend_not_fuel unescape_not_fuel split: list.splits sum.splits prod.splits)
qed

lemma skip_ws_le: "length (skip_ws s) \<le> length s"
  by (induction s) auto

lemma skip_ws_Cons: "skip_ws s = c # cs \<Longrightarrow> length cs < length s"
  using skip_ws_le[of s] by simp

subsection \<open>Fuel: the parser's calls and their progress\<close>

text \<open>
  \<open>parse_value (Suc n)\<close> calls the fuel-consuming parsers only after an opening bracket;
  every other value is read with no further call, so its answer does not depend on \<open>n\<close>.
  \<open>parse_elems\<close> and \<open>parse_members\<close> read one value and then continue after a comma or
  close the collection, and so share the lemmas on that tail below.
\<close>

lemma parse_value_scalar:
  "skip_ws s = c # cs \<Longrightarrow> c \<noteq> CHR ''{'' \<Longrightarrow> c \<noteq> CHR ''['' \<Longrightarrow>
   parse_value (Suc n) s = parse_value (Suc 0) s"
  by simp

lemma parse_value_obj:
  "skip_ws s = CHR ''{'' # cs \<Longrightarrow>
   parse_value (Suc n) s =
     (case skip_ws cs of d # ds \<Rightarrow> if d = CHR ''}'' then Inr (JObj [], ds) else parse_members n [] (d # ds)
      | [] \<Rightarrow> Inl Syntax)"
  by simp

lemma parse_value_arr:
  "skip_ws s = CHR ''['' # cs \<Longrightarrow>
   parse_value (Suc n) s =
     (case skip_ws cs of d # ds \<Rightarrow> if d = CHR '']'' then Inr (JArr [], ds) else parse_elems n [] (d # ds)
      | [] \<Rightarrow> Inl Syntax)"
  by simp

lemma parse_members_colon:
  "skip_ws s = CHR 0x22 # cs \<Longrightarrow> parse_string cs = Inr (k, r) \<Longrightarrow> skip_ws r = CHR '':'' # ds \<Longrightarrow>
   parse_members (Suc n) macc s =
     (case parse_value n ds of
        Inl e \<Rightarrow> Inl e
      | Inr (v, r') \<Rightarrow>
          (case skip_ws r' of
             t # ts \<Rightarrow>
               if t = CHR '','' then parse_members n (AList.update k v macc) ts
               else if t = CHR ''}'' then Inr (JObj (AList.update k v macc), ts)
               else Inl Syntax
           | [] \<Rightarrow> Inl Syntax))"
  by simp

lemma parse_members_head:
  assumes "\<not> (\<exists>cs k r ds. skip_ws s = CHR 0x22 # cs \<and> parse_string cs = Inr (k, r) \<and>
                          skip_ws r = CHR '':'' # ds)"
  shows "parse_members (Suc n) macc s = parse_members (Suc 0) [] s \<and>
         (\<exists>e. parse_members (Suc 0) [] s = Inl e \<and> e \<noteq> OutOfFuel)"
proof (cases "skip_ws s")
  case (Cons c cs)
  note sc = this
  show ?thesis
  proof (cases "c = CHR 0x22 \<and> \<not> isl (parse_string cs)")
    case True
    then obtain k r where ps: "parse_string cs = Inr (k, r)" by (cases "parse_string cs") auto
    with assms sc True have "\<forall>ds. skip_ws r \<noteq> CHR '':'' # ds" by blast
    with sc True ps show ?thesis by (cases "skip_ws r") auto
  next
    case False
    with sc parse_string_fuel [of cs] show ?thesis by (auto split: sum.splits)
  qed
qed simp

lemma progress_mono: "progress x t \<Longrightarrow> length t \<le> length u \<Longrightarrow> progress x u"
  by (auto simp: progress_def split: sum.splits)

lemma bracket_progress:
  assumes x: "x = (case skip_ws cs of d # ds \<Rightarrow> if d = close then Inr (emp, ds) else f (d # ds)
                   | [] \<Rightarrow> Inl Syntax)"
    and f: "\<And>t. length t \<le> length cs \<Longrightarrow> progress (f t) t"
  shows "progress x cs"
proof (cases "skip_ws cs")
  case Nil
  with x show ?thesis by (simp add: progress_def)
next
  case (Cons d ds)
  then have "length (d # ds) \<le> length cs" using skip_ws_le [of cs] by simp
  with f have "progress (f (d # ds)) cs" by (blast intro: progress_mono)
  with x Cons skip_ws_Cons [OF Cons] show ?thesis by (simp add: progress_def)
qed

lemma bracket_mono:
  assumes x: "x = (case skip_ws cs of d # ds \<Rightarrow> if d = close then Inr (emp, ds) else f (d # ds)
                   | [] \<Rightarrow> Inl Syntax)"
    and x': "x' = (case skip_ws cs of d # ds \<Rightarrow> if d = close then Inr (emp, ds) else f' (d # ds)
                   | [] \<Rightarrow> Inl Syntax)"
    and "x \<noteq> Inl OutOfFuel" and "\<And>t. f t \<noteq> Inl OutOfFuel \<Longrightarrow> f' t = f t"
  shows "x' = x"
  using assms by (auto split: list.splits)

lemma seq_progress:
  assumes x: "x = (case y of
                     Inl e \<Rightarrow> Inl e
                   | Inr (v, r) \<Rightarrow>
                       (case skip_ws r of
                          c # cs \<Rightarrow> if c = CHR '','' then g v cs else if c = close then Inr (res v, cs)
                                   else Inl Syntax
                        | [] \<Rightarrow> Inl Syntax))"
    and y: "progress y s" and g: "\<And>v t. length t < length s \<Longrightarrow> progress (g v t) t"
  shows "progress x s"
proof (cases y)
  case (Inl e)
  with x y show ?thesis by (simp add: progress_def)
next
  case (Inr p)
  obtain v r where p: "y = Inr (v, r)" using Inr by (cases p) simp
  with y have lr: "length r < length s" by (simp add: progress_def)
  show ?thesis
  proof (cases "skip_ws r")
    case Nil
    with x p show ?thesis by (simp add: progress_def)
  next
    case (Cons c cs)
    then have lc: "length cs < length s" using skip_ws_Cons [OF Cons] lr by simp
    with g [of cs v] have "progress (g v cs) s" by (blast intro: progress_mono less_imp_le)
    with x p Cons lc show ?thesis by (simp add: progress_def)
  qed
qed

lemma seq_mono:
  assumes x: "x = (case y of
                     Inl e \<Rightarrow> Inl e
                   | Inr (v, r) \<Rightarrow>
                       (case skip_ws r of
                          c # cs \<Rightarrow> if c = CHR '','' then g v cs else if c = close then Inr (res v, cs)
                                   else Inl Syntax
                        | [] \<Rightarrow> Inl Syntax))"
    and x': "x' = (case y' of
                     Inl e \<Rightarrow> Inl e
                   | Inr (v, r) \<Rightarrow>
                       (case skip_ws r of
                          c # cs \<Rightarrow> if c = CHR '','' then g' v cs else if c = close then Inr (res v, cs)
                                   else Inl Syntax
                        | [] \<Rightarrow> Inl Syntax))"
    and nf: "x \<noteq> Inl OutOfFuel" and y: "y \<noteq> Inl OutOfFuel \<Longrightarrow> y' = y"
    and g: "\<And>v t. g v t \<noteq> Inl OutOfFuel \<Longrightarrow> g' v t = g v t"
  shows "x' = x"
proof -
  have "y \<noteq> Inl OutOfFuel" using x nf by auto
  with y have "y' = y" by blast
  with x x' nf g show ?thesis by (auto split: sum.splits list.splits)
qed

text \<open>
  The three steps of the fuel argument, one per parser: with twice the input length of
  fuel (plus one for a collection's tail), a call makes progress, provided the calls it
  makes do.
\<close>

lemma scalar_progress:
  assumes sc: "skip_ws s = c # cs" and "c \<noteq> CHR ''{''" and "c \<noteq> CHR ''[''"
  shows "progress (parse_value (Suc n) s) s"
proof -
  have lcs: "length cs < length s" using sc by (rule skip_ws_Cons)
  have str: "progress (case parse_string cs of Inl e \<Rightarrow> Inl e | Inr (str, r) \<Rightarrow> Inr (JStr str, r)) s"
    using parse_string_fuel [of cs] parse_string_rest [of cs] lcs
    by (auto simp: progress_def split: sum.splits)
  have num: "progress (parse_number (c # cs)) s"
    using parse_number_fuel [of "c # cs"] parse_number_rest [of "c # cs"] lcs
    by (auto simp: progress_def split: sum.splits)
  have lit: "length (drop k (c # cs)) < length s" if "0 < k" for k
    using that lcs by simp
  show ?thesis
    using assms str num lit [of 4] lit [of 5] by (simp add: progress_def)
qed

lemma value_progress_step:
  assumes E: "\<And>acc t. 2 * length t + 1 < n \<Longrightarrow> progress (parse_elems n acc t) t"
    and M: "\<And>acc t. 2 * length t + 1 < n \<Longrightarrow> progress (parse_members n acc t) t"
    and b: "2 * length s < Suc n"
  shows "progress (parse_value (Suc n) s) s"
proof (cases "skip_ws s")
  case Nil
  then show ?thesis by (simp add: progress_def)
next
  case (Cons c cs)
  note sc = this
  have lcs: "length cs < length s" using sc by (rule skip_ws_Cons)
  have bt: "2 * length t + 1 < n" if "length t \<le> length cs" for t :: string
    using that lcs b by linarith
  consider (obj) "c = CHR ''{''" | (arr) "c = CHR ''[''" | (other) "c \<noteq> CHR ''{''" "c \<noteq> CHR ''[''"
    by blast
  then show ?thesis
  proof cases
    case obj
    have "progress (parse_value (Suc n) s) cs"
      by (rule bracket_progress [OF parse_value_obj [OF sc [unfolded obj]]]) (rule M [OF bt])
    with lcs show ?thesis by (simp add: progress_mono)
  next
    case arr
    have "progress (parse_value (Suc n) s) cs"
      by (rule bracket_progress [OF parse_value_arr [OF sc [unfolded arr]]]) (rule E [OF bt])
    with lcs show ?thesis by (simp add: progress_mono)
  next
    case other
    with sc show ?thesis by (rule scalar_progress)
  qed
qed

lemma elems_progress_step:
  assumes V: "\<And>t. 2 * length t < n \<Longrightarrow> progress (parse_value n t) t"
    and E: "\<And>acc t. 2 * length t + 1 < n \<Longrightarrow> progress (parse_elems n acc t) t"
    and b: "2 * length s + 1 < Suc n"
  shows "progress (parse_elems (Suc n) acc s) s"
proof (rule seq_progress [OF parse_elems.simps(2)])
  show "progress (parse_value n s) s" using b by (intro V) simp
  show "progress (parse_elems n (acc @ [v]) t) t" if "length t < length s" for v t
    using that b by (intro E) linarith
qed

lemma members_progress_step:
  assumes V: "\<And>t. 2 * length t < n \<Longrightarrow> progress (parse_value n t) t"
    and M: "\<And>acc t. 2 * length t + 1 < n \<Longrightarrow> progress (parse_members n acc t) t"
    and b: "2 * length s + 1 < Suc n"
  shows "progress (parse_members (Suc n) macc s) s"
proof (cases "\<exists>cs k r ds. skip_ws s = CHR 0x22 # cs \<and> parse_string cs = Inr (k, r) \<and>
                          skip_ws r = CHR '':'' # ds")
  case False
  then obtain e where "parse_members (Suc n) macc s = Inl e" "e \<noteq> OutOfFuel"
    using parse_members_head by metis
  then show ?thesis by (simp add: progress_def)
next
  case True
  then obtain cs k r ds where sc: "skip_ws s = CHR 0x22 # cs" and ps: "parse_string cs = Inr (k, r)"
    and rd: "skip_ws r = CHR '':'' # ds" by blast
  have "length ds < length s"
    using skip_ws_Cons [OF sc] parse_string_rest [OF ps] skip_ws_Cons [OF rd] by linarith
  then have "progress (parse_members (Suc n) macc s) ds"
  proof (intro seq_progress [OF parse_members_colon [OF sc ps rd]])
    show "progress (parse_value n ds) ds" if "length ds < length s"
      using that b by (intro V) linarith
    show "progress (parse_members n (AList.update k v macc) t) t" if "length ds < length s"
      and "length t < length ds" for v t
      using that b by (intro M) linarith
  qed
  then show ?thesis using \<open>length ds < length s\<close> by (simp add: progress_mono)
qed

lemma parse_progress:
  "(\<forall>s. 2 * length s < n \<longrightarrow> progress (parse_value n s) s) \<and>
   (\<forall>acc s. 2 * length s + 1 < n \<longrightarrow> progress (parse_elems n acc s) s) \<and>
   (\<forall>acc s. 2 * length s + 1 < n \<longrightarrow> progress (parse_members n acc s) s)"
proof (induction n)
  case 0
  show ?case by simp
next
  case (Suc n)
  then have V: "\<And>t. 2 * length t < n \<Longrightarrow> progress (parse_value n t) t"
    and E: "\<And>acc t. 2 * length t + 1 < n \<Longrightarrow> progress (parse_elems n acc t) t"
    and M: "\<And>acc t. 2 * length t + 1 < n \<Longrightarrow> progress (parse_members n acc t) t"
    by blast+
  show ?case
    using value_progress_step [OF E M] elems_progress_step [OF V E] members_progress_step [OF V M]
    by blast
qed

lemma parse_fuel:
  shows "2 * length s < n \<Longrightarrow> parse_value n s \<noteq> Inl OutOfFuel \<and>
           (\<forall>v r. parse_value n s = Inr (v, r) \<longrightarrow> length r < length s)"
    and "2 * length s + 1 < n \<Longrightarrow> parse_elems n acc s \<noteq> Inl OutOfFuel \<and>
           (\<forall>v r. parse_elems n acc s = Inr (v, r) \<longrightarrow> length r < length s)"
    and "2 * length s + 1 < n \<Longrightarrow> parse_members n macc s \<noteq> Inl OutOfFuel \<and>
           (\<forall>v r. parse_members n macc s = Inr (v, r) \<longrightarrow> length r < length s)"
  using parse_progress [of n] by (auto simp: progress_def split: sum.splits)

text \<open>More fuel never changes an answer given without running out.\<close>

lemma value_mono_step:
  assumes E: "\<And>acc t. parse_elems n acc t \<noteq> Inl OutOfFuel \<Longrightarrow> parse_elems m acc t = parse_elems n acc t"
    and M: "\<And>acc t. parse_members n acc t \<noteq> Inl OutOfFuel \<Longrightarrow> parse_members m acc t = parse_members n acc t"
    and nf: "parse_value (Suc n) s \<noteq> Inl OutOfFuel"
  shows "parse_value (Suc m) s = parse_value (Suc n) s"
proof (cases "skip_ws s")
  case Nil
  then show ?thesis by simp
next
  case (Cons c cs)
  consider (obj) "c = CHR ''{''" | (arr) "c = CHR ''[''" | (other) "c \<noteq> CHR ''{''" "c \<noteq> CHR ''[''"
    by blast
  then show ?thesis
  proof cases
    case obj
    note sc = Cons [unfolded obj]
    show ?thesis
      by (rule bracket_mono [OF parse_value_obj [OF sc] parse_value_obj [OF sc] nf]) (erule M)
  next
    case arr
    note sc = Cons [unfolded arr]
    show ?thesis
      by (rule bracket_mono [OF parse_value_arr [OF sc] parse_value_arr [OF sc] nf]) (erule E)
  next
    case other
    with Cons show ?thesis by (metis parse_value_scalar)
  qed
qed

lemma elems_mono_step:
  assumes V: "\<And>t. parse_value n t \<noteq> Inl OutOfFuel \<Longrightarrow> parse_value m t = parse_value n t"
    and E: "\<And>acc t. parse_elems n acc t \<noteq> Inl OutOfFuel \<Longrightarrow> parse_elems m acc t = parse_elems n acc t"
    and nf: "parse_elems (Suc n) acc s \<noteq> Inl OutOfFuel"
  shows "parse_elems (Suc m) acc s = parse_elems (Suc n) acc s"
  by (rule seq_mono [OF parse_elems.simps(2) parse_elems.simps(2) nf]) (erule V, erule E)

lemma members_mono_step:
  assumes V: "\<And>t. parse_value n t \<noteq> Inl OutOfFuel \<Longrightarrow> parse_value m t = parse_value n t"
    and M: "\<And>acc t. parse_members n acc t \<noteq> Inl OutOfFuel \<Longrightarrow> parse_members m acc t = parse_members n acc t"
    and nf: "parse_members (Suc n) macc s \<noteq> Inl OutOfFuel"
  shows "parse_members (Suc m) macc s = parse_members (Suc n) macc s"
proof (cases "\<exists>cs k r ds. skip_ws s = CHR 0x22 # cs \<and> parse_string cs = Inr (k, r) \<and>
                           skip_ws r = CHR '':'' # ds")
  case False
  with parse_members_head show ?thesis by metis
next
  case True
  then obtain cs k r ds where sc: "skip_ws s = CHR 0x22 # cs" and ps: "parse_string cs = Inr (k, r)"
    and rd: "skip_ws r = CHR '':'' # ds" by blast
  show ?thesis
    by (rule seq_mono [OF parse_members_colon [OF sc ps rd] parse_members_colon [OF sc ps rd] nf])
       (erule V, erule M)
qed

lemma parse_mono_all:
  "(\<forall>s m. parse_value n s \<noteq> Inl OutOfFuel \<longrightarrow> n \<le> m \<longrightarrow> parse_value m s = parse_value n s) \<and>
   (\<forall>acc s m. parse_elems n acc s \<noteq> Inl OutOfFuel \<longrightarrow> n \<le> m \<longrightarrow> parse_elems m acc s = parse_elems n acc s) \<and>
   (\<forall>acc s m. parse_members n acc s \<noteq> Inl OutOfFuel \<longrightarrow> n \<le> m \<longrightarrow>
      parse_members m acc s = parse_members n acc s)"
proof (induction n)
  case 0
  show ?case by simp
next
  case (Suc n)
  then have V: "\<And>t m. parse_value n t \<noteq> Inl OutOfFuel \<Longrightarrow> n \<le> m \<Longrightarrow> parse_value m t = parse_value n t"
    and E: "\<And>acc t m. parse_elems n acc t \<noteq> Inl OutOfFuel \<Longrightarrow> n \<le> m \<Longrightarrow>
              parse_elems m acc t = parse_elems n acc t"
    and M: "\<And>acc t m. parse_members n acc t \<noteq> Inl OutOfFuel \<Longrightarrow> n \<le> m \<Longrightarrow>
              parse_members m acc t = parse_members n acc t"
    by blast+
  have Suc_le: "\<exists>m'. m = Suc m' \<and> n \<le> m'" if "Suc n \<le> m" for m
    using that by (cases m) auto
  show ?case
  proof (intro conjI allI impI)
    fix s m
    assume nf: "parse_value (Suc n) s \<noteq> Inl OutOfFuel" and "Suc n \<le> m"
    with Suc_le obtain m' where m: "m = Suc m'" and nm: "n \<le> m'" by blast
    show "parse_value m s = parse_value (Suc n) s"
      unfolding m by (rule value_mono_step [OF E [OF _ nm] M [OF _ nm] nf])
  next
    fix acc s m
    assume nf: "parse_elems (Suc n) acc s \<noteq> Inl OutOfFuel" and "Suc n \<le> m"
    with Suc_le obtain m' where m: "m = Suc m'" and nm: "n \<le> m'" by blast
    show "parse_elems m acc s = parse_elems (Suc n) acc s"
      unfolding m by (rule elems_mono_step [OF V [OF _ nm] E [OF _ nm] nf])
  next
    fix acc s m
    assume nf: "parse_members (Suc n) acc s \<noteq> Inl OutOfFuel" and "Suc n \<le> m"
    with Suc_le obtain m' where m: "m = Suc m'" and nm: "n \<le> m'" by blast
    show "parse_members m acc s = parse_members (Suc n) acc s"
      unfolding m by (rule members_mono_step [OF V [OF _ nm] M [OF _ nm] nf])
  qed
qed

lemma parse_mono:
  shows "parse_value n s \<noteq> Inl OutOfFuel \<Longrightarrow> n \<le> m \<Longrightarrow> parse_value m s = parse_value n s"
    and "parse_elems n acc s \<noteq> Inl OutOfFuel \<Longrightarrow> n \<le> m \<Longrightarrow> parse_elems m acc s = parse_elems n acc s"
    and "parse_members n macc s \<noteq> Inl OutOfFuel \<Longrightarrow> n \<le> m \<Longrightarrow> parse_members m macc s = parse_members n macc s"
  using parse_mono_all [of n] by blast+

text \<open>
  The fuel \<open>json_parse\<close> gives the parser, one more than twice the length of the input,
  is enough: the parser never runs out of it, and a value it parses leaves a strictly
  shorter rest. More fuel never changes an answer, so \<open>json_parse\<close> answers a value
  exactly when the parser, given any amount of fuel, reads that value followed by
  whitespace only: a \<open>jsonParse\<close> error is a syntax error of the input (or an
  unsupported number or escape), never an artefact of the bound.
\<close>

lemma json_parse_fuel:
  "parse_value (Suc (2 * length s)) s \<noteq> Inl OutOfFuel \<and>
   (\<forall>v r. parse_value (Suc (2 * length s)) s = Inr (v, r) \<longrightarrow> length r < length s)"
  by (rule parse_fuel(1)) simp

lemma json_parse_iff:
  "json_parse s = Some v \<longleftrightarrow> (\<exists>n r. parse_value n s = Inr (v, r) \<and> skip_ws r = [])"
proof
  assume "json_parse s = Some v"
  then show "\<exists>n r. parse_value n s = Inr (v, r) \<and> skip_ws r = []"
    by (auto simp: json_parse_def simp del: parse_value.simps split: sum.splits prod.splits if_splits)
next
  assume "\<exists>n r. parse_value n s = Inr (v, r) \<and> skip_ws r = []"
  then obtain n r where p: "parse_value n s = Inr (v, r)" and w: "skip_ws r = []" by blast
  define m where "m = max n (Suc (2 * length s))"
  have "parse_value m s = parse_value n s"
    using p by (intro parse_mono(1)) (simp_all add: m_def)
  moreover have "parse_value m s = parse_value (Suc (2 * length s)) s"
    using parse_fuel(1) [of s "Suc (2 * length s)"] by (intro parse_mono(1)) (simp_all add: m_def)
  ultimately show "json_parse s = Some v"
    using p w by (simp add: json_parse_def)
qed

lemma json_rejects_None: "json_rejects s \<Longrightarrow> json_parse s = None"
  by (auto simp: json_rejects_def json_parse_def simp del: parse_value.simps split: sum.splits prod.splits)

lemma json_parse_None:
  "json_parse s = None \<longleftrightarrow> \<not> (\<exists>n v r. parse_value n s = Inr (v, r) \<and> skip_ws r = [])"
proof
  assume "json_parse s = None"
  then show "\<not> (\<exists>n v r. parse_value n s = Inr (v, r) \<and> skip_ws r = [])"
    by (metis json_parse_iff option.distinct(1))
next
  assume "\<not> (\<exists>n v r. parse_value n s = Inr (v, r) \<and> skip_ws r = [])"
  then show "json_parse s = None"
    by (metis json_parse_iff not_None_eq)
qed

end
