(* ===== verification/Host.thy ===== *)
theory Host
  imports Json
begin

text \<open>
  The interface between the node and the n8n host: request options (\<open>IRequestOptions\<close>),
  the errors the node throws (\<open>NodeOperationError\<close>, \<open>NodeApiError\<close>, a JavaScript
  \<open>TypeError\<close>, or whatever \<open>requestWithAuthentication\<close> throws), their \<open>message\<close>,
  and the execution items the node returns (\<open>INodeExecutionData\<close>). Constants of
  \<open>src/nodes/GotoHuman/GotoHuman.node.ts\<close>, lines 3--4, are here too.
\<close>

definition base_url :: string where
  "base_url = ''https://api.gotohuman.com''"

definition node_version :: int where
  "node_version = 1"

datatype http_method = GET | POST

record http_request =
  rq_method :: http_method
  rq_uri :: string
  rq_qs :: "json jsobj"
  rq_body :: "json option"
  rq_headers :: "string jsobj"

datatype node_error =
    OperationNotSupported string
  | MetaParseError
  | FieldParseError string string
  | ApiError json string
  | TypeError string
  | RequestFailed string
  | NoTemplatesFound
  | NoFieldsFound

text \<open>\<open>err.message\<close>; a \<open>NodeApiError\<close> carries the message it was given.\<close>

fun error_message :: "node_error \<Rightarrow> json" where
  "error_message (OperationNotSupported op) =
     JStr (''The operation '' @ op @ '' is not supported!'')"
| "error_message MetaParseError = JStr ''Not a valid JSON object''"
| "error_message (FieldParseError k s) =
     JStr (''Could not parse field '' @ [CHR 0x27] @ k @ [CHR 0x27] @ '' as JSON: '' @ s)"
| "error_message (ApiError m _) = m"
| "error_message (TypeError k) =
     JStr (''Cannot read properties of null (reading '' @ [CHR 0x27] @ k @ [CHR 0x27] @ '')'')"
| "error_message (RequestFailed m) = JStr m"
| "error_message NoTemplatesFound =
     JStr ''No review templates found. Please create one first in our web app.''"
| "error_message NoFieldsFound =
     JStr ''No fields found for review template. Please add some fields in our web editor first.''"

text \<open>An output item: \<open>{json: ...}\<close>, with \<open>error\<close> when it records a caught error.\<close>

record out_item =
  item_json :: "json option"
  item_error :: "node_error option"

text \<open>A property read \<open>v.k\<close> throws a \<open>TypeError\<close> on \<open>null\<close>.\<close>

definition read_prop :: "json \<Rightarrow> string \<Rightarrow> node_error + json option" where
  "read_prop v k = (if v = JNull then Inl (TypeError k) else Inr (js_get v k))"

end
