(* ===== verification/Json_Roundtrip.thy ===== *)
theory Json_Roundtrip
  imports Complex_Main Json
begin

text \<open>
  \<open>JSON.parse\<close> reads back what \<open>JSON.stringify\<close> writes. The node sends its request
  bodies through \<open>JSON.stringify\<close> and the service parses them; this theory shows that
  the model of \<open>jsonParse\<close> (\<open>json_parse\<close>) inverts the model of \<open>JSON.stringify\<close>
  (\<open>json_print\<close>) on every value that a JavaScript program can hold, i.e. whose objects
  have distinct keys and whose numbers are safe integers (\<open>json_wf\<close>), and that the
  parser only produces such values. \<open>decimal_value_rat\<close> shows that a number literal
  with a fraction or an exponent is read as the rational value it denotes.

  The proof runs bottom-up: escaped string bodies (\<open>parse_string_quoted\<close>), integers
  (\<open>parse_number_int_str\<close>), then arrays and objects by induction on the value
  (\<open>parse_value_print\<close>), each printed value followed by a delimiter (\<open>json_delim\<close>:
  the end of the text, a comma or a closing bracket). Fuel is combined with the
  monotonicity lemma \<open>parse_mono\<close> of the parser.
\<close>

subsection \<open>Delimiters and well-formed values\<close>

text \<open>What may follow a value inside printed JSON.\<close>

definition json_delim :: "string \<Rightarrow> bool" where
  "json_delim r \<longleftrightarrow> (case r of [] \<Rightarrow> True | c # _ \<Rightarrow> c = CHR '','' \<or> c = CHR '']'' \<or> c = CHR ''}'')"

text \<open>A JavaScript value: every object has distinct keys, every number is a safe integer.\<close>

fun json_wf :: "json \<Rightarrow> bool"
  and elems_wf :: "json list \<Rightarrow> bool"
  and members_wf :: "json jsobj \<Rightarrow> bool" where
  "json_wf (JArr xs) = elems_wf xs"
| "json_wf (JObj ps) = (distinct (map fst ps) \<and> members_wf ps)"
| "json_wf JNull = True"
| "json_wf (JBool b) = True"
| "json_wf (JNum i) = (\<bar>i\<bar> \<le> max_safe)"
| "json_wf (JStr s) = True"
| "elems_wf [] = True"
| "elems_wf (x # xs) = (json_wf x \<and> elems_wf xs)"
| "members_wf [] = True"
| "members_wf ((k, v) # ps) = (json_wf v \<and> members_wf ps)"

subsection \<open>Strings\<close>

lemma hex_val_hex_digit: "d < 16 \<Longrightarrow> hex_val (hex_digit d) = Some d"
  by (auto simp: hex_digit_def digit_char_def Let_def)

lemma prepend_Inr_simp [simp]: "prepend out (Inr (s, r)) = Inr (out @ s, r)"
  by (simp add: prepend_def)

lemma parse_string_esc_char:
  "parse_string (esc_char c @ rest) = prepend [c] (parse_string rest)"
proof -
  consider "c = CHR 0x22" | "c = CHR 0x5C" | "c = CHR 0x08" | "c = CHR 0x0C" | "c = CHR 0x0A"
    | "c = CHR 0x0D" | "c = CHR 0x09"
    | (ctl) "of_char c < (32::nat)" "c \<notin> {CHR 0x22, CHR 0x5C, CHR 0x08, CHR 0x0C, CHR 0x0A, CHR 0x0D, CHR 0x09}"
    | (plain) "\<not> of_char c < (32::nat)" "c \<notin> {CHR 0x22, CHR 0x5C}"
    by (cases "of_char c < (32::nat)") auto
  then show ?thesis
  proof cases
    case ctl
    let ?k = "of_char c :: nat"
    have h: "hex4 (CHR ''0'') (CHR ''0'') (hex_digit (?k div 16)) (hex_digit (?k mod 16)) = Some ?k"
    proof -
      have z: "hex_val (CHR ''0'') = Some 0" by simp
      have "?k div 16 < 16" "?k mod 16 < 16" using ctl(1) by simp_all
      then show ?thesis
        using z by (simp add: hex4_def hex_val_hex_digit del: hex_val.simps)
    qed
    have u: "utf8_unit ?k = Some [c]" using ctl(1) by (simp add: utf8_unit_def)
    have s: "simple_escape (CHR ''u'') = None" by (simp add: simple_escape_def)
    show ?thesis using ctl h u s by (simp add: esc_char_def unescape_def)
  next
    case plain
    then have "c \<notin> {CHR 0x08, CHR 0x0C, CHR 0x0A, CHR 0x0D, CHR 0x09}" by auto
    with plain show ?thesis by (simp add: esc_char_def)
  qed (simp_all add: esc_char_def unescape_def simple_escape_def)
qed

lemma parse_string_quoted:
  "parse_string (concat (map esc_char s) @ CHR 0x22 # rest) = Inr (s, rest)"
  by (induction s) (simp_all add: parse_string_esc_char)

subsection \<open>Integers\<close>

lemma json_delim_not_digit:
  "json_delim r \<Longrightarrow> parse_digits acc r = (acc, r)"
  by (cases r) (auto simp: json_delim_def is_digit_def)

lemma json_delim_number_end:
  "json_delim r \<Longrightarrow> int n \<le> max_safe \<Longrightarrow>
   number_end n neg r = Inr (JNum (if neg then - int n else int n), r)"
  by (auto simp: json_delim_def number_end_def parse_frac_def parse_exp_def decimal_value_def
      split: list.splits)

lemma parse_digits_append:
  "\<forall>c\<in>set xs. is_digit c \<Longrightarrow>
   parse_digits acc (xs @ ys) = parse_digits (foldl (\<lambda>a c. 10 * a + digit_val c) acc xs) ys"
  by (induction xs arbitrary: acc) auto

lemma nat_str_is_digit: "\<forall>c\<in>set (nat_str n). is_digit c"
proof (induction n rule: nat_str.induct)
  case (1 n)
  then show ?case by (subst nat_str.simps) auto
qed

lemma foldl_nat_str:
  "foldl (\<lambda>a c. 10 * a + digit_val c) acc (nat_str n) = acc * 10 ^ length (nat_str n) + n"
proof (induction n arbitrary: acc rule: nat_str.induct)
  case (1 n)
  show ?case
  proof (cases "n < 10")
    case True
    then show ?thesis by (simp add: nat_str_digit)
  next
    case False
    then have "nat_str n = nat_str (n div 10) @ [digit_char (n mod 10)]" by (simp add: nat_str_step)
    moreover have "10 * (acc * 10 ^ length (nat_str (n div 10)) + n div 10) + n mod 10
                   = acc * 10 ^ Suc (length (nat_str (n div 10))) + n" by simp
    ultimately show ?thesis using "1.IH" False by simp
  qed
qed

lemma nat_str_Cons: "\<exists>c cs. nat_str n = c # cs"
proof -
  have "nat_str n \<noteq> []" by (subst nat_str.simps) simp
  then show ?thesis by (simp add: neq_Nil_conv)
qed

lemma nat_str_lead:
  "nat_str n = c # cs \<Longrightarrow> 0 < n \<Longrightarrow> c \<noteq> CHR ''0''"
proof (induction n arbitrary: c cs rule: nat_str.induct)
  case (1 n)
  show ?case
  proof (cases "n < 10")
    case True
    with "1.prems" have "c = digit_char n" by (simp add: nat_str_digit)
    with True "1.prems"(2) show ?thesis
      using digit_char_eq_iff [of n 0] by simp
  next
    case False
    obtain d ds where d: "nat_str (n div 10) = d # ds" using nat_str_Cons by blast
    with "1.prems"(1) False have "c = d" by (simp add: nat_str_step)
    with "1.IH" [OF _ d] False show ?thesis by simp
  qed
qed

lemma parse_unsigned_nat_str:
  assumes "json_delim r" and "int m \<le> max_safe"
  shows "parse_unsigned neg (nat_str m @ r) = Inr (JNum (if neg then - int m else int m), r)"
proof -
  obtain c cs where m: "nat_str m = c # cs" using nat_str_Cons by blast
  have dig: "\<forall>x\<in>set (c # cs). is_digit x" using nat_str_is_digit [of m] m by simp
  show ?thesis
  proof (cases "m = 0")
    case True
    then have "c = CHR ''0''" "cs = []" using m by (simp_all add: nat_str_digit)
    with True m assms show ?thesis by (simp add: parse_unsigned_def json_delim_number_end is_digit_def)
  next
    case False
    then have c0: "c \<noteq> CHR ''0''" using nat_str_lead [OF m] by simp
    have "parse_digits (digit_val c) (cs @ r) = parse_digits 0 (nat_str m @ r)"
      using dig m by simp
    also have "\<dots> = (m, r)"
      using nat_str_is_digit [of m] foldl_nat_str [of 0 m] assms
      by (simp add: parse_digits_append json_delim_not_digit)
    finally show ?thesis
      using m dig c0 assms by (simp add: parse_unsigned_def json_delim_number_end)
  qed
qed

lemma parse_number_int_str:
  assumes "json_delim r" and "\<bar>i\<bar> \<le> max_safe"
  shows "parse_number (int_str i @ r) = Inr (JNum i, r)"
proof (cases "i < 0")
  case True
  then show ?thesis
    using parse_unsigned_nat_str [OF assms(1), of "nat (- i)" True] assms(2)
    by (simp add: parse_number_def int_str_def)
next
  case False
  obtain c cs where m: "nat_str (nat i) = c # cs" using nat_str_Cons by blast
  have "is_digit c" using nat_str_is_digit [of "nat i"] m by simp
  then have "c \<noteq> CHR ''-''" by (auto simp: is_digit_def)
  then show ?thesis
    using False m parse_unsigned_nat_str [OF assms(1), of "nat i" False] assms(2)
    by (simp add: parse_number_def int_str_def)
qed

text \<open>
  \<open>decimal_value\<close> is the number a literal denotes: it answers \<open>v\<close> exactly when
  \<open>m \<cdot> 10^e\<close>, computed in the rationals, is the integer \<open>v\<close>.
\<close>

lemma int_mult_pow10_iff:
  "v * 10 ^ k = int m \<longleftrightarrow> 10 ^ k dvd m \<and> v = int (m div 10 ^ k)"
proof
  assume a: "v * 10 ^ k = int m"
  then have "int (10 ^ k) dvd int m" by (metis dvd_triv_right of_nat_numeral of_nat_power)
  then have d: "10 ^ k dvd m" by (simp only: int_dvd_int_iff)
  have "v = int m div 10 ^ k" using a [symmetric] by simp
  also have "\<dots> = int (m div 10 ^ k)" by (simp add: zdiv_int)
  finally show "10 ^ k dvd m \<and> v = int (m div 10 ^ k)" using d by blast
next
  assume "10 ^ k dvd m \<and> v = int (m div 10 ^ k)"
  then have "m div 10 ^ k * 10 ^ k = m" and v: "v = int (m div 10 ^ k)" by simp_all
  then show "v * 10 ^ k = int m" by (metis of_nat_mult of_nat_numeral of_nat_power)
qed

lemma decimal_value_rat:
  "decimal_value m e = Some v \<longleftrightarrow> (of_int v :: rat) = of_nat m * 10 powi e"
proof (cases "0 \<le> e")
  case True
  then have p: "(10::rat) powi e = 10 ^ nat e" by (simp add: power_int_def)
  have "(of_nat m * 10 ^ nat e :: rat) = of_int (int m * 10 ^ nat e)" by simp
  then have "(of_int v :: rat) = of_nat m * 10 powi e \<longleftrightarrow> v = int m * 10 ^ nat e"
    unfolding p by (metis of_int_eq_iff)
  with True show ?thesis by (auto simp: decimal_value_def)
next
  case False
  define k where "k = nat (- e)"
  have p: "(10::rat) powi e = inverse (10 ^ k)" using False by (simp add: power_int_def k_def power_one_over inverse_eq_divide)
  have "(of_int v :: rat) = of_nat m * 10 powi e \<longleftrightarrow> (of_int v :: rat) * 10 ^ k = of_nat m"
    unfolding p by (simp add: field_simps)
  also have "\<dots> \<longleftrightarrow> (of_int (v * 10 ^ k) :: rat) = of_int (int m)" by simp
  also have "\<dots> \<longleftrightarrow> v * 10 ^ k = int m" by (rule of_int_eq_iff)
  also have "\<dots> \<longleftrightarrow> 10 ^ k dvd m \<and> v = int (m div 10 ^ k)" by (rule int_mult_pow10_iff)
  finally show ?thesis using False by (auto simp: decimal_value_def k_def)
qed

subsection \<open>Values\<close>

lemma json_print_head:
  "\<exists>c cs. json_print j @ r = c # cs \<and> \<not> is_ws c \<and> c \<noteq> CHR '']'' \<and> c \<noteq> CHR ''}''"
proof (cases j)
  case (JNum i)
  show ?thesis
  proof (cases "i < 0")
    case True
    with JNum show ?thesis by (simp add: int_str_def is_ws_def)
  next
    case False
    obtain c cs where m: "nat_str (nat i) = c # cs" using nat_str_Cons by blast
    have "is_digit c" using nat_str_is_digit [of "nat i"] m by simp
    with JNum False m show ?thesis by (auto simp: int_str_def is_ws_def is_digit_def)
  qed
next
  case (JArr xs)
  then show ?thesis by (cases xs) (simp_all add: is_ws_def)
next
  case (JObj ps)
  then show ?thesis by (cases ps) (auto simp: is_ws_def)
qed (simp_all add: is_ws_def quote_str_def)

lemma parse_value_Inr_mono:
  assumes "parse_value n s = Inr x" and "n \<le> m"
  shows "parse_value m s = Inr x"
proof -
  have "parse_value n s \<noteq> Inl OutOfFuel" using assms(1) by simp
  from parse_mono(1) [OF this assms(2)] assms(1) show ?thesis by simp
qed

lemma parse_elems_Inr_mono:
  assumes "parse_elems n acc s = Inr x" and "n \<le> m"
  shows "parse_elems m acc s = Inr x"
proof -
  have "parse_elems n acc s \<noteq> Inl OutOfFuel" using assms(1) by simp
  from parse_mono(2) [OF this assms(2)] assms(1) show ?thesis by simp
qed

lemma parse_members_Inr_mono:
  assumes "parse_members n acc s = Inr x" and "n \<le> m"
  shows "parse_members m acc s = Inr x"
proof -
  have "parse_members n acc s \<noteq> Inl OutOfFuel" using assms(1) by simp
  from parse_mono(3) [OF this assms(2)] assms(1) show ?thesis by simp
qed

lemma elems_wf_iff: "elems_wf xs \<longleftrightarrow> (\<forall>x\<in>set xs. json_wf x)"
  by (induction xs) auto

lemma members_wf_iff: "members_wf ps \<longleftrightarrow> (\<forall>p\<in>set ps. json_wf (snd p))"
  by (induction ps) auto

lemma json_delim_simps [simp]:
  "json_delim []" "json_delim (CHR '','' # r)" "json_delim (CHR '']'' # r)" "json_delim (CHR ''}'' # r)"
  by (simp_all add: json_delim_def)

lemma parse_elems_print:
  assumes "\<And>y r. y \<in> set (x # xs) \<Longrightarrow> json_delim r \<Longrightarrow> \<exists>n. parse_value n (json_print y @ r) = Inr (y, r)"
    and "json_delim r"
  shows "\<exists>n. parse_elems n acc (json_print x @ print_elems xs @ r) = Inr (JArr (acc @ x # xs), r)"
  using assms
proof (induction xs arbitrary: x acc)
  case Nil
  obtain n where "parse_value n (json_print x @ CHR '']'' # r) = Inr (x, CHR '']'' # r)"
    using Nil.prems(1) [of x "CHR '']'' # r"] by auto
  then have "parse_elems (Suc n) acc (json_print x @ print_elems [] @ r) = Inr (JArr (acc @ [x]), r)"
    by (simp add: is_ws_def)
  then show ?case by blast
next
  case (Cons y ys)
  let ?s = "print_elems (y # ys) @ r"
  obtain n0 where p0: "parse_value n0 (json_print x @ ?s) = Inr (x, ?s)"
    using Cons.prems(1) [of x ?s] by auto
  obtain n1 where p1: "parse_elems n1 (acc @ [x]) (json_print y @ print_elems ys @ r) =
                       Inr (JArr ((acc @ [x]) @ y # ys), r)"
    using Cons.IH [of y "acc @ [x]"] Cons.prems by auto
  have "parse_value (max n0 n1) (json_print x @ ?s) = Inr (x, ?s)"
    using p0 by (rule parse_value_Inr_mono) simp
  moreover have "parse_elems (max n0 n1) (acc @ [x]) (json_print y @ print_elems ys @ r) =
                 Inr (JArr ((acc @ [x]) @ y # ys), r)"
    using p1 by (rule parse_elems_Inr_mono) simp
  ultimately have "parse_elems (Suc (max n0 n1)) acc (json_print x @ ?s) = Inr (JArr (acc @ x # y # ys), r)"
    by (simp add: is_ws_def)
  then show ?case by blast
qed

lemma parse_members_step:
  assumes "parse_value n (json_print v @ t # s) = Inr (v, t # s)" and "k \<notin> fst ` set acc"
    and "\<not> is_ws t"
  shows "parse_members (Suc n) acc (quote_str k @ CHR '':'' # json_print v @ t # s) =
           (if t = CHR '','' then parse_members n (acc @ [(k, v)]) s
            else if t = CHR ''}'' then Inr (JObj (acc @ [(k, v)]), s) else Inl Syntax)"
  using assms by (simp add: quote_str_def parse_string_quoted is_ws_def update_fresh_append)

lemma parse_members_print:
  assumes "\<forall>p\<in>set ((k, v) # ps). \<forall>r. json_delim r \<longrightarrow>
             (\<exists>n. parse_value n (json_print (snd p) @ r) = Inr (snd p, r))"
    and "distinct (map fst (acc @ (k, v) # ps))" and "json_delim r"
  shows "\<exists>n. parse_members n acc (quote_str k @ CHR '':'' # json_print v @ print_members ps @ r) =
             Inr (JObj (acc @ (k, v) # ps), r)"
  using assms
proof (induction ps arbitrary: k v acc)
  case Nil
  then have "\<forall>r. json_delim r \<longrightarrow> (\<exists>n. parse_value n (json_print v @ r) = Inr (v, r))" by simp
  then obtain n where "parse_value n (json_print v @ CHR ''}'' # r) = Inr (v, CHR ''}'' # r)"
    using json_delim_simps(4) [of r] by blast
  moreover have "k \<notin> fst ` set acc" using Nil.prems(2) by simp
  ultimately have "parse_members (Suc n) acc (quote_str k @ CHR '':'' # json_print v @ print_members [] @ r) =
                   Inr (JObj (acc @ [(k, v)]), r)"
    using parse_members_step [of n v "CHR ''}''" r k acc] by (simp add: is_ws_def del: parse_members.simps)
  then show ?case by (auto simp del: parse_members.simps)
next
  case (Cons q qs)
  obtain k1 v1 where q: "q = (k1, v1)" by fastforce
  let ?s = "quote_str k1 @ CHR '':'' # json_print v1 @ print_members qs @ r"
  have "\<forall>r. json_delim r \<longrightarrow> (\<exists>n. parse_value n (json_print v @ r) = Inr (v, r))"
    using Cons.prems(1) by simp
  then obtain n0 where p0: "parse_value n0 (json_print v @ CHR '','' # ?s) = Inr (v, CHR '','' # ?s)"
    using json_delim_simps(2) by blast
  obtain n1 where p1: "parse_members n1 (acc @ [(k, v)]) ?s = Inr (JObj ((acc @ [(k, v)]) @ (k1, v1) # qs), r)"
    using Cons.IH [of k1 v1 "acc @ [(k, v)]"] Cons.prems q by auto
  have "parse_value (max n0 n1) (json_print v @ CHR '','' # ?s) = Inr (v, CHR '','' # ?s)"
    using p0 by (rule parse_value_Inr_mono) simp
  moreover have "parse_members (max n0 n1) (acc @ [(k, v)]) ?s = Inr (JObj ((acc @ [(k, v)]) @ (k1, v1) # qs), r)"
    using p1 by (rule parse_members_Inr_mono) simp
  moreover have "k \<notin> fst ` set acc" using Cons.prems(2) by simp
  ultimately have "parse_members (Suc (max n0 n1)) acc (quote_str k @ CHR '':'' # json_print v @ print_members (q # qs) @ r) =
                   Inr (JObj (acc @ (k, v) # q # qs), r)"
    using parse_members_step [of "max n0 n1" v "CHR '',''" ?s k acc] by (simp add: q is_ws_def)
  then show ?case by blast
qed

lemma int_str_head: "\<exists>c cs. int_str i @ r = c # cs \<and> (c = CHR ''-'' \<or> is_digit c)"
proof (cases "i < 0")
  case True
  then show ?thesis by (simp add: int_str_def)
next
  case False
  obtain c cs where m: "nat_str (nat i) = c # cs" using nat_str_Cons by blast
  have "is_digit c" using nat_str_is_digit [of "nat i"] m by simp
  with False m show ?thesis by (simp add: int_str_def)
qed

lemma parse_scalar_print:
  assumes "json_delim r" and "json_wf j" and "\<forall>xs. j \<noteq> JArr xs" and "\<forall>ps. j \<noteq> JObj ps"
  shows "parse_value 1 (json_print j @ r) = Inr (j, r)"
proof (cases j)
  case (JNum i)
  obtain c cs where h: "int_str i @ r = c # cs" and c: "c = CHR ''-'' \<or> is_digit c"
    using int_str_head by blast
  have ws: "\<not> is_ws c" "c \<noteq> CHR ''{''" "c \<noteq> CHR ''[''" "c \<noteq> CHR 0x22"
    using c by (auto simp: is_ws_def is_digit_def)
  have "parse_value 1 (int_str i @ r) = parse_number (int_str i @ r)"
    using h c ws by simp
  also have "\<dots> = Inr (JNum i, r)" using assms(1,2) JNum by (intro parse_number_int_str) simp_all
  finally show ?thesis using JNum by simp
next
  case (JBool b)
  then show ?thesis by (cases b) (simp_all add: is_ws_def is_digit_def)
qed (use assms in \<open>simp_all add: quote_str_def parse_string_quoted is_ws_def is_digit_def\<close>)

lemma parse_arr_print:
  assumes "\<And>y r. y \<in> set xs \<Longrightarrow> json_delim r \<Longrightarrow> \<exists>n. parse_value n (json_print y @ r) = Inr (y, r)"
    and "json_delim r"
  shows "\<exists>n. parse_value n (json_print (JArr xs) @ r) = Inr (JArr xs, r)"
proof (cases xs)
  case Nil
  then show ?thesis by (intro exI [of _ 1]) (simp add: is_ws_def)
next
  case (Cons x xs')
  obtain n where p: "parse_elems n [] (json_print x @ print_elems xs' @ r) = Inr (JArr ([] @ x # xs'), r)"
    using parse_elems_print [of x xs' r "[]"] assms Cons by blast
  obtain d ds where h: "json_print x @ print_elems xs' @ r = d # ds" "\<not> is_ws d" "d \<noteq> CHR '']''"
    using json_print_head [of x "print_elems xs' @ r"] by auto
  have "parse_value (Suc n) (json_print (JArr xs) @ r) = Inr (JArr xs, r)"
    using p h Cons by (simp add: is_ws_def)
  then show ?thesis by blast
qed

lemma parse_obj_print:
  assumes "\<forall>p\<in>set ps. \<forall>r. json_delim r \<longrightarrow> (\<exists>n. parse_value n (json_print (snd p) @ r) = Inr (snd p, r))"
    and "distinct (map fst ps)" and "json_delim r"
  shows "\<exists>n. parse_value n (json_print (JObj ps) @ r) = Inr (JObj ps, r)"
proof (cases ps)
  case Nil
  then show ?thesis by (intro exI [of _ 1]) (simp add: is_ws_def)
next
  case (Cons q ps')
  obtain k v where q: "q = (k, v)" by fastforce
  obtain n where p: "parse_members n [] (quote_str k @ CHR '':'' # json_print v @ print_members ps' @ r) =
                       Inr (JObj ([] @ (k, v) # ps'), r)"
    using parse_members_print [of k v ps' "[]" r] assms Cons q by auto
  have "parse_value (Suc n) (json_print (JObj ps) @ r) = Inr (JObj ps, r)"
    using p Cons q by (simp add: quote_str_def is_ws_def)
  then show ?thesis by blast
qed

lemma parse_value_print:
  "json_wf j \<Longrightarrow> json_delim r \<Longrightarrow> \<exists>n. parse_value n (json_print j @ r) = Inr (j, r)"
proof (induction j arbitrary: r)
  case (JArr xs)
  show ?case
  proof (rule parse_arr_print [OF _ JArr.prems(2)])
    show "\<exists>n. parse_value n (json_print y @ r') = Inr (y, r')" if "y \<in> set xs" "json_delim r'" for y r'
      using JArr.IH JArr.prems(1) that by (auto simp: elems_wf_iff)
  qed
next
  case (JObj ps)
  have "\<forall>p\<in>set ps. \<forall>r. json_delim r \<longrightarrow> (\<exists>n. parse_value n (json_print (snd p) @ r) = Inr (snd p, r))"
    using JObj.IH JObj.prems(1) by (fastforce simp: members_wf_iff)
  with JObj.prems show ?case by (intro parse_obj_print) simp_all
qed (intro exI [of _ 1] parse_scalar_print; simp)+

subsection \<open>Well-formedness of parsed values and the round trip\<close>

lemma members_wf_update:
  "members_wf acc \<Longrightarrow> json_wf v \<Longrightarrow> members_wf (AList.update k v acc)"
  by (induction acc) auto

lemma elems_wf_append: "elems_wf (xs @ ys) \<longleftrightarrow> elems_wf xs \<and> elems_wf ys"
  by (induction xs) auto

lemma decimal_value_nonneg: "decimal_value m e = Some v \<Longrightarrow> 0 \<le> v"
  by (auto simp: decimal_value_def split: if_splits)

lemma number_end_wf: "number_end n neg rest = Inr (v, r) \<Longrightarrow> json_wf v"
  by (auto simp: number_end_def split: sum.splits prod.splits option.splits if_splits
      dest!: decimal_value_nonneg)

lemma parse_number_wf: "parse_number s = Inr (v, r) \<Longrightarrow> json_wf v"
  by (auto simp: parse_number_def parse_unsigned_def split: list.splits if_splits prod.splits
      dest: number_end_wf)

lemma parse_value_shape:
  "parse_value (Suc n) s = Inr (v, r) \<Longrightarrow>
   (\<exists>ds. parse_members n [] ds = Inr (v, r)) \<or> (\<exists>ds. parse_elems n [] ds = Inr (v, r)) \<or> json_wf v"
  by (auto split: list.splits if_splits sum.splits prod.splits dest: parse_number_wf)

lemma parse_elems_shape:
  "parse_elems (Suc n) acc s = Inr (v, r) \<Longrightarrow>
   \<exists>x r1. parse_value n s = Inr (x, r1) \<and>
     ((\<exists>cs. parse_elems n (acc @ [x]) cs = Inr (v, r)) \<or> v = JArr (acc @ [x]))"
  by (auto split: list.splits if_splits sum.splits prod.splits)

lemma parse_members_shape:
  "parse_members (Suc n) acc s = Inr (v, r) \<Longrightarrow>
   \<exists>k x ds r1. parse_value n ds = Inr (x, r1) \<and>
     ((\<exists>cs. parse_members n (AList.update k x acc) cs = Inr (v, r)) \<or> v = JObj (AList.update k x acc))"
  by (auto split: list.splits if_splits sum.splits prod.splits)

lemma parse_wf:
  "(\<forall>s v r. parse_value n s = Inr (v, r) \<longrightarrow> json_wf v) \<and>
   (\<forall>acc s v r. parse_elems n acc s = Inr (v, r) \<longrightarrow> elems_wf acc \<longrightarrow> json_wf v) \<and>
   (\<forall>acc s v r. parse_members n acc s = Inr (v, r) \<longrightarrow> distinct (map fst acc) \<longrightarrow>
      members_wf acc \<longrightarrow> json_wf v)"
proof (induction n)
  case 0
  show ?case by simp
next
  case (Suc n)
  then have V: "\<And>s v r. parse_value n s = Inr (v, r) \<Longrightarrow> json_wf v"
    and E: "\<And>acc s v r. parse_elems n acc s = Inr (v, r) \<Longrightarrow> elems_wf acc \<Longrightarrow> json_wf v"
    and M: "\<And>acc s v r. parse_members n acc s = Inr (v, r) \<Longrightarrow> distinct (map fst acc) \<Longrightarrow>
              members_wf acc \<Longrightarrow> json_wf v"
    by blast+
  show ?case
  proof (intro conjI allI impI)
    fix s v r
    assume "parse_value (Suc n) s = Inr (v, r)"
    from parse_value_shape [OF this] show "json_wf v"
      using E [of "[]"] M [of "[]"] by auto
  next
    fix acc s v r
    assume p: "parse_elems (Suc n) acc s = Inr (v, r)" and wf: "elems_wf acc"
    from parse_elems_shape [OF p] obtain x r1 where x: "parse_value n s = Inr (x, r1)"
      and rest: "(\<exists>cs. parse_elems n (acc @ [x]) cs = Inr (v, r)) \<or> v = JArr (acc @ [x])"
      by blast
    have "elems_wf (acc @ [x])" using wf V [OF x] by (simp add: elems_wf_append)
    with rest show "json_wf v" using E by auto
  next
    fix acc s v r
    assume p: "parse_members (Suc n) acc s = Inr (v, r)"
      and d: "distinct (map fst acc)" and wf: "members_wf acc"
    from parse_members_shape [OF p] obtain k x ds r1 where x: "parse_value n ds = Inr (x, r1)"
      and rest: "(\<exists>cs. parse_members n (AList.update k x acc) cs = Inr (v, r)) \<or>
                 v = JObj (AList.update k x acc)"
      by blast
    have "distinct (map fst (AList.update k x acc))" using d by (rule update_distinct)
    moreover have "members_wf (AList.update k x acc)" using wf V [OF x] by (rule members_wf_update)
    ultimately show "json_wf v" using rest M by auto
  qed
qed

lemma json_parse_wf:
  assumes "json_parse s = Some v"
  shows "json_wf v"
proof -
  obtain r where "parse_value (Suc (2 * length s)) s = Inr (v, r)"
    using assms by (auto simp: json_parse_def simp del: parse_value.simps
        split: sum.splits prod.splits if_splits)
  then show ?thesis using parse_wf by blast
qed

lemma json_parse_print:
  assumes "json_wf j"
  shows "json_parse (json_print j) = Some j"
proof -
  obtain n where "parse_value n (json_print j @ []) = Inr (j, [])"
    using parse_value_print [OF assms, of "[]"] by auto
  then have "\<exists>n r. parse_value n (json_print j) = Inr (j, r) \<and> skip_ws r = []"
    by (intro exI [of _ n] exI [of _ "[]"]) simp
  then show ?thesis by (simp only: json_parse_iff)
qed

end
