(* ===== verification/Field_Mapper.thy ===== *)
theory Field_Mapper
  imports Host Json_Roundtrip
begin

text \<open>
  The Field Mapper: lines 435--449 of \<open>execute\<close> in
  \<open>src/nodes/GotoHuman/GotoHuman.node.ts\<close>. The resource-mapper parameter \<open>fields\<close>
  holds the user's values (\<open>value\<close>) and the template's field schema (\<open>schema\<close>); every
  schema field typed \<open>array\<close> or \<open>object\<close> whose value is a string is replaced by the
  parsed JSON, in a copy of the values. A string that does not parse throws, naming the
  field; everything else passes through.
\<close>

datatype field_type =
    FT_string | FT_string_alphanumeric | FT_number | FT_dateTime | FT_time | FT_boolean
  | FT_array | FT_object | FT_options | FT_url | FT_jwt | FT_form_fields

record field_spec =
  fs_id :: string
  fs_type :: "field_type option"

record mapper_value =
  rm_value :: "json jsobj option"
  rm_schema :: "field_spec list option"

definition is_json_type :: "field_type option \<Rightarrow> bool" where
  "is_json_type t \<longleftrightarrow> t = Some FT_array \<or> t = Some FT_object"

text \<open>The loop over \<open>schemaList\<close>, reading \<open>fieldsParam.value\<close> and writing \<open>parsedFields\<close>.\<close>

fun map_schema :: "json jsobj \<Rightarrow> field_spec list \<Rightarrow> json jsobj \<Rightarrow> node_error + json jsobj" where
  "map_schema vals [] parsed = Inr parsed"
| "map_schema vals (f # fs) parsed =
     (case (is_json_type (fs_type f), map_of vals (fs_id f)) of
        (True, Some (JStr s)) \<Rightarrow>
          (case json_parse s of
             None \<Rightarrow> Inl (FieldParseError (fs_id f) s)
           | Some j \<Rightarrow> map_schema vals fs (js_assign parsed (fs_id f) j))
      | _ \<Rightarrow> map_schema vals fs parsed)"

definition parse_fields :: "mapper_value \<Rightarrow> node_error + json jsobj" where
  "parse_fields fp =
     (let parsed = (case rm_value fp of Some v \<Rightarrow> v | None \<Rightarrow> []) in
      case (rm_value fp, rm_schema fp) of
        (Some v, Some schema) \<Rightarrow> map_schema v schema parsed
      | _ \<Rightarrow> Inr parsed)"

subsection \<open>Reference behaviour\<close>

text \<open>
  A field is bad when it is typed array or object and its value is a string that is not
  JSON. The expected value of a key: the parsed JSON where some schema field of that id
  is typed array or object and the value is a string, the value itself otherwise.
\<close>

definition bad_field :: "json jsobj \<Rightarrow> field_spec \<Rightarrow> bool" where
  "bad_field vals f \<longleftrightarrow>
     is_json_type (fs_type f) \<and>
     (case map_of vals (fs_id f) of Some (JStr s) \<Rightarrow> json_parse s = None | _ \<Rightarrow> False)"

definition json_ids :: "field_spec list \<Rightarrow> string set" where
  "json_ids fs = set (map fs_id (filter (\<lambda>f. is_json_type (fs_type f)) fs))"

definition expected_value ::
  "json jsobj \<Rightarrow> field_spec list \<Rightarrow> json jsobj \<Rightarrow> string \<Rightarrow> json option" where
  "expected_value vals fs p k =
     (if k \<in> json_ids fs then
        (case map_of vals k of Some (JStr s) \<Rightarrow> json_parse s | _ \<Rightarrow> map_of p k)
      else map_of p k)"

text \<open>Mapper values as the editor produces them, used by the witnesses below.\<close>

definition example_fields :: mapper_value where
  "example_fields =
     \<lparr>rm_value = Some [(''tags'', JStr ''[1,2]''), (''title'', JStr ''Hi''), (''n'', JNum 3)],
      rm_schema = Some [\<lparr>fs_id = ''tags'', fs_type = Some FT_array\<rparr>,
                        \<lparr>fs_id = ''title'', fs_type = Some FT_string\<rparr>]\<rparr>"

definition bad_fields :: mapper_value where
  "bad_fields =
     \<lparr>rm_value = Some [(''tags'', JStr ''[1,''), (''obj'', JStr ''{'')],
      rm_schema = Some [\<lparr>fs_id = ''tags'', fs_type = Some FT_array\<rparr>,
                        \<lparr>fs_id = ''obj'', fs_type = Some FT_object\<rparr>]\<rparr>"

definition string_literal_fields :: mapper_value where
  "string_literal_fields =
     \<lparr>rm_value = Some [(''tags'', JStr [CHR 0x22, CHR ''x'', CHR 0x22])],
      rm_schema = Some [\<lparr>fs_id = ''tags'', fs_type = Some FT_array\<rparr>]\<rparr>"

subsection \<open>The loop against the reference\<close>

text \<open>
  The first bad field of the schema, in schema order, is the one the loop throws on; the
  fields before it have been converted, but the copy is dropped with the exception.
\<close>

lemma map_schema_bad:
  assumes "find (bad_field vals) fs = Some f" and "map_of vals (fs_id f) = Some (JStr s)"
  shows "map_schema vals fs p = Inl (FieldParseError (fs_id f) s)"
  using assms
proof (induction fs arbitrary: p)
  case Nil
  then show ?case by simp
next
  case (Cons g gs)
  show ?case
  proof (cases "bad_field vals g")
    case True
    with Cons.prems have "g = f" by simp
    with True Cons.prems(2) show ?thesis by (simp add: bad_field_def)
  next
    case False
    with Cons.prems have gs: "find (bad_field vals) gs = Some f" by simp
    show ?thesis
      using False Cons.IH[OF gs Cons.prems(2)]
      by (auto simp: bad_field_def split: option.splits json.splits bool.splits)
  qed
qed

lemma expected_value_Cons_parse:
  assumes "is_json_type (fs_type g)" and "map_of vals (fs_id g) = Some (JStr s)" and "json_parse s = Some j"
  shows "expected_value vals (g # gs) p k = expected_value vals gs (AList.update (fs_id g) j p) k"
  using assms by (auto simp: expected_value_def json_ids_def update_conv' split: option.splits json.splits)

lemma expected_value_Cons_skip:
  assumes "\<not> (is_json_type (fs_type g) \<and> (\<exists>s. map_of vals (fs_id g) = Some (JStr s)))"
  shows "expected_value vals (g # gs) p k = expected_value vals gs p k"
  using assms by (auto simp: expected_value_def json_ids_def split: option.splits json.splits)

lemma map_schema_good:
  assumes "find (bad_field vals) fs = None" and "dom (map_of vals) \<subseteq> fst ` set p"
  shows "\<exists>r. map_schema vals fs p = Inr r \<and> map fst r = map fst p \<and>
             (\<forall>k. map_of r k = expected_value vals fs p k)"
  using assms
proof (induction fs arbitrary: p)
  case Nil
  then show ?case by (simp add: expected_value_def json_ids_def)
next
  case (Cons g gs)
  from Cons.prems(1) have ng: "\<not> bad_field vals g" and gs: "find (bad_field vals) gs = None"
    by (auto split: if_splits)
  show ?case
  proof (cases "is_json_type (fs_type g) \<and> (\<exists>s. map_of vals (fs_id g) = Some (JStr s))")
    case True
    then obtain s where json: "is_json_type (fs_type g)" and sv: "map_of vals (fs_id g) = Some (JStr s)"
      by blast
    with ng obtain j where j: "json_parse s = Some j"
      by (auto simp: bad_field_def)
    from sv Cons.prems(2) have kp: "fs_id g \<in> fst ` set p" by blast
    let ?p' = "AList.update (fs_id g) j p"
    have "dom (map_of vals) \<subseteq> fst ` set ?p'"
      using Cons.prems(2) by (auto simp: dom_update)
    with Cons.IH [OF gs] obtain r where r: "map_schema vals gs ?p' = Inr r" "map fst r = map fst ?p'"
      "\<forall>k. map_of r k = expected_value vals gs ?p' k" by blast
    have "map_schema vals (g # gs) p = map_schema vals gs ?p'"
      using json sv j kp by (simp add: js_assign_present)
    with r kp show ?thesis
      by (simp add: update_present_keys expected_value_Cons_parse [OF json sv j])
  next
    case False
    then have "map_schema vals (g # gs) p = map_schema vals gs p"
      by (auto split: option.splits json.splits bool.splits)
    with Cons.IH [OF gs Cons.prems(2)] show ?thesis
      by (simp add: expected_value_Cons_skip [OF False])
  qed
qed

text \<open>The loop fails only on a JSON-typed field of the schema holding a text that is not JSON.\<close>

lemma map_schema_Inl:
  "map_schema vals fs p = Inl e \<Longrightarrow>
   \<exists>f s. f \<in> set fs \<and> is_json_type (fs_type f) \<and> map_of vals (fs_id f) = Some (JStr s) \<and>
         e = FieldParseError (fs_id f) s \<and> json_parse s = None"
proof (induction fs arbitrary: p)
  case Nil
  then show ?case by simp
next
  case (Cons g gs)
  show ?case
  proof (cases "is_json_type (fs_type g) \<and> (\<exists>s. map_of vals (fs_id g) = Some (JStr s))")
    case True
    then obtain s where json: "is_json_type (fs_type g)" and sv: "map_of vals (fs_id g) = Some (JStr s)"
      by blast
    show ?thesis
    proof (cases "json_parse s")
      case None
      with Cons.prems json sv show ?thesis by auto
    next
      case (Some j)
      with Cons.prems json sv have "map_schema vals gs (js_assign p (fs_id g) j) = Inl e" by simp
      from Cons.IH [OF this] show ?thesis by auto
    qed
  next
    case False
    with Cons.prems have "map_schema vals gs p = Inl e"
      by (auto split: option.splits json.splits bool.splits)
    from Cons.IH [OF this] show ?thesis by auto
  qed
qed

text \<open>
  Claim C8. When the node has values and a schema and no array- or object-typed field
  holds a string that is not JSON, the mapper succeeds; the result has the keys of the
  values, in their order, and every key holds its parsed JSON where a schema field of
  that id is typed array or object and the value is a string, and the value unchanged
  otherwise.
\<close>

theorem parse_fields_success:
  assumes "rm_value fp = Some v" and "rm_schema fp = Some sch"
    and "find (bad_field v) sch = None"
  shows "\<exists>r. parse_fields fp = Inr r \<and> map fst r = map fst v \<and>
             (\<forall>k. map_of r k = expected_value v sch v k)"
proof -
  have "dom (map_of v) \<subseteq> fst ` set v" by (simp add: dom_map_of_conv_image_fst)
  with assms(3) have "\<exists>r. map_schema v sch v = Inr r \<and> map fst r = map fst v \<and>
             (\<forall>k. map_of r k = expected_value v sch v k)"
    by (rule map_schema_good)
  with assms(1,2) show ?thesis by (simp add: parse_fields_def)
qed

theorem parse_fields_success_witness:
  "\<exists>r. parse_fields example_fields = Inr r \<and> map fst r = [''tags'', ''title'', ''n''] \<and>
     map_of r ''tags'' = Some (JArr [JNum 1, JNum 2]) \<and> map_of r ''title'' = Some (JStr ''Hi'')"
proof -
  let ?v = "[(''tags'', JStr ''[1,2]''), (''title'', JStr ''Hi''), (''n'', JNum 3)]"
  let ?sch = "[\<lparr>fs_id = ''tags'', fs_type = Some FT_array\<rparr>,
               \<lparr>fs_id = ''title'', fs_type = Some FT_string\<rparr>]"
  have good: "find (bad_field ?v) ?sch = None" by code_simp
  have e1: "expected_value ?v ?sch ?v ''tags'' = Some (JArr [JNum 1, JNum 2])" by code_simp
  have e2: "expected_value ?v ?sch ?v ''title'' = Some (JStr ''Hi'')" by code_simp
  from parse_fields_success [of example_fields ?v ?sch] good
  obtain r where "parse_fields example_fields = Inr r" "map fst r = map fst ?v"
    "\<forall>k. map_of r k = expected_value ?v ?sch ?v k"
    by (auto simp: example_fields_def)
  with e1 e2 show ?thesis by auto
qed

text \<open>
  Claim C9. The mapper fails with a \<open>FieldParseError\<close> naming the first schema field (in
  schema order) that is typed array or object and holds a string the model does not parse,
  and the text of that string, when that text is malformed JSON (so that \<open>JSON.parse\<close>
  throws on it too).
\<close>

theorem parse_fields_error:
  assumes "rm_value fp = Some v" and "rm_schema fp = Some sch"
    and "find (bad_field v) sch = Some f" and "map_of v (fs_id f) = Some (JStr s)"
    and "json_rejects s"
  shows "parse_fields fp = Inl (FieldParseError (fs_id f) s)"
  using assms map_schema_bad [OF assms(3,4)] by (simp add: parse_fields_def)

theorem parse_fields_error_witness:
  "parse_fields bad_fields = Inl (FieldParseError ''tags'' ''[1,'')"
proof -
  let ?v = "[(''tags'', JStr ''[1,''), (''obj'', JStr ''{'')]"
  let ?sch = "[\<lparr>fs_id = ''tags'', fs_type = Some FT_array\<rparr>,
               \<lparr>fs_id = ''obj'', fs_type = Some FT_object\<rparr>]"
  have bad: "find (bad_field ?v) ?sch = Some \<lparr>fs_id = ''tags'', fs_type = Some FT_array\<rparr>"
    by code_simp
  have rej: "json_rejects ''[1,''" by code_simp
  show ?thesis
    using parse_fields_error [of bad_fields ?v ?sch, OF _ _ bad _ rej] by (simp add: bad_fields_def)
qed

text \<open>
  Claim C10. With no values (no template selected, \<open>value\<close> is \<open>null\<close>) the mapper
  returns the empty object and never fails; without a schema it returns the values as they
  are.
\<close>

theorem parse_fields_no_value:
  "parse_fields (mapper_value.make None sch) = Inr [] \<and>
   parse_fields (mapper_value.make (Some v) None) = Inr v"
  by (simp add: parse_fields_def mapper_value.defs)

text \<open>
  Claim C20. The mapper does not check that an array- or object-typed field becomes an
  array or an object: a string value that is a JSON string literal (or number, boolean,
  \<open>null\<close>) is parsed to that scalar and sent as such, so such a field can still be a
  string at send time.
\<close>

theorem parse_fields_scalar_json:
  assumes "rm_value fp = Some v" and "rm_schema fp = Some sch"
    and "find (bad_field v) sch = None" and "f \<in> set sch" and "is_json_type (fs_type f)"
    and "map_of v (fs_id f) = Some (JStr s)" and "json_parse s = Some (JStr t)"
  shows "\<exists>r. parse_fields fp = Inr r \<and> map_of r (fs_id f) = Some (JStr t)"
proof -
  have "dom (map_of v) \<subseteq> fst ` set v" by (simp add: dom_map_of_conv_image_fst)
  with assms(3) obtain r where r: "map_schema v sch v = Inr r"
    "\<forall>k. map_of r k = expected_value v sch v k"
    using map_schema_good by blast
  have "fs_id f \<in> json_ids sch" using assms(4,5) by (auto simp: json_ids_def)
  with r(2) assms(6,7) have "map_of r (fs_id f) = Some (JStr t)"
    by (simp add: expected_value_def)
  with r(1) assms(1,2) show ?thesis by (simp add: parse_fields_def)
qed

theorem parse_fields_scalar_json_witness:
  "\<exists>r. parse_fields string_literal_fields = Inr r \<and> map_of r ''tags'' = Some (JStr ''x'')"
proof -
  let ?v = "[(''tags'', JStr [CHR 0x22, CHR ''x'', CHR 0x22])]"
  let ?f = "\<lparr>fs_id = ''tags'', fs_type = Some FT_array\<rparr>"
  have good: "find (bad_field ?v) [?f] = None" by code_simp
  have p: "json_parse [CHR 0x22, CHR ''x'', CHR 0x22] = Some (JStr ''x'')" by code_simp
  show ?thesis
    using parse_fields_scalar_json [of string_literal_fields ?v "[?f]" ?f, OF _ _ good _ _ _ p]
    by (simp add: string_literal_fields_def is_json_type_def)
qed

text \<open>
  Claim C23. Every failure of the mapper is a \<open>FieldParseError\<close> for a field of the
  schema typed array or object whose value is a text that is not JSON at all: the JSON
  parser, given any amount of fuel, does not read a value from it followed by whitespace
  only. The fuel bound of the \<open>jsonParse\<close> model never rejects a field.
\<close>

theorem parse_fields_error_is_syntax:
  assumes "parse_fields fp = Inl e"
  shows "\<exists>v sch f s. rm_value fp = Some v \<and> rm_schema fp = Some sch \<and> f \<in> set sch \<and>
           is_json_type (fs_type f) \<and> map_of v (fs_id f) = Some (JStr s) \<and>
           e = FieldParseError (fs_id f) s \<and>
           \<not> (\<exists>n j r. parse_value n s = Inr (j, r) \<and> skip_ws r = [])"
proof -
  obtain v sch where fp: "rm_value fp = Some v" "rm_schema fp = Some sch"
    and m: "map_schema v sch v = Inl e"
    using assms by (auto simp: parse_fields_def split: option.splits)
  from map_schema_Inl [OF m] fp show ?thesis by (auto simp: json_parse_None)
qed

theorem parse_fields_error_is_syntax_witness:
  "\<not> (\<exists>n j r. parse_value n ''[1,'' = Inr (j, r) \<and> skip_ws r = [])"
proof -
  have "parse_fields bad_fields = Inl (FieldParseError ''tags'' ''[1,'')" by code_simp
  from parse_fields_error_is_syntax [OF this] show ?thesis by auto
qed

end
