(* ===== verification/Request_Builder.thy ===== *)
theory Request_Builder
  imports Field_Mapper
begin

text \<open>
  The Request Builder: lines 401--470 of \<open>execute\<close> in
  \<open>src/nodes/GotoHuman/GotoHuman.node.ts\<close>, for one input item. The node parameters of
  the item are a record; metadata is resolved from one of three modes, assignees from two,
  the update-review id from the additional fields, and the body is assembled in the order
  the code assigns its properties. The request the node hands to
  \<open>requestWithAuthentication\<close> is the result.

  The host's fixed collections give every entry all of its fields (with their defaults),
  so \<open>metaKeyValues.metaArray\<close> is a list of string pairs when it is an array and
  \<open>assignTo.values\<close> a list of e-mail strings when it is an array; \<open>None\<close> stands for
  a collection without that array.
\<close>

record item_params =
  p_resource :: string
  p_operation :: string
  p_template :: json
  p_fields :: mapper_value
  p_metaSelect :: string
  p_metaJson :: string
  p_metaKeyValues :: "(string \<times> string) list option"
  p_assignToSelect :: string
  p_assignTo :: "string list option"
  p_additional :: json
  p_resumeUrl :: string
  p_nodeId :: string

subsection \<open>Metadata, assignees, update id\<close>

text \<open>\<open>meta = {}; for (pair of metaArray) meta[pair.key] = pair.value\<close>.\<close>

definition meta_from_pairs :: "(string \<times> string) list \<Rightarrow> json" where
  "meta_from_pairs ps = JObj (fold (\<lambda>(k, v) ob. js_assign ob k (JStr v)) ps [])"

definition resolve_meta :: "item_params \<Rightarrow> node_error + json option" where
  "resolve_meta p =
     (if p_metaSelect p = ''json'' then
        (if p_metaJson p \<noteq> [] then
           (case json_parse (p_metaJson p) of
              None \<Rightarrow> Inl MetaParseError
            | Some m \<Rightarrow> Inr (Some m))
         else Inr None)
      else if p_metaSelect p = ''keyValue'' then
        (case p_metaKeyValues p of
           Some ps \<Rightarrow> Inr (Some (meta_from_pairs ps))
         | None \<Rightarrow> Inr None)
      else Inr None)"

definition resolve_assignees :: "item_params \<Rightarrow> string list option" where
  "resolve_assignees p =
     (if p_assignToSelect p = ''selectByEmail'' then p_assignTo p else None)"

definition update_review_id :: "item_params \<Rightarrow> json option" where
  "update_review_id p =
     (let upd = js_get (p_additional p) ''updateForReviewId'' in
      if js_truthy (p_additional p) \<and> js_truthy_opt upd then upd else None)"

definition webhook_url :: "string \<Rightarrow> string \<Rightarrow> string" where
  "webhook_url resume_url node_id = resume_url @ ''/'' @ node_id"

subsection \<open>The body and the request\<close>

text \<open>
  The body object, with \<open>undefined\<close> values as \<open>None\<close>; \<open>JSON.stringify\<close> drops those
  properties when the request is sent (\<open>serialize_body\<close>).
\<close>

definition build_body ::
  "json option \<Rightarrow> json jsobj \<Rightarrow> json option \<Rightarrow> string list option \<Rightarrow> json option \<Rightarrow> string
   \<Rightarrow> json option jsobj" where
  "build_body form_id mapped meta assign_to upd url =
     [(''formId'', form_id), (''fields'', Some (JObj mapped)),
      (''origin'', Some (JStr ''n8n'')), (''originV'', Some (JNum node_version))]
     @ (case meta of Some m \<Rightarrow> [(''meta'', Some m)] | None \<Rightarrow> [])
     @ (case assign_to of Some es \<Rightarrow> [(''assignTo'', Some (JArr (map JStr es)))] | None \<Rightarrow> [])
     @ (case upd of Some u \<Rightarrow> [(''updateForReviewId'', Some u)] | None \<Rightarrow> [])
     @ [(''webhookUrl'', Some (JStr url))]"

definition serialize_body :: "json option jsobj \<Rightarrow> json" where
  "serialize_body b = JObj (List.map_filter (\<lambda>(k, v). map_option (\<lambda>j. (k, j)) v) b)"

definition review_request :: "json \<Rightarrow> http_request" where
  "review_request body =
     \<lparr>rq_method = POST, rq_uri = base_url @ ''/requestReview'', rq_qs = [],
      rq_body = Some body, rq_headers = []\<rparr>"

text \<open>
  The item's request, with the code's order of evaluation: metadata (may throw), assignees,
  additional fields, the field mapping (may throw), then \<open>reviewTemplateID.value\<close> (throws
  on \<open>null\<close>) and the callback URL.
\<close>

definition build_request :: "item_params \<Rightarrow> node_error + http_request" where
  "build_request p =
     (case resolve_meta p of
        Inl e \<Rightarrow> Inl e
      | Inr meta \<Rightarrow>
          (let assign_to = resolve_assignees p; upd = update_review_id p in
           case parse_fields (p_fields p) of
             Inl e \<Rightarrow> Inl e
           | Inr mapped \<Rightarrow>
               (case read_prop (p_template p) ''value'' of
                  Inl e \<Rightarrow> Inl e
                | Inr form_id \<Rightarrow>
                    Inr (review_request (serialize_body
                      (build_body form_id mapped meta assign_to upd
                        (webhook_url (p_resumeUrl p) (p_nodeId p))))))))"

text \<open>
  The type of the body the code sends: its keys in the order the code assigns them (each
  at most once), \<open>fields\<close> an object, \<open>origin\<close> the string \<open>n8n\<close>, \<open>originV\<close> the
  version, \<open>webhookUrl\<close> a string and \<open>assignTo\<close>, when present, an array of strings.
\<close>

definition body_keys :: "string list" where
  "body_keys = [''formId'', ''fields'', ''origin'', ''originV'', ''meta'', ''assignTo'',
                ''updateForReviewId'', ''webhookUrl'']"

definition is_str :: "json \<Rightarrow> bool" where
  "is_str j = (case j of JStr _ \<Rightarrow> True | _ \<Rightarrow> False)"

definition body_typed :: "json \<Rightarrow> bool" where
  "body_typed b =
     (case b of
        JObj ps \<Rightarrow>
          subseq (map fst ps) body_keys \<and>
          (case map_of ps ''fields'' of Some (JObj _) \<Rightarrow> True | _ \<Rightarrow> False) \<and>
          map_of ps ''origin'' = Some (JStr ''n8n'') \<and> map_of ps ''originV'' = Some (JNum 1) \<and>
          (case map_of ps ''webhookUrl'' of Some j \<Rightarrow> is_str j | None \<Rightarrow> False) \<and>
          (case map_of ps ''assignTo'' of None \<Rightarrow> True | Some (JArr xs) \<Rightarrow> list_all is_str xs | _ \<Rightarrow> False)
      | _ \<Rightarrow> False)"

text \<open>An item as the node's editor produces it, used by the witnesses below.\<close>

definition example_item :: item_params where
  "example_item =
     \<lparr>p_resource = ''reviewRequest'', p_operation = ''sendAndWait'',
      p_template = JObj [(''mode'', JStr ''list''), (''value'', JStr ''tmpl1'')],
      p_fields = \<lparr>rm_value = Some [(''tags'', JStr ''[1,2]''), (''title'', JStr ''Hi'')],
                  rm_schema = Some [\<lparr>fs_id = ''tags'', fs_type = Some FT_array\<rparr>,
                                    \<lparr>fs_id = ''title'', fs_type = Some FT_string\<rparr>]\<rparr>,
      p_metaSelect = ''keyValue'', p_metaJson = [],
      p_metaKeyValues = Some [(''a'', ''1''), (''a'', ''2'')],
      p_assignToSelect = ''selectByEmail'', p_assignTo = Some [''x@y.com''],
      p_additional = JObj [], p_resumeUrl = ''https://host/webhook-waiting/42'',
      p_nodeId = ''n1''\<rparr>"

subsection \<open>Metadata from key-value pairs\<close>

lemma fold_assign_str_lookup:
  "k \<noteq> ''__proto__'' \<Longrightarrow>
   map_of (fold (\<lambda>(k, v) ob. js_assign ob k (JStr v)) ps ob) k =
   (case map_of (rev ps) k of Some v \<Rightarrow> Some (JStr v) | None \<Rightarrow> map_of ob k)"
proof (induction ps arbitrary: ob)
  case Nil
  then show ?case by simp
next
  case (Cons p ps)
  obtain a b where p: "p = (a, b)" by fastforce
  show ?case
    using Cons.IH[OF Cons.prems, of "js_assign ob a (JStr b)"] Cons.prems
    by (auto simp: p js_assign_def update_conv' map_add_Some_iff split: option.splits)
qed

lemma fold_assign_str_proto:
  "map_of ob ''__proto__'' = None \<Longrightarrow>
   map_of (fold (\<lambda>(k, v) ob. js_assign ob k (JStr v)) ps ob) ''__proto__'' = None"
proof (induction ps arbitrary: ob)
  case Nil
  then show ?case by simp
next
  case (Cons p ps)
  obtain a b where p: "p = (a, b)" by fastforce
  have "map_of (js_assign ob a (JStr b)) ''__proto__'' = None"
    using Cons.prems by (auto simp: js_assign_def update_conv')
  then show ?case using Cons.IH by (simp add: p)
qed

text \<open>
  Claim C12. In key-value mode the metadata object maps every key other than
  \<open>__proto__\<close> to the value of its last pair: a later duplicate overwrites an earlier one.
\<close>

theorem meta_last_wins:
  assumes "k \<noteq> ''__proto__''"
  shows "js_get (meta_from_pairs ps) k = map_option JStr (map_of (rev ps) k)"
  using assms by (simp add: meta_from_pairs_def fold_assign_str_lookup split: option.splits)

theorem meta_last_wins_witness:
  "js_get (meta_from_pairs [(''a'', ''1''), (''a'', ''2'')]) ''a'' = Some (JStr ''2'')"
  using meta_last_wins [of "''a''" "[(''a'', ''1''), (''a'', ''2'')]"] by simp

text \<open>
  Claim C13. A key-value pair with key \<open>__proto__\<close> never reaches the metadata: the
  assignment \<open>meta[pair.key] = pair.value\<close> hits the prototype setter, which ignores a
  string, so the object has no such own property and the pair is silently dropped.
\<close>

theorem meta_proto_dropped:
  "js_get (meta_from_pairs ps) ''__proto__'' = None"
  by (simp add: meta_from_pairs_def fold_assign_str_proto)

subsection \<open>The request body\<close>

lemma build_request_Inr:
  assumes "build_request p = Inr rq"
  obtains meta mapped form_id where "resolve_meta p = Inr meta"
    "parse_fields (p_fields p) = Inr mapped" "read_prop (p_template p) ''value'' = Inr form_id"
    "rq = review_request (serialize_body (build_body form_id mapped meta (resolve_assignees p)
            (update_review_id p) (webhook_url (p_resumeUrl p) (p_nodeId p))))"
  using assms by (auto simp: build_request_def Let_def split: sum.splits)

lemma body_assignTo:
  "js_get (serialize_body (build_body f fl m a u url)) ''assignTo'' =
     map_option (\<lambda>es. JArr (map JStr es)) a"
  by (cases f; cases m; cases a; cases u)
    (simp_all add: serialize_body_def build_body_def List.map_filter_def)


lemma body_webhookUrl:
  "js_get (serialize_body (build_body f fl m a u url)) ''webhookUrl'' = Some (JStr url)"
  by (cases f; cases m; cases a; cases u)
    (simp_all add: serialize_body_def build_body_def List.map_filter_def)

lemma body_keys_distinct:
  "serialize_body (build_body f fl m a u url) = JObj b \<Longrightarrow> distinct (map fst b)"
  by (cases f; cases m; cases a; cases u)
    (auto simp: serialize_body_def build_body_def List.map_filter_def)

lemma example_item_builds: "\<not> isl (build_request example_item)"
  by code_simp

text \<open>
  Claim C11. Metadata is resolved before anything else of the item: in JSON mode with a
  non-empty text that is malformed JSON, the item fails with \<open>MetaParseError\<close>, whatever
  its fields and template are.
\<close>

theorem build_request_meta_error:
  assumes "p_metaSelect p = ''json''" and "p_metaJson p \<noteq> []"
    and "json_rejects (p_metaJson p)"
  shows "build_request p = Inl MetaParseError"
  using assms json_rejects_None [OF assms(3)] by (simp add: build_request_def resolve_meta_def)

theorem build_request_meta_error_witness:
  "build_request (example_item\<lparr>p_metaSelect := ''json'', p_metaJson := ''{a:}''\<rparr>) =
     Inl MetaParseError"
proof -
  have "json_rejects ''{a:}''" by code_simp
  then show ?thesis by (intro build_request_meta_error) simp_all
qed

text \<open>
  Claim C14. The body carries \<open>assignTo\<close> exactly when the assignee mode is
  \<open>selectByEmail\<close> and the collection has its array, and then it is the list of the
  entries' e-mails; in mode \<open>all\<close> it is omitted, so the service's default applies.
\<close>

theorem build_request_assign_to:
  assumes "build_request p = Inr rq"
  shows "\<exists>b. rq_body rq = Some b \<and>
    js_get b ''assignTo'' =
      (if p_assignToSelect p = ''selectByEmail''
       then map_option (\<lambda>es. JArr (map JStr es)) (p_assignTo p) else None)"
  using assms
  by (elim build_request_Inr) (simp add: review_request_def body_assignTo resolve_assignees_def)

theorem build_request_assign_to_witness:
  "\<exists>rq b. build_request example_item = Inr rq \<and> rq_body rq = Some b \<and>
     js_get b ''assignTo'' = Some (JArr [JStr ''x@y.com''])"
proof -
  obtain rq where rq: "build_request example_item = Inr rq"
    using example_item_builds by (cases "build_request example_item") auto
  from build_request_assign_to [OF rq] obtain b where
    "rq_body rq = Some b" and "js_get b ''assignTo'' = Some (JArr [JStr ''x@y.com''])"
    by (auto simp: example_item_def)
  with rq show ?thesis by blast
qed

text \<open>
  Claim C15. The body is an object with distinct keys whose \<open>webhookUrl\<close> is the
  execution's resume URL followed by \<open>/\<close> and the node id: the only token that ties the
  service's later callback to this execution.
\<close>

theorem build_request_webhook_url:
  assumes "build_request p = Inr rq"
  shows "\<exists>b. rq_body rq = Some (JObj b) \<and> distinct (map fst b) \<and>
    map_of b ''webhookUrl'' = Some (JStr (p_resumeUrl p @ ''/'' @ p_nodeId p))"
proof -
  obtain meta mapped form_id where
    rq: "rq = review_request (serialize_body (build_body form_id mapped meta (resolve_assignees p)
            (update_review_id p) (webhook_url (p_resumeUrl p) (p_nodeId p))))"
    using assms by (elim build_request_Inr) simp
  obtain b where b: "serialize_body (build_body form_id mapped meta (resolve_assignees p)
            (update_review_id p) (webhook_url (p_resumeUrl p) (p_nodeId p))) = JObj b"
    by (simp add: serialize_body_def)
  have "map_of b ''webhookUrl'' = Some (JStr (p_resumeUrl p @ ''/'' @ p_nodeId p))"
    using body_webhookUrl[of form_id mapped meta "resolve_assignees p" "update_review_id p"
        "webhook_url (p_resumeUrl p) (p_nodeId p)"] b
    by (simp add: webhook_url_def)
  with b body_keys_distinct[OF b] rq show ?thesis by (simp add: review_request_def)
qed

theorem build_request_webhook_url_witness:
  "\<exists>rq b. build_request example_item = Inr rq \<and> rq_body rq = Some (JObj b) \<and>
     map_of b ''webhookUrl'' = Some (JStr ''https://host/webhook-waiting/42/n1'')"
proof -
  obtain rq where rq: "build_request example_item = Inr rq"
    using example_item_builds by (cases "build_request example_item") auto
  from build_request_webhook_url [OF rq] obtain b where
    "rq_body rq = Some (JObj b)"
    "map_of b ''webhookUrl'' = Some (JStr ''https://host/webhook-waiting/42/n1'')"
    by (auto simp: example_item_def)
  with rq show ?thesis by blast
qed



text \<open>
  Claim C26. Every request body the node builds has the type \<open>body_typed\<close>: its keys are
  among \<open>formId, fields, origin, originV, meta, assignTo, updateForReviewId, webhookUrl\<close>
  in that order, \<open>fields\<close> is an object, \<open>origin\<close> is \<open>n8n\<close>, \<open>originV\<close> is 1, the
  callback URL is a string and the assignees, when present, are strings.
\<close>

theorem build_request_body_typed:
  assumes "build_request p = Inr rq"
  shows "\<exists>b. rq_body rq = Some b \<and> body_typed b"
proof -
  obtain meta mapped form_id where
    rq: "rq = review_request (serialize_body (build_body form_id mapped meta (resolve_assignees p)
            (update_review_id p) (webhook_url (p_resumeUrl p) (p_nodeId p))))"
    using assms by (rule build_request_Inr)
  have "body_typed (serialize_body (build_body form_id mapped meta a u url))" for a u url
    by (cases form_id; cases meta; cases a; cases u)
      (simp_all add: body_typed_def serialize_body_def build_body_def List.map_filter_def body_keys_def
        node_version_def is_str_def list_all_iff)
  with rq show ?thesis by (simp add: review_request_def)
qed

theorem build_request_body_typed_witness:
  "\<exists>rq b. build_request example_item = Inr rq \<and> rq_body rq = Some b \<and> body_typed b"
proof -
  obtain rq where rq: "build_request example_item = Inr rq"
    using example_item_builds by (cases "build_request example_item") auto
  from build_request_body_typed [OF rq] rq show ?thesis by blast
qed

end
