(* ===== verification/Credentials.thy ===== *)
theory Credentials
  imports Host
begin

text \<open>
  The credential type \<open>gotoHumanApi\<close> of \<open>src/credentials/GotoHumanApi.credentials.ts\<close>:
  one secret, the API key. Generic authentication (lines 21--28) puts it into the
  \<open>x-api-key\<close> header of every request the node makes with
  \<open>requestWithAuthentication\<close>; the credential test (lines 29--34) is a GET of
  \<open>/authCheck\<close> on the API's base URL, authenticated the same way.
\<close>

definition authenticate :: "string \<Rightarrow> http_request \<Rightarrow> http_request" where
  "authenticate api_key rq = rq\<lparr>rq_headers := AList.update ''x-api-key'' api_key (rq_headers rq)\<rparr>"

definition credential_test_request :: http_request where
  "credential_test_request =
     \<lparr>rq_method = GET, rq_uri = ''https://api.gotohuman.com'' @ ''/authCheck'', rq_qs = [],
      rq_body = None, rq_headers = []\<rparr>"

lemma authenticate_header [simp]:
  "map_of (rq_headers (authenticate k rq)) ''x-api-key'' = Some k"
  by (simp add: authenticate_def update_conv')

lemma authenticate_frame [simp]:
  "rq_method (authenticate k rq) = rq_method rq"
  "rq_uri (authenticate k rq) = rq_uri rq"
  "rq_body (authenticate k rq) = rq_body rq"
  "rq_qs (authenticate k rq) = rq_qs rq"
  by (simp_all add: authenticate_def)

end
