(* ===== verification/Submission.thy ===== *)
theory Submission
  imports Request_Builder Credentials
begin

text \<open>
  The Submission Client: lines 471--486 of \<open>execute\<close> in
  \<open>src/nodes/GotoHuman/GotoHuman.node.ts\<close>. The parsed response of the POST is
  \<open>responseData\<close> (\<open>None\<close> when it is \<open>undefined\<close>). Its status is
  \<open>responseData?.statusCode || 200\<close>; a status whose string form starts with 4 or 5 is
  thrown as a \<open>NodeApiError\<close> whose message is the response's truthy \<open>body\<close> or else the
  whole response as JSON text. A successful response with a positive numeric
  \<open>timeoutInMillis\<close> replaces the wait time.
\<close>

definition status_code :: "json option \<Rightarrow> json" where
  "status_code r =
     (case r of
        None \<Rightarrow> JNum 200
      | Some d \<Rightarrow> (case js_get d ''statusCode'' of
                    Some c \<Rightarrow> if js_truthy c then c else JNum 200
                  | None \<Rightarrow> JNum 200))"

definition is_error_status :: "json \<Rightarrow> bool" where
  "is_error_status c \<longleftrightarrow> prefix ''4'' (js_String c) \<or> prefix ''5'' (js_String c)"

definition api_error :: "json \<Rightarrow> node_error" where
  "api_error d =
     ApiError
       (case js_get d ''body'' of
          Some b \<Rightarrow> if js_truthy b then b else JStr (json_print d)
        | None \<Rightarrow> JStr (json_print d))
       (js_String (status_code (Some d)))"

definition check_response :: "json option \<Rightarrow> node_error + json option" where
  "check_response r =
     (if is_error_status (status_code r) then
        (case r of Some d \<Rightarrow> Inl (api_error d) | None \<Rightarrow> Inl (TypeError ''body''))
      else Inr r)"

definition next_wait :: "int \<Rightarrow> json option \<Rightarrow> int" where
  "next_wait w r =
     (case r of
        Some d \<Rightarrow>
          if js_truthy d then
            (case js_get d ''timeoutInMillis'' of
               Some (JNum t) \<Rightarrow> if 0 < t then t else w
             | _ \<Rightarrow> w)
          else w
      | None \<Rightarrow> w)"

text \<open>The positive numeric \<open>timeoutInMillis\<close> of a response, if it has one.\<close>

definition positive_timeout :: "json option \<Rightarrow> int option" where
  "positive_timeout r =
     (case r of
        Some d \<Rightarrow> (case js_get d ''timeoutInMillis'' of
                    Some (JNum t) \<Rightarrow> if 0 < t then Some t else None
                  | _ \<Rightarrow> None)
      | None \<Rightarrow> None)"

subsection \<open>Classification\<close>

lemma next_wait_timeout:
  "next_wait w r = (case positive_timeout r of Some t \<Rightarrow> t | None \<Rightarrow> w)"
  by (auto simp: next_wait_def positive_timeout_def dest: js_get_truthy
      split: option.splits json.splits)


lemma js_String_3digit_status:
  assumes "100 \<le> c" and "c < 1000"
  shows "is_error_status (JNum c) \<longleftrightarrow> c div 100 = 4 \<or> c div 100 = 5"
proof -
  have n: "nat_str (nat c) = [digit_char (nat c div 100), digit_char (nat c div 10 mod 10), digit_char (nat c mod 10)]"
    using assms by (intro nat_str_3digits) simp_all
  have lt: "nat c div 100 < 10" using assms by simp
  have "is_error_status (JNum c) \<longleftrightarrow>
      digit_char (nat c div 100) = CHR ''4'' \<or> digit_char (nat c div 100) = CHR ''5''"
    using assms n by (auto simp: is_error_status_def int_str_def)
  also have "\<dots> \<longleftrightarrow> nat c div 100 = 4 \<or> nat c div 100 = 5"
    using digit_char_eq_iff[OF lt, of 4] digit_char_eq_iff[OF lt, of 5] by simp
  also have "\<dots> \<longleftrightarrow> c div 100 = 4 \<or> c div 100 = 5"
  proof -
    have e: "int (nat c div 100) = c div 100" using assms by (simp add: zdiv_int)
    have "nat c div 100 = 4 \<longleftrightarrow> c div 100 = 4"
      using e by (metis of_nat_numeral of_nat_eq_iff)
    moreover have "nat c div 100 = 5 \<longleftrightarrow> c div 100 = 5"
      using e by (metis of_nat_numeral of_nat_eq_iff)
    ultimately show ?thesis by simp
  qed
  finally show ?thesis .
qed

text \<open>
  Claim C6. A response whose \<open>statusCode\<close> is a number from 400 to 599 is a failure:
  the item fails with a \<open>NodeApiError\<close> whose HTTP code is the status as text,
  whatever the rest of the body is.
\<close>

theorem check_response_error_status:
  assumes "js_get d ''statusCode'' = Some (JNum c)" and "400 \<le> c" and "c < 600"
  shows "\<exists>m. check_response (Some d) = Inl (ApiError m (int_str c))"
proof -
  have c: "status_code (Some d) = JNum c" using assms by (simp add: status_code_def)
  have "c div 100 = 4 \<or> c div 100 = 5" using assms(2,3) by presburger
  then have "is_error_status (JNum c)" using assms(2,3) js_String_3digit_status[of c] by simp
  with c show ?thesis by (simp add: check_response_def api_error_def)
qed

theorem check_response_error_status_witness:
  "\<exists>m. check_response (Some (JObj [(''statusCode'', JNum 404)])) = Inl (ApiError m ''404'')"
proof -
  have "int_str 404 = ''404''" by (simp add: int_str_def nat_str_3digits)
  with check_response_error_status [of "JObj [(''statusCode'', JNum 404)]" 404] show ?thesis by simp
qed

text \<open>
  Claim C7. A response without a \<open>statusCode\<close>, or with a numeric one from 100 to 399,
  is a success and is passed on unchanged; in particular status 200 never fails.
\<close>

theorem check_response_success:
  assumes "js_get d ''statusCode'' = None \<or>
           (\<exists>c. js_get d ''statusCode'' = Some (JNum c) \<and> 100 \<le> c \<and> c < 400)"
  shows "check_response (Some d) = Inr (Some d)"
  using assms
proof
  assume "js_get d ''statusCode'' = None"
  then have "status_code (Some d) = JNum 200" by (simp add: status_code_def)
  moreover have "\<not> is_error_status (JNum 200)" using js_String_3digit_status[of 200] by simp
  ultimately show ?thesis by (simp add: check_response_def)
next
  assume "\<exists>c. js_get d ''statusCode'' = Some (JNum c) \<and> 100 \<le> c \<and> c < 400"
  then obtain c where c: "js_get d ''statusCode'' = Some (JNum c)" "100 \<le> c" "c < 400" by blast
  then have "status_code (Some d) = JNum c" by (simp add: status_code_def)
  moreover have "\<not> is_error_status (JNum c)" using c js_String_3digit_status[of c] by auto
  ultimately show ?thesis by (simp add: check_response_def)
qed

theorem check_response_success_witness:
  "check_response (Some (JObj [(''statusCode'', JNum 200), (''id'', JStr ''r1'')])) =
     Inr (Some (JObj [(''statusCode'', JNum 200), (''id'', JStr ''r1'')]))"
  by (rule check_response_success) simp

end
