(* ===== verification/Execute.thy ===== *)
theory Execute
  imports Submission
begin

text \<open>
  The Suspend Controller and the item loop: \<open>execute\<close> of
  \<open>src/nodes/GotoHuman/GotoHuman.node.ts\<close>, lines 394--503. Each input item is processed
  in order inside a \<open>try\<close>: the operation is checked, the request built, sent with the
  API key, its response classified, the wait time updated and the response pushed to
  \<open>returnData\<close>. A caught error is pushed as \<open>{json: {error: message}, error}\<close> when
  \<open>continueOnFail()\<close> holds and rethrown otherwise, which ends the execution without a
  wait. After the loop the execution is put to wait until \<open>now + waitMillis\<close> and the
  node returns its input items; \<open>returnData\<close> is not returned.

  The host is the environment: for each item, the node parameters, the input item's JSON,
  and what \<open>requestWithAuthentication\<close> answers to that item's request (a parsed
  response, or an error it throws); the \<open>continueOnFail\<close> setting, the API key of the
  credential and the clock.
\<close>

record item_env =
  ie_input :: json
  ie_params :: item_params
  ie_response :: "node_error + json option"

record exec_state =
  wait_millis :: int
  return_data :: "out_item list"
  sent :: "http_request list"

record exec_env =
  items :: "item_env list"
  continue_on_fail :: bool
  api_key :: string
  now :: int

datatype exec_outcome =
    Failed node_error "http_request list"
  | Waiting "int option" "json list" "http_request list"

definition default_wait :: int where
  "default_wait = 14 * 24 * 60 * 60 * 1000"

definition init_state :: exec_state where
  "init_state = \<lparr>wait_millis = default_wait, return_data = [], sent = []\<rparr>"

text \<open>\<open>new Date(t)\<close> keeps a time value only within \<open>\<plusminus>8.64e15\<close> ms (TimeClip).\<close>

definition max_time :: int where
  "max_time = 8640000000000000"

definition time_clip :: "int \<Rightarrow> int option" where
  "time_clip t = (if \<bar>t\<bar> \<le> max_time then Some t else None)"

subsection \<open>One item\<close>

definition item_request :: "item_params \<Rightarrow> node_error + http_request" where
  "item_request p =
     (if p_resource p = ''reviewRequest'' \<and> p_operation p = ''sendAndWait'' then build_request p
      else Inl (OperationNotSupported (p_operation p)))"

definition classify :: "node_error + json option \<Rightarrow> node_error + json option" where
  "classify resp = (case resp of Inl e \<Rightarrow> Inl e | Inr r \<Rightarrow> check_response r)"

definition exec_item :: "string \<Rightarrow> exec_state \<Rightarrow> item_env \<Rightarrow> exec_state \<times> node_error option" where
  "exec_item key st ie =
     (case item_request (ie_params ie) of
        Inl e \<Rightarrow> (st, Some e)
      | Inr rq \<Rightarrow>
          (let st' = st\<lparr>sent := sent st @ [authenticate key rq]\<rparr> in
           case classify (ie_response ie) of
             Inl e \<Rightarrow> (st', Some e)
           | Inr r \<Rightarrow>
               (st'\<lparr>wait_millis := next_wait (wait_millis st) r,
                    return_data := return_data st @ [\<lparr>item_json = r, item_error = None\<rparr>]\<rparr>,
                None)))"

definition push_error :: "exec_state \<Rightarrow> node_error \<Rightarrow> exec_state" where
  "push_error st e =
     st\<lparr>return_data := return_data st @
        [\<lparr>item_json = Some (JObj [(''error'', error_message e)]), item_error = Some e\<rparr>]\<rparr>"

subsection \<open>The loop and the suspension\<close>

fun exec_items :: "bool \<Rightarrow> string \<Rightarrow> exec_state \<Rightarrow> item_env list \<Rightarrow> exec_state \<times> node_error option" where
  "exec_items cof key st [] = (st, None)"
| "exec_items cof key st (ie # ies) =
     (case exec_item key st ie of
        (st', None) \<Rightarrow> exec_items cof key st' ies
      | (st', Some e) \<Rightarrow> if cof then exec_items cof key (push_error st' e) ies else (st', Some e))"

definition execute :: "exec_env \<Rightarrow> exec_outcome" where
  "execute env =
     (case exec_items (continue_on_fail env) (api_key env) init_state (items env) of
        (st, Some e) \<Rightarrow> Failed e (sent st)
      | (st, None) \<Rightarrow>
          Waiting (time_clip (now env + wait_millis st)) (map ie_input (items env)) (sent st))"

fun outcome_requests :: "exec_outcome \<Rightarrow> http_request list" where
  "outcome_requests (Failed _ rs) = rs"
| "outcome_requests (Waiting _ _ rs) = rs"

subsection \<open>Reference behaviour of one item\<close>

text \<open>What the item's \<open>try\<close> block ends with, seen in isolation from the loop.\<close>

definition item_outcome :: "item_env \<Rightarrow> node_error + json option" where
  "item_outcome ie =
     (case item_request (ie_params ie) of
        Inl e \<Rightarrow> Inl e
      | Inr _ \<Rightarrow> classify (ie_response ie))"

text \<open>
  The entry the item leaves in \<open>returnData\<close>: the response after a successful request
  (line 487), or the error item pushed under \<open>continueOnFail\<close> (line 493).
\<close>

definition item_out :: "item_env \<Rightarrow> out_item" where
  "item_out ie =
     (case item_outcome ie of
        Inr r \<Rightarrow> \<lparr>item_json = r, item_error = None\<rparr>
      | Inl e \<Rightarrow> \<lparr>item_json = Some (JObj [(''error'', error_message e)]), item_error = Some e\<rparr>)"

definition ok_responses :: "item_env list \<Rightarrow> json option list" where
  "ok_responses ies =
     List.map_filter (\<lambda>ie. case item_outcome ie of Inr r \<Rightarrow> Some r | Inl _ \<Rightarrow> None) ies"

definition built_requests :: "string \<Rightarrow> item_env list \<Rightarrow> http_request list" where
  "built_requests key ies =
     List.map_filter (\<lambda>ie. case item_request (ie_params ie) of
                            Inr rq \<Rightarrow> Some (authenticate key rq) | Inl _ \<Rightarrow> None) ies"

text \<open>The wait time after a run of successful responses: the last positive timeout.\<close>

definition last_timeout :: "int \<Rightarrow> json option list \<Rightarrow> int" where
  "last_timeout w rs = (case List.map_filter positive_timeout rs of [] \<Rightarrow> w | ts \<Rightarrow> last ts)"

text \<open>Two items as in the service's answer to a batch: a timeout on the first only.\<close>

definition example_env :: exec_env where
  "example_env =
     \<lparr>items =
        [\<lparr>ie_input = JObj [(''n'', JNum 1)], ie_params = example_item,
          ie_response = Inr (Some (JObj [(''reviewId'', JStr ''r1''), (''timeoutInMillis'', JNum 1000)]))\<rparr>,
         \<lparr>ie_input = JObj [(''n'', JNum 2)], ie_params = example_item,
          ie_response = Inr (Some (JObj [(''reviewId'', JStr ''r2'')]))\<rparr>],
      continue_on_fail = False, api_key = ''secret'', now = 1700000000000\<rparr>"

definition bad_item :: item_env where
  "bad_item =
     \<lparr>ie_input = JObj [(''n'', JNum 0)], ie_params = example_item\<lparr>p_operation := ''delete''\<rparr>,
      ie_response = Inr None\<rparr>"

subsection \<open>The loop\<close>

lemma exec_item_error:
  "snd (exec_item key st ie) = (case item_outcome ie of Inl e \<Rightarrow> Some e | Inr _ \<Rightarrow> None)"
  by (auto simp: exec_item_def item_outcome_def Let_def split: sum.splits)

lemma exec_item_wait:
  "wait_millis (fst (exec_item key st ie)) =
     (case item_outcome ie of Inr r \<Rightarrow> next_wait (wait_millis st) r | Inl _ \<Rightarrow> wait_millis st)"
  by (auto simp: exec_item_def item_outcome_def Let_def split: sum.splits)

lemma exec_item_sent:
  "sent (fst (exec_item key st ie)) =
     sent st @ (case item_request (ie_params ie) of Inr rq \<Rightarrow> [authenticate key rq] | Inl _ \<Rightarrow> [])"
  by (auto simp: exec_item_def Let_def split: sum.splits)

lemma push_error_frame [simp]:
  "wait_millis (push_error st e) = wait_millis st" "sent (push_error st e) = sent st"
  by (simp_all add: push_error_def)

lemma ok_responses_Cons:
  "ok_responses (ie # ies) =
     (case item_outcome ie of Inr r \<Rightarrow> r # ok_responses ies | Inl _ \<Rightarrow> ok_responses ies)"
  by (simp add: ok_responses_def List.map_filter_def split: sum.splits)

lemma built_requests_Cons:
  "built_requests key (ie # ies) =
     (case item_request (ie_params ie) of Inr rq \<Rightarrow> [authenticate key rq] | Inl _ \<Rightarrow> []) @ built_requests key ies"
  by (simp add: built_requests_def List.map_filter_def split: sum.splits)

lemma exec_items_done:
  assumes "exec_items cof key st ies = (st', None)"
  shows "wait_millis st' = foldl next_wait (wait_millis st) (ok_responses ies) \<and>
         sent st' = sent st @ built_requests key ies"
  using assms
proof (induction ies arbitrary: st)
  case Nil
  then show ?case by (simp add: ok_responses_def built_requests_def)
next
  case (Cons ie ies)
  obtain st1 err where ei: "exec_item key st ie = (st1, err)" by fastforce
  have w1: "wait_millis st1 = (case item_outcome ie of Inr r \<Rightarrow> next_wait (wait_millis st) r | Inl _ \<Rightarrow> wait_millis st)"
    using exec_item_wait[of key st ie] ei by simp
  have s1: "sent st1 = sent st @ (case item_request (ie_params ie) of Inr rq \<Rightarrow> [authenticate key rq] | Inl _ \<Rightarrow> [])"
    using exec_item_sent[of key st ie] ei by simp
  have e1: "err = (case item_outcome ie of Inl e \<Rightarrow> Some e | Inr _ \<Rightarrow> None)"
    using exec_item_error[of key st ie] ei by simp
  show ?case
  proof (cases err)
    case None
    with Cons.prems ei have "exec_items cof key st1 ies = (st', None)" by simp
    from Cons.IH[OF this] w1 s1 e1 None show ?thesis
      by (auto simp: ok_responses_Cons built_requests_Cons split: sum.splits)
  next
    case (Some e)
    with Cons.prems ei have "exec_items cof key (push_error st1 e) ies = (st', None)"
      by (auto split: if_splits)
    from Cons.IH[OF this] w1 s1 e1 Some show ?thesis
      by (auto simp: ok_responses_Cons built_requests_Cons split: sum.splits)
  qed
qed

lemma exec_items_cof_no_error: "snd (exec_items True key st ies) = None"
proof (induction ies arbitrary: st)
  case Nil
  then show ?case by simp
next
  case (Cons ie ies)
  then show ?case by (cases "exec_item key st ie") (auto split: option.splits)
qed

lemma exec_item_return:
  "return_data (fst (exec_item key st ie)) =
     return_data st @ (case item_outcome ie of Inr _ \<Rightarrow> [item_out ie] | Inl _ \<Rightarrow> [])"
  by (auto simp: exec_item_def item_outcome_def item_out_def Let_def split: sum.splits)

lemma push_error_return:
  "item_outcome ie = Inl e \<Longrightarrow> return_data (push_error st e) = return_data st @ [item_out ie]"
  by (simp add: push_error_def item_out_def)

lemma exec_items_fail_fast:
  assumes "\<forall>x\<in>set pre. \<not> isl (item_outcome x)" and "item_outcome ie = Inl e"
  shows "snd (exec_items False key st (pre @ ie # post)) = Some e \<and>
         sent (fst (exec_items False key st (pre @ ie # post))) = sent st @ built_requests key (pre @ [ie])"
  using assms(1)
proof (induction pre arbitrary: st)
  case Nil
  have "snd (exec_item key st ie) = Some e" using assms(2) by (simp add: exec_item_error)
  then show ?case
    using exec_item_sent [of key st ie]
    by (cases "exec_item key st ie") (simp add: built_requests_def List.map_filter_def split: sum.splits)
next
  case (Cons x pre)
  then have "\<not> isl (item_outcome x)" by simp
  then have "snd (exec_item key st x) = None"
    by (cases "item_outcome x") (simp_all add: exec_item_error)
  with Cons show ?case
    using exec_item_sent [of key st x]
    by (cases "exec_item key st x") (simp add: built_requests_Cons split: sum.splits)
qed

lemma exec_items_sent_subset:
  "set (sent (fst (exec_items cof key st ies))) \<subseteq> set (sent st) \<union> set (built_requests key ies)"
proof (induction ies arbitrary: st)
  case Nil
  then show ?case by simp
next
  case (Cons ie ies)
  obtain st1 err where ei: "exec_item key st ie = (st1, err)" by fastforce
  have s1: "sent st1 = sent st @ (case item_request (ie_params ie) of Inr rq \<Rightarrow> [authenticate key rq] | Inl _ \<Rightarrow> [])"
    using exec_item_sent[of key st ie] ei by simp
  have ih1: "set (sent (fst (exec_items cof key st1 ies))) \<subseteq> set (sent st1) \<union> set (built_requests key ies)"
    by (rule Cons.IH)
  have ih2: "set (sent (fst (exec_items cof key (push_error st1 e) ies))) \<subseteq> set (sent st1) \<union> set (built_requests key ies)" for e
    using Cons.IH[of "push_error st1 e"] by simp
  have "set (sent st1) \<subseteq> set (sent st) \<union> set (built_requests key (ie # ies))"
    using s1 by (auto simp: built_requests_Cons split: sum.splits)
  moreover have "set (built_requests key ies) \<subseteq> set (built_requests key (ie # ies))"
    by (simp add: built_requests_Cons)
  moreover have "set (sent (fst (exec_items cof key st (ie # ies))))
      \<subseteq> set (sent st1) \<union> set (built_requests key ies)"
  proof (cases err)
    case None
    with ei ih1 show ?thesis by simp
  next
    case (Some e)
    with ei ih1 ih2[of e] show ?thesis by (cases cof) simp_all
  qed
  ultimately show ?case by blast
qed

lemma built_requests_member:
  "rq \<in> set (built_requests key ies) \<Longrightarrow>
   \<exists>ie\<in>set ies. \<exists>rq0. item_request (ie_params ie) = Inr rq0 \<and> rq = authenticate key rq0"
proof (induction ies)
  case Nil
  then show ?case by (simp add: built_requests_def)
next
  case (Cons ie ies)
  show ?case
  proof (cases "item_request (ie_params ie)")
    case (Inl e)
    with Cons show ?thesis by (simp add: built_requests_Cons)
  next
    case (Inr rq1)
    with Cons.prems have "rq = authenticate key rq1 \<or> rq \<in> set (built_requests key ies)"
      by (simp add: built_requests_Cons)
    then show ?thesis
    proof
      assume "rq = authenticate key rq1"
      with Inr show ?thesis by auto
    next
      assume "rq \<in> set (built_requests key ies)"
      then show ?thesis using Cons.IH by auto
    qed
  qed
qed

lemma next_wait_pos: "0 < w \<Longrightarrow> 0 < next_wait w r"
  by (auto simp: next_wait_def split: option.splits json.splits)

lemma fold_next_wait_pos: "0 < w \<Longrightarrow> 0 < foldl next_wait w rs"
  by (induction rs arbitrary: w) (auto simp: next_wait_pos)

lemma foldl_next_wait:
  "foldl next_wait w rs = last_timeout w rs"
proof (induction rs rule: rev_induct)
  case Nil
  then show ?case by (simp add: last_timeout_def List.map_filter_def)
next
  case (snoc r rs)
  then show ?case
    by (auto simp: last_timeout_def next_wait_timeout List.map_filter_def
        split: option.splits list.splits)
qed

lemma item_request_shape:
  "item_request p = Inr rq \<Longrightarrow> rq_method rq = POST \<and> rq_uri rq = base_url @ ''/requestReview''"
  by (auto simp: item_request_def build_request_def review_request_def Let_def split: if_splits sum.splits)

text \<open>Every request an execution sends is the authenticated request of one of its items.\<close>

lemma execute_sent_built:
  assumes "rq \<in> set (outcome_requests (execute env))"
  shows "\<exists>ie\<in>set (items env). \<exists>rq0. item_request (ie_params ie) = Inr rq0 \<and> rq = authenticate (api_key env) rq0"
proof -
  obtain st err where ex: "exec_items (continue_on_fail env) (api_key env) init_state (items env) = (st, err)"
    by fastforce
  have "rq \<in> set (sent st)"
    using assms ex by (cases err) (auto simp: execute_def)
  then have "rq \<in> set (built_requests (api_key env) (items env))"
    using exec_items_sent_subset[of "continue_on_fail env" "api_key env" init_state "items env"] ex
    by (auto simp: init_state_def)
  then show ?thesis by (rule built_requests_member)
qed

lemma execute_Waiting:
  assumes "execute env = Waiting dl out reqs"
  shows "\<exists>st. exec_items (continue_on_fail env) (api_key env) init_state (items env) = (st, None) \<and>
           dl = time_clip (now env + wait_millis st) \<and> out = map ie_input (items env) \<and> reqs = sent st"
proof -
  obtain st err where ex: "exec_items (continue_on_fail env) (api_key env) init_state (items env) = (st, err)"
    by fastforce
  with assms show ?thesis by (cases err) (auto simp: execute_def)
qed

lemma waiting_deadline:
  assumes "execute env = Waiting dl out reqs"
  shows "dl = time_clip (now env + foldl next_wait default_wait (ok_responses (items env)))"
proof -
  from execute_Waiting [OF assms] obtain st
    where ex: "exec_items (continue_on_fail env) (api_key env) init_state (items env) = (st, None)"
      and dl: "dl = time_clip (now env + wait_millis st)" by blast
  from exec_items_done [OF ex] dl show ?thesis by (simp add: init_state_def)
qed

text \<open>
  Claim C1. When the execution is put to wait, its deadline is the clock plus the
  \<open>timeoutInMillis\<close> of the last successful item whose response carries a positive
  number there, and plus 14 days when none does (clipped to a valid \<open>Date\<close>).
\<close>

theorem execute_deadline:
  assumes "execute env = Waiting dl out reqs"
  shows "dl = time_clip (now env + last_timeout default_wait (ok_responses (items env)))"
  using waiting_deadline [OF assms] by (simp add: foldl_next_wait)

text \<open>
  Claim C2. Without \<open>continueOnFail\<close>, the first item that fails (an unsupported
  operation, bad metadata or field JSON, a request that throws, an error status) ends the
  execution with that error: the execution is not put to wait, and the requests sent are
  those of the items before it and the failing item's own, if it got as far as sending;
  no later item is looked at.
\<close>

theorem execute_fail_fast:
  assumes "\<not> continue_on_fail env" and "items env = pre @ ie # post"
    and "\<forall>x\<in>set pre. \<not> isl (item_outcome x)" and "item_outcome ie = Inl e"
  shows "execute env = Failed e (built_requests (api_key env) (pre @ [ie]))"
proof -
  have "snd (exec_items False (api_key env) init_state (pre @ ie # post)) = Some e \<and>
      sent (fst (exec_items False (api_key env) init_state (pre @ ie # post))) =
        built_requests (api_key env) (pre @ [ie])"
    using exec_items_fail_fast [OF assms(3,4)] by (simp add: init_state_def)
  with assms(1,2) show ?thesis
    by (cases "exec_items False (api_key env) init_state (pre @ ie # post)") (simp add: execute_def)
qed

text \<open>
  Claim C3. With \<open>continueOnFail\<close>, the execution is always put to wait, with the deadline
  of claim C1 over the successful items; it sends exactly the requests of the items whose
  request could be built, in item order, and returns the input items unchanged: the error
  items collected in \<open>returnData\<close> are not part of the output.
\<close>

theorem execute_continue_on_fail:
  assumes "continue_on_fail env"
  shows "execute env =
           Waiting (time_clip (now env + foldl next_wait default_wait (ok_responses (items env))))
                   (map ie_input (items env)) (built_requests (api_key env) (items env))"
proof -
  obtain st err where ex: "exec_items True (api_key env) init_state (items env) = (st, err)"
    by fastforce
  with exec_items_cof_no_error have "err = None" by (metis snd_conv)
  with ex have "wait_millis st = foldl next_wait default_wait (ok_responses (items env)) \<and>
      sent st = built_requests (api_key env) (items env)"
    using exec_items_done by (fastforce simp: init_state_def)
  with ex \<open>err = None\<close> assms show ?thesis by (simp add: execute_def)
qed

text \<open>
  Claim C4. Every request the execution sends is a POST to the \<open>requestReview\<close> endpoint
  carrying the credential's API key in the \<open>x-api-key\<close> header.
\<close>

theorem execute_requests_authenticated:
  assumes "rq \<in> set (outcome_requests (execute env))"
  shows "rq_method rq = POST \<and> rq_uri rq = ''https://api.gotohuman.com/requestReview'' \<and>
         map_of (rq_headers rq) ''x-api-key'' = Some (api_key env)"
proof -
  obtain ie rq0 where "ie \<in> set (items env)" "item_request (ie_params ie) = Inr rq0"
    "rq = authenticate (api_key env) rq0"
    using assms by (blast dest: execute_sent_built)
  then show ?thesis using item_request_shape by (auto simp: base_url_def)
qed

text \<open>
  Claim C5. A valid wait deadline is strictly after the execution's clock: the wait time is
  positive, whatever the service answers.
\<close>

theorem execute_deadline_future:
  assumes "execute env = Waiting (Some t) out reqs"
  shows "now env < t"
proof -
  have "0 < foldl next_wait default_wait (ok_responses (items env))"
    by (rule fold_next_wait_pos) (simp add: default_wait_def)
  with waiting_deadline[OF assms] show ?thesis by (auto simp: time_clip_def split: if_splits)
qed

text \<open>
  Claim C28. The invariant of the item loop under \<open>continueOnFail\<close>: every item adds
  exactly one entry to \<open>returnData\<close>, in item order, the service's response for an item
  that succeeded and the error item \<open>{json: {error: message}, error}\<close> for one that failed.
\<close>

theorem exec_items_return_data:
  "return_data (fst (exec_items True key st ies)) = return_data st @ map item_out ies"
proof (induction ies arbitrary: st)
  case Nil
  then show ?case by simp
next
  case (Cons ie ies)
  obtain st1 err where ei: "exec_item key st ie = (st1, err)" by fastforce
  have r1: "return_data st1 = return_data st @ (case item_outcome ie of Inr _ \<Rightarrow> [item_out ie] | Inl _ \<Rightarrow> [])"
    using exec_item_return [of key st ie] ei by simp
  have e1: "err = (case item_outcome ie of Inl e \<Rightarrow> Some e | Inr _ \<Rightarrow> None)"
    using exec_item_error [of key st ie] ei by simp
  show ?case
  proof (cases "item_outcome ie")
    case (Inl e)
    with r1 have "return_data (push_error st1 e) = return_data st @ [item_out ie]"
      using push_error_return by simp
    with ei e1 Inl Cons.IH show ?thesis by simp
  next
    case (Inr r)
    with ei r1 e1 Cons.IH show ?thesis by simp
  qed
qed

text \<open>
  Claim C29. Whenever the execution is put to wait, with or without \<open>continueOnFail\<close>,
  the node returns its input items unchanged, whatever the service answered, and has sent
  exactly one request for each item whose request could be built, in item order.
\<close>

theorem execute_waiting_output:
  assumes "execute env = Waiting dl out reqs"
  shows "out = map ie_input (items env) \<and> reqs = built_requests (api_key env) (items env)"
proof -
  from execute_Waiting [OF assms] obtain st
    where ex: "exec_items (continue_on_fail env) (api_key env) init_state (items env) = (st, None)"
      and out: "out = map ie_input (items env)" and reqs: "reqs = sent st" by blast
  from exec_items_done [OF ex] out reqs show ?thesis by (simp add: init_state_def)
qed

subsection \<open>Witnesses\<close>

lemma example_env_waits:
  "case execute example_env of Waiting _ _ _ \<Rightarrow> True | Failed _ _ \<Rightarrow> False"
  by code_simp

theorem execute_deadline_witness:
  "\<exists>out reqs. execute example_env = Waiting (Some 1700000001000) out reqs"
proof -
  obtain dl out reqs where ex: "execute example_env = Waiting dl out reqs"
    using example_env_waits by (cases "execute example_env") auto
  have "time_clip (now example_env + last_timeout default_wait (ok_responses (items example_env)))
        = Some 1700000001000"
    by code_simp
  with execute_deadline [OF ex] ex show ?thesis by auto
qed

theorem execute_fail_fast_witness:
  "execute (example_env\<lparr>items := [hd (items example_env), bad_item, hd (items example_env)]\<rparr>) =
     Failed (OperationNotSupported ''delete'') (built_requests ''secret'' [hd (items example_env), bad_item])"
proof -
  have "item_outcome bad_item = Inl (OperationNotSupported ''delete'')"
    by (simp add: item_outcome_def item_request_def bad_item_def example_item_def)
  moreover have "\<not> isl (item_outcome (hd (items example_env)))" by code_simp
  ultimately show ?thesis
    using execute_fail_fast [of "example_env\<lparr>items := [hd (items example_env), bad_item, hd (items example_env)]\<rparr>"
        "[hd (items example_env)]" bad_item "[hd (items example_env)]"]
    by (simp add: example_env_def)
qed

theorem execute_continue_on_fail_witness:
  "\<exists>dl reqs. execute (example_env\<lparr>continue_on_fail := True,
       items := [bad_item, hd (items example_env)]\<rparr>) =
     Waiting dl [JObj [(''n'', JNum 0)], JObj [(''n'', JNum 1)]] reqs"
  using execute_continue_on_fail [of "example_env\<lparr>continue_on_fail := True,
       items := [bad_item, hd (items example_env)]\<rparr>"]
  by (simp add: example_env_def bad_item_def)

lemma example_env_deadline:
  "case execute example_env of Waiting dl _ _ \<Rightarrow> dl = Some 1700000001000 | Failed _ _ \<Rightarrow> False"
  by code_simp

lemma example_env_sends: "outcome_requests (execute example_env) \<noteq> []"
  by code_simp

theorem execute_requests_authenticated_witness:
  "\<exists>rq. rq \<in> set (outcome_requests (execute example_env)) \<and>
     map_of (rq_headers rq) ''x-api-key'' = Some ''secret''"
proof -
  obtain rq where rq: "rq \<in> set (outcome_requests (execute example_env))"
    using example_env_sends by (cases "outcome_requests (execute example_env)") auto
  from execute_requests_authenticated [OF rq] rq show ?thesis
    by (auto simp: example_env_def)
qed

theorem execute_deadline_future_witness:
  "\<exists>out reqs. execute example_env = Waiting (Some 1700000001000) out reqs \<and>
     now example_env < 1700000001000"
proof -
  obtain out reqs where ex: "execute example_env = Waiting (Some 1700000001000) out reqs"
    using example_env_deadline by (cases "execute example_env") auto
  from execute_deadline_future [OF ex] ex show ?thesis by blast
qed

theorem execute_waiting_output_witness:
  "\<exists>dl. execute example_env =
     Waiting dl [JObj [(''n'', JNum 1)], JObj [(''n'', JNum 2)]] (built_requests ''secret'' (items example_env))"
proof -
  obtain dl out reqs where ex: "execute example_env = Waiting dl out reqs"
    using example_env_waits by (cases "execute example_env") auto
  from execute_waiting_output [OF ex] ex show ?thesis by (simp add: example_env_def)
qed

end
