(* ===== verification/Webhook.thy ===== *)
theory Webhook
  imports Json
begin

text \<open>
  The Callback Receiver: \<open>webhook\<close> of \<open>src/nodes/GotoHuman/GotoHuman.node.ts\<close>, lines
  505--510. The body of the service's POST becomes the resumed node's output through
  \<open>this.helpers.returnJsonArray\<close> of n8n-workflow: a body that is not an array is taken as
  a one-element array; each element that has a truthy \<open>json\<close> property is already an
  execution item and is kept (\<open>{...data, json: data.json}\<close>), any other element is
  wrapped as \<open>{json: element}\<close>. The output is the one-run list
  \<open>workflowData: [items]\<close>. An output item is a JSON object.
\<close>

definition return_json_item :: "json \<Rightarrow> json" where
  "return_json_item data =
     (case js_get data ''json'' of
        Some j \<Rightarrow>
          if js_truthy j then (case data of JObj ps \<Rightarrow> JObj (AList.update ''json'' j ps) | _ \<Rightarrow> data)
          else JObj [(''json'', data)]
      | None \<Rightarrow> JObj [(''json'', data)])"

definition return_json_array :: "json \<Rightarrow> json list" where
  "return_json_array d = map return_json_item (case d of JArr xs \<Rightarrow> xs | _ \<Rightarrow> [d])"

definition webhook :: "json \<Rightarrow> json list list" where
  "webhook body = [return_json_array body]"

lemma return_json_item_plain:
  "\<not> js_truthy_opt (js_get x ''json'') \<Longrightarrow> return_json_item x = JObj [(''json'', x)]"
  by (auto simp: return_json_item_def js_truthy_opt_def split: option.splits)

text \<open>
  Claim C17. A callback body that is an object (or any non-array value) without a truthy
  \<open>json\<close> property is delivered verbatim: the resumed output is the single item
  \<open>{json: body}\<close>.
\<close>

theorem webhook_object_body:
  assumes "\<not> js_truthy_opt (js_get body ''json'')" and "\<forall>xs. body \<noteq> JArr xs"
  shows "webhook body = [[JObj [(''json'', body)]]]"
proof -
  have "return_json_array body = [return_json_item body]"
    using assms(2) by (cases body) (simp_all add: return_json_array_def)
  with assms(1) show ?thesis by (simp add: webhook_def return_json_item_plain)
qed

theorem webhook_object_body_witness:
  "webhook (JObj [(''decision'', JStr ''approved'')]) =
     [[JObj [(''json'', JObj [(''decision'', JStr ''approved'')])]]]"
  by (rule webhook_object_body) (simp_all add: js_truthy_opt_def)

text \<open>
  Claim C18. A callback body that is an array is not delivered as one value: each of its
  elements becomes an output item of its own.
\<close>

theorem webhook_array_split:
  assumes "\<forall>x\<in>set xs. \<not> js_truthy_opt (js_get x ''json'')"
  shows "webhook (JArr xs) = [map (\<lambda>x. JObj [(''json'', x)]) xs]"
  using assms by (simp add: webhook_def return_json_array_def return_json_item_plain)

theorem webhook_array_split_witness:
  "webhook (JArr [JObj [(''decision'', JStr ''approved'')], JNum 7]) =
     [[JObj [(''json'', JObj [(''decision'', JStr ''approved'')])], JObj [(''json'', JNum 7)]]]"
  using webhook_array_split [of "[JObj [(''decision'', JStr ''approved'')], JNum 7]"]
  by (simp add: js_truthy_opt_def)

text \<open>
  Claim C19. A callback body with a truthy \<open>json\<close> property is taken as an execution item
  itself: the output item is the body, so the resumed node's data is the value of that
  property, not the body.
\<close>

theorem webhook_json_key:
  assumes "js_get body ''json'' = Some j" and "js_truthy j"
  shows "webhook body = [[body]]"
proof -
  obtain ps where ps: "body = JObj ps" and j: "map_of ps ''json'' = Some j"
    using assms(1) by (cases body) auto
  from j have "AList.update ''json'' j ps = ps" by (rule update_triv)
  with ps j assms(2) show ?thesis
    by (simp add: webhook_def return_json_array_def return_json_item_def)
qed

theorem webhook_json_key_witness:
  "webhook (JObj [(''json'', JObj [(''x'', JNum 1)]), (''y'', JNum 2)]) =
     [[JObj [(''json'', JObj [(''x'', JNum 1)]), (''y'', JNum 2)]]]"
  by (rule webhook_json_key [where j = "JObj [(''x'', JNum 1)]"]) simp_all

end
