(* ===== verification/Host_Protocol.thy ===== *)
theory Host_Protocol
  imports Execute Webhook
begin

text \<open>
  The host's suspend/resume protocol around the node. When \<open>execute\<close> returns after
  \<open>putExecutionToWait(waitTill)\<close>, n8n parks the execution; the node's callback URL
  (\<open>$execution.resumeUrl\<close> followed by \<open>/\<close> and the node id, \<open>webhook_url\<close>) routes a
  later POST to that execution, whose node output then is \<open>webhook\<close> of the body; when the
  deadline passes first, the execution resumes with the data \<open>execute\<close> returned. This
  code is the host's, not the repository's; it is modelled from the spec's two-phase
  protocol (\<open>scheduleResume\<close>, \<open>onExternalEvent\<close>) on top of the node's own
  \<open>execute\<close>, \<open>webhook_url\<close> and \<open>webhook\<close>.
\<close>

type_synonym exec_id = nat

text \<open>\<open>$execution.resumeUrl\<close>: the host's waiting-webhook base and the execution id.\<close>

definition waiting_base :: string where
  "waiting_base = ''https://host/webhook-waiting''"

definition resume_url :: "exec_id \<Rightarrow> string" where
  "resume_url e = waiting_base @ ''/'' @ nat_str e"

definition resume_token :: "exec_id \<Rightarrow> string \<Rightarrow> string" where
  "resume_token e n = webhook_url (resume_url e) n"

text \<open>
  Routing a callback URL to the parked execution it names: the execution id is the path
  segment after the base, the node id the rest; the id must be the execution's own
  spelling (the host looks executions up by their id string).
\<close>

definition decode_token :: "string \<Rightarrow> (exec_id \<times> string) option" where
  "decode_token u =
     (let p = waiting_base @ ''/'' in
      if prefix p u then
        (let r = drop (length p) u; ds = takeWhile is_digit r in
         case dropWhile is_digit r of
           c # n \<Rightarrow>
             (let e = fst (parse_digits 0 ds) in
              if c = CHR ''/'' \<and> resume_token e n = u then Some (e, n) else None)
         | [] \<Rightarrow> None)
      else None)"

text \<open>A parked node: its deadline and the output of the timeout path; or its resumed output.\<close>

datatype wait_entry = Parked int "json list list" | Resumed "json list list"

record host_state =
  waits :: "(exec_id \<times> string) \<Rightarrow> wait_entry option"
  clock :: int

text \<open>
  The host runs the node: the items' \<open>resumeUrl\<close> and node id are the execution's, the
  clock is the host's; a \<open>Waiting\<close> outcome with a valid deadline parks the node
  (\<open>scheduleResume\<close>).
\<close>

definition host_items :: "exec_id \<Rightarrow> string \<Rightarrow> item_env list \<Rightarrow> item_env list" where
  "host_items e n ies =
     map (\<lambda>ie. ie\<lparr>ie_params := (ie_params ie)\<lparr>p_resumeUrl := resume_url e, p_nodeId := n\<rparr>\<rparr>) ies"

definition run_node :: "exec_id \<Rightarrow> string \<Rightarrow> exec_env \<Rightarrow> host_state \<Rightarrow> host_state \<times> exec_outcome" where
  "run_node e n env hs =
     (let out = execute (env\<lparr>items := host_items e n (items env), now := clock hs\<rparr>) in
      case out of
        Waiting (Some dl) ret _ \<Rightarrow> (hs\<lparr>waits := (waits hs)((e, n) \<mapsto> Parked dl [ret])\<rparr>, out)
      | _ \<Rightarrow> (hs, out))"

text \<open>\<open>onExternalEvent\<close>: a POST to a callback URL resumes the node it names, once, before its deadline.\<close>

definition on_callback :: "string \<Rightarrow> json \<Rightarrow> host_state \<Rightarrow> host_state \<times> json list list option" where
  "on_callback u body hs =
     (case decode_token u of
        None \<Rightarrow> (hs, None)
      | Some k \<Rightarrow>
          (case waits hs k of
             Some (Parked dl _) \<Rightarrow>
               if clock hs < dl then (hs\<lparr>waits := (waits hs)(k \<mapsto> Resumed (webhook body))\<rparr>, Some (webhook body))
               else (hs, None)
           | _ \<Rightarrow> (hs, None)))"

text \<open>Time passes: every node whose deadline is reached resumes on the timeout path.\<close>

definition expire :: "int \<Rightarrow> wait_entry \<Rightarrow> wait_entry" where
  "expire t w = (case w of Parked dl ret \<Rightarrow> if dl \<le> t then Resumed ret else w | _ \<Rightarrow> w)"

definition tick :: "int \<Rightarrow> host_state \<Rightarrow> host_state" where
  "tick t hs = hs\<lparr>clock := t, waits := (\<lambda>k. map_option (expire t) (waits hs k))\<rparr>"

datatype host_event = RunNode exec_id string exec_env | Callback string json | Tick int

inductive host_step :: "host_state \<Rightarrow> host_event \<Rightarrow> host_state \<Rightarrow> bool" where
  run: "waits hs (e, n) = None \<Longrightarrow> host_step hs (RunNode e n env) (fst (run_node e n env hs))"
| callback: "host_step hs (Callback u body) (fst (on_callback u body hs))"
| tick: "clock hs \<le> t \<Longrightarrow> host_step hs (Tick t) (tick t hs)"

inductive reachable :: "host_state \<Rightarrow> bool" where
  init: "reachable \<lparr>waits = Map.empty, clock = t\<rparr>"
| step: "reachable hs \<Longrightarrow> host_step hs ev hs' \<Longrightarrow> reachable hs'"

inductive_cases host_step_RunNode: "host_step hs (RunNode e n env) hs'"
inductive_cases host_step_Callback: "host_step hs (Callback u body) hs'"
inductive_cases host_step_Tick: "host_step hs (Tick t) hs'"

text \<open>A host with no parked node, and the same host after running the example execution.\<close>

definition example_host :: host_state where
  "example_host = \<lparr>waits = Map.empty, clock = 1700000000000\<rparr>"

definition example_parked :: host_state where
  "example_parked = fst (run_node 7 ''n1'' example_env example_host)"

definition example_callback_body :: json where
  "example_callback_body = JObj [(''decision'', JStr ''approved'')]"

subsection \<open>Callback URLs\<close>

lemma slash_not_digit [simp]: "\<not> is_digit (CHR ''/'')"
  by (simp add: is_digit_def)

lemma parse_digits_nat_str: "parse_digits 0 (nat_str e) = (e, [])"
  using parse_digits_append [OF nat_str_is_digit, of 0 e "[]"] foldl_nat_str [of 0 e] by simp

lemma resume_token_split: "resume_token e n = (waiting_base @ ''/'') @ nat_str e @ CHR ''/'' # n"
  by (simp add: resume_token_def resume_url_def webhook_url_def)

subsection \<open>Steps\<close>

lemma run_node_outcome:
  "snd (run_node e n env hs) = execute (env\<lparr>items := host_items e n (items env), now := clock hs\<rparr>)"
  by (simp add: run_node_def Let_def split: exec_outcome.splits option.splits)

lemma run_node_deadline:
  assumes "snd (run_node e n env hs) = Waiting (Some dl) ret reqs"
  shows "clock hs < dl"
proof -
  let ?env = "env\<lparr>items := host_items e n (items env), now := clock hs\<rparr>"
  have ex: "execute ?env = Waiting (Some dl) ret reqs" using assms by (simp add: run_node_outcome)
  have "0 < foldl next_wait default_wait (ok_responses (items ?env))"
    by (rule fold_next_wait_pos) (simp add: default_wait_def)
  with waiting_deadline [OF ex] show ?thesis by (auto simp: time_clip_def split: if_splits)
qed

lemma run_node_waits:
  assumes "run_node e n env hs = (hs', out)"
  shows "clock hs' = clock hs"
    and "k \<noteq> (e, n) \<Longrightarrow> waits hs' k = waits hs k"
    and "waits hs' (e, n) = Some w \<Longrightarrow> waits hs (e, n) = Some w \<or> (\<exists>dl ret. w = Parked dl [ret] \<and> clock hs < dl)"
proof -
  let ?env = "env\<lparr>items := host_items e n (items env), now := clock hs\<rparr>"
  show "clock hs' = clock hs" "k \<noteq> (e, n) \<Longrightarrow> waits hs' k = waits hs k"
    using assms by (auto simp: run_node_def Let_def split: exec_outcome.splits option.splits)
  assume w: "waits hs' (e, n) = Some w"
  show "waits hs (e, n) = Some w \<or> (\<exists>dl ret. w = Parked dl [ret] \<and> clock hs < dl)"
  proof (cases "execute ?env")
    case (Waiting d ret reqs)
    show ?thesis
    proof (cases d)
      case (Some dl)
      with Waiting have "snd (run_node e n env hs) = Waiting (Some dl) ret reqs"
        by (simp add: run_node_outcome)
      then have "clock hs < dl" by (rule run_node_deadline)
      with Waiting Some assms w show ?thesis by (auto simp: run_node_def Let_def)
    qed (use Waiting assms w in \<open>simp add: run_node_def Let_def\<close>)
  qed (use assms w in \<open>simp add: run_node_def Let_def\<close>)
qed

lemma on_callback_cases:
  assumes "on_callback u body hs = (hs', r)"
  shows "clock hs' = clock hs \<and>
         ((hs' = hs \<and> r = None) \<or>
          (\<exists>e n dl ret. decode_token u = Some (e, n) \<and> waits hs (e, n) = Some (Parked dl ret) \<and>
             clock hs < dl \<and> r = Some (webhook body) \<and>
             waits hs' = (waits hs)((e, n) \<mapsto> Resumed (webhook body))))"
  using assms by (auto simp: on_callback_def split: option.splits wait_entry.splits if_splits)

lemma decode_resume_token: "decode_token (resume_token e n) = Some (e, n)"
proof -
  have d: "\<And>x. x \<in> set (nat_str e) \<Longrightarrow> is_digit x" using nat_str_is_digit by blast
  have "takeWhile is_digit (nat_str e @ CHR ''/'' # n) = nat_str e"
    by (simp add: takeWhile_append2 d)
  moreover have "dropWhile is_digit (nat_str e @ CHR ''/'' # n) = CHR ''/'' # n"
    by (simp add: dropWhile_append2 d)
  ultimately show ?thesis
    by (simp add: decode_token_def Let_def resume_token_split [of e n] parse_digits_nat_str
        del: append_assoc)
qed

lemma host_items_params:
  "ie \<in> set (host_items e n ies) \<Longrightarrow>
   p_resumeUrl (ie_params ie) = resume_url e \<and> p_nodeId (ie_params ie) = n"
  by (auto simp: host_items_def)

lemma tick_parked:
  "waits (tick t hs) k = Some (Parked dl ret) \<longleftrightarrow> waits hs k = Some (Parked dl ret) \<and> t < dl"
  by (cases "waits hs k") (auto simp: tick_def expire_def split: wait_entry.splits)

lemma run_node_sent_url:
  assumes "rq \<in> set (outcome_requests (snd (run_node e n env hs)))"
  shows "\<exists>b. rq_body rq = Some b \<and> js_get b ''webhookUrl'' = Some (JStr (resume_token e n))"
proof -
  let ?env = "env\<lparr>items := host_items e n (items env), now := clock hs\<rparr>"
  obtain ie rq0 where ie: "ie \<in> set (host_items e n (items env))"
    and b: "item_request (ie_params ie) = Inr rq0" and rq: "rq = authenticate (api_key env) rq0"
    using execute_sent_built [of rq ?env] assms by (auto simp: run_node_outcome)
  from b have "build_request (ie_params ie) = Inr rq0"
    by (simp add: item_request_def split: if_splits)
  then obtain meta mapped form_id where
    "rq0 = review_request (serialize_body (build_body form_id mapped meta (resolve_assignees (ie_params ie))
       (update_review_id (ie_params ie)) (webhook_url (p_resumeUrl (ie_params ie)) (p_nodeId (ie_params ie)))))"
    by (rule build_request_Inr)
  with host_items_params [OF ie] rq show ?thesis
    by (simp add: review_request_def body_webhookUrl resume_token_def [symmetric])
qed

lemma run_node_parks:
  assumes "run_node e n env hs = (hs', Waiting (Some dl) ret reqs)"
  shows "waits hs' = (waits hs)((e, n) \<mapsto> Parked dl [ret]) \<and> clock hs' = clock hs \<and> clock hs < dl"
proof -
  have "clock hs < dl" using assms by (intro run_node_deadline [of e n env hs dl ret reqs]) simp
  with assms show ?thesis by (auto simp: run_node_def Let_def split: exec_outcome.splits option.splits)
qed

lemma reachable_parked_future:
  "reachable hs \<Longrightarrow> waits hs k = Some (Parked dl ret) \<Longrightarrow> clock hs < dl"
proof (induction arbitrary: k dl ret rule: reachable.induct)
  case (init t)
  then show ?case by simp
next
  case (step hs ev hs')
  from step.hyps(2) step.IH step.prems show ?case
  proof (cases rule: host_step.cases)
    case (run e n env)
    obtain out where r: "run_node e n env hs = (hs', out)"
      using run(2) by (metis prod.collapse)
    show ?thesis
    proof (cases "k = (e, n)")
      case True
      with run(3) step.prems have "waits hs' (e, n) = Some (Parked dl ret)" "waits hs (e, n) = None"
        by simp_all
      with run_node_waits(3) [OF r] run_node_waits(1) [OF r] show ?thesis by auto
    next
      case False
      with run_node_waits(1,2) [OF r] step.prems step.IH show ?thesis by auto
    qed
  next
    case (callback u body)
    obtain r where c: "on_callback u body hs = (hs', r)"
      using callback(2) by (metis prod.collapse)
    from on_callback_cases [OF c] step.prems step.IH [of k] show ?thesis
      by (auto split: if_splits)
  next
    case (tick t)
    with step.prems show ?thesis by (simp add: tick_parked, simp add: tick_def)
  qed
qed

text \<open>
  Claim C24. In every reachable host state, every parked node can still be resumed both
  ways: its deadline is after the host's clock, so a callback to its URL resumes it with
  the \<open>webhook\<close> output of the body, and the clock reaching its deadline resumes it with
  the data \<open>execute\<close> returned.
\<close>

theorem parked_resumable:
  assumes "reachable hs" and "waits hs (e, n) = Some (Parked dl ret)"
  shows "(\<exists>hs'. host_step hs (Callback (resume_token e n) body) hs' \<and>
                waits hs' (e, n) = Some (Resumed (webhook body))) \<and>
         (\<exists>hs'. host_step hs (Tick dl) hs' \<and> waits hs' (e, n) = Some (Resumed ret))"
proof -
  have c: "clock hs < dl" using reachable_parked_future [OF assms] .
  have "host_step hs (Callback (resume_token e n) body) (fst (on_callback (resume_token e n) body hs))"
    by (rule host_step.callback)
  moreover have "waits (fst (on_callback (resume_token e n) body hs)) (e, n) = Some (Resumed (webhook body))"
    using assms(2) c by (simp add: on_callback_def decode_resume_token)
  moreover have "host_step hs (Tick dl) (tick dl hs)"
    using c by (intro host_step.tick) simp
  moreover have "waits (tick dl hs) (e, n) = Some (Resumed ret)"
    using assms(2) by (simp add: tick_def expire_def)
  ultimately show ?thesis by blast
qed

lemma example_parked_reachable: "reachable example_parked"
proof -
  have h: "reachable example_host" by (simp add: example_host_def reachable.init)
  have "host_step example_host (RunNode 7 ''n1'' example_env) example_parked"
    unfolding example_parked_def by (rule host_step.run) (simp add: example_host_def)
  with h show ?thesis by (rule reachable.step)
qed

theorem parked_resumable_witness:
  "(\<exists>hs'. host_step example_parked (Callback (resume_token 7 ''n1'') example_callback_body) hs' \<and>
          waits hs' (7, ''n1'') = Some (Resumed (webhook example_callback_body))) \<and>
   (\<exists>hs'. host_step example_parked (Tick 1700000001000) hs' \<and>
          waits hs' (7, ''n1'') = Some (Resumed [[JObj [(''n'', JNum 1)], JObj [(''n'', JNum 2)]]]))"
proof -
  have "waits example_parked (7, ''n1'') =
          Some (Parked 1700000001000 [[JObj [(''n'', JNum 1)], JObj [(''n'', JNum 2)]]])"
    by code_simp
  with parked_resumable [OF example_parked_reachable] show ?thesis by blast
qed

text \<open>
  Claim C27. The request/suspend/resume protocol end to end: when the host runs node \<open>n\<close>
  of execution \<open>e\<close> and the node suspends with a valid deadline, every request it sent
  carries a callback URL that, called at any time before the deadline, resumes exactly
  that node with \<open>webhook\<close> of the callback body as its output and leaves every other
  node as it was.
\<close>

theorem sent_url_resumes:
  assumes "run_node e n env hs = (hs1, Waiting (Some dl) ret reqs)" and "rq \<in> set reqs"
  shows "\<exists>b u. rq_body rq = Some b \<and> js_get b ''webhookUrl'' = Some (JStr u) \<and>
           (\<forall>t. clock hs \<le> t \<and> t < dl \<longrightarrow>
              (\<exists>hs'. on_callback u body (tick t hs1) = (hs', Some (webhook body)) \<and>
                     waits hs' (e, n) = Some (Resumed (webhook body)) \<and>
                     (\<forall>k. k \<noteq> (e, n) \<longrightarrow> waits hs' k = waits (tick t hs1) k)))"
proof -
  have "rq \<in> set (outcome_requests (snd (run_node e n env hs)))" using assms by simp
  then obtain b where b: "rq_body rq = Some b" "js_get b ''webhookUrl'' = Some (JStr (resume_token e n))"
    using run_node_sent_url by blast
  have p: "waits hs1 = (waits hs)((e, n) \<mapsto> Parked dl [ret])" and c: "clock hs1 = clock hs"
    using run_node_parks [OF assms(1)] by auto
  have "\<exists>hs'. on_callback (resume_token e n) body (tick t hs1) = (hs', Some (webhook body)) \<and>
           waits hs' (e, n) = Some (Resumed (webhook body)) \<and>
           (\<forall>k. k \<noteq> (e, n) \<longrightarrow> waits hs' k = waits (tick t hs1) k)" if "t < dl" for t
  proof -
    have "waits (tick t hs1) (e, n) = Some (Parked dl [ret])" using p that by (simp add: tick_parked)
    moreover have "clock (tick t hs1) = t" by (simp add: tick_def)
    ultimately show ?thesis using that by (simp add: on_callback_def decode_resume_token)
  qed
  with b show ?thesis by blast
qed

theorem sent_url_resumes_witness:
  "\<exists>rq b u. rq \<in> set (outcome_requests (snd (run_node 7 ''n1'' example_env example_host))) \<and>
     rq_body rq = Some b \<and> js_get b ''webhookUrl'' = Some (JStr u) \<and>
     (\<exists>hs'. on_callback u example_callback_body (tick 1700000000500 example_parked) =
              (hs', Some (webhook example_callback_body)))"
proof -
  have "case snd (run_node 7 ''n1'' example_env example_host) of
          Waiting (Some d) _ rs \<Rightarrow> d = 1700000001000 \<and> rs \<noteq> [] | _ \<Rightarrow> False"
    by code_simp
  then obtain ret reqs where w: "snd (run_node 7 ''n1'' example_env example_host) = Waiting (Some 1700000001000) ret reqs"
    and ne: "reqs \<noteq> []"
    by (auto split: exec_outcome.splits option.splits)
  then have r: "run_node 7 ''n1'' example_env example_host = (example_parked, Waiting (Some 1700000001000) ret reqs)"
    by (metis example_parked_def prod.collapse)
  obtain rq where rq: "rq \<in> set reqs" using ne by (meson list.set_sel(1))
  have c: "clock example_host \<le> 1700000000500" by (simp add: example_host_def)
  from sent_url_resumes [OF r rq, of example_callback_body] c rq w show ?thesis by fastforce
qed

end
