(* ===== verification/Templates.thy ===== *)
theory Templates
  imports Credentials
begin

text \<open>
  The editor's helpers in \<open>methods\<close> of \<open>src/nodes/GotoHuman/GotoHuman.node.ts\<close>:
  \<open>searchReviewTemplates\<close> (lines 318--354) lists the account's review templates whose
  label contains the typed filter, ignoring case; \<open>getMappingFields\<close> (lines 357--390)
  loads the field schema of the chosen template. Both send one authenticated GET; the
  parsed answer of the service is an argument (\<open>None\<close> for \<open>undefined\<close>).
  \<open>toLowerCase\<close> is modelled on ASCII letters, the rest of a UTF-8 byte string is kept.
\<close>

subsection \<open>Strings\<close>

definition lower_char :: "char \<Rightarrow> char" where
  "lower_char c =
     (if (65::nat) \<le> of_char c \<and> of_char c \<le> (90::nat) then char_of (of_char c + (32::nat)) else c)"

definition to_lower :: "string \<Rightarrow> string" where
  "to_lower s = map lower_char s"

text \<open>\<open>s.includes(t)\<close>, searching from every position in turn.\<close>

fun js_includes :: "string \<Rightarrow> string \<Rightarrow> bool" where
  "js_includes [] t = (t = [])"
| "js_includes (c # s) t = (prefix t (c # s) \<or> js_includes s t)"

subsection \<open>\<open>searchReviewTemplates\<close>\<close>

definition forms_request :: http_request where
  "forms_request =
     \<lparr>rq_method = GET, rq_uri = base_url @ ''/fetchN8nForms'', rq_qs = [], rq_body = None,
      rq_headers = []\<rparr>"

text \<open>\<open>!filter || template.label.toLowerCase().includes(filter.toLowerCase())\<close>.\<close>

definition form_matches :: "string option \<Rightarrow> json \<Rightarrow> node_error + bool" where
  "form_matches flt t =
     (case flt of
        None \<Rightarrow> Inr True
      | Some f \<Rightarrow>
          if f = [] then Inr True
          else (case read_prop t ''label'' of
                  Inl e \<Rightarrow> Inl e
                | Inr (Some (JStr l)) \<Rightarrow> Inr (js_includes (to_lower l) (to_lower f))
                | Inr _ \<Rightarrow> Inl (TypeError ''toLowerCase'')))"

fun filter_forms :: "string option \<Rightarrow> json list \<Rightarrow> node_error + json list" where
  "filter_forms flt [] = Inr []"
| "filter_forms flt (t # ts) =
     (case form_matches flt t of
        Inl e \<Rightarrow> Inl e
      | Inr b \<Rightarrow> (case filter_forms flt ts of
                   Inl e \<Rightarrow> Inl e
                 | Inr us \<Rightarrow> Inr (if b then t # us else us)))"

text \<open>\<open>({name: template.label, value: template.value})\<close>; undefined values are absent.\<close>

definition result_obj :: "json \<Rightarrow> json" where
  "result_obj t =
     JObj (List.map_filter (\<lambda>(k, v). map_option (\<lambda>j. (k, j)) v)
       [(''name'', js_get t ''label''), (''value'', js_get t ''value'')])"

definition form_result :: "json \<Rightarrow> node_error + json" where
  "form_result t = (if t = JNull then Inl (TypeError ''label'') else Inr (result_obj t))"

fun map_results :: "json list \<Rightarrow> node_error + json list" where
  "map_results [] = Inr []"
| "map_results (t # ts) =
     (case form_result t of
        Inl e \<Rightarrow> Inl e
      | Inr r \<Rightarrow> (case map_results ts of Inl e \<Rightarrow> Inl e | Inr rs \<Rightarrow> Inr (r # rs)))"

definition search_review_templates :: "string option \<Rightarrow> json option \<Rightarrow> node_error + json" where
  "search_review_templates flt resp =
     (case resp of
        None \<Rightarrow> Inl NoTemplatesFound
      | Some r \<Rightarrow>
          (let forms = (case js_get r ''forms'' of
                          Some f \<Rightarrow> if js_truthy f then f else JArr []
                        | None \<Rightarrow> JArr []) in
           case forms of
             JArr ts \<Rightarrow>
               (case filter_forms flt ts of
                  Inl e \<Rightarrow> Inl e
                | Inr us \<Rightarrow> (case map_results us of
                               Inl e \<Rightarrow> Inl e
                             | Inr rs \<Rightarrow> Inr (JObj [(''results'', JArr rs)])))
           | _ \<Rightarrow> Inl (TypeError ''filter'')))"

subsection \<open>\<open>getMappingFields\<close>\<close>

definition fields_request :: "json \<Rightarrow> http_request" where
  "fields_request tmpl =
     \<lparr>rq_method = GET, rq_uri = base_url @ ''/fetchN8nFields'',
      rq_qs = (case js_get tmpl ''value'' of Some v \<Rightarrow> [(''formId'', v)] | None \<Rightarrow> []),
      rq_body = None, rq_headers = []\<rparr>"

text \<open>
  The request is sent only when the template parameter is truthy; its answer is
  \<open>resp\<close>. The result is the request sent, if any, and the method's value.
\<close>

definition get_mapping_fields ::
  "json \<Rightarrow> json option \<Rightarrow> http_request option \<times> (node_error + json)" where
  "get_mapping_fields tmpl resp =
     (if \<not> js_truthy tmpl then (None, Inr (JObj [(''fields'', JArr [])]))
      else (Some (fields_request tmpl),
            case resp of
              Some r \<Rightarrow> (case js_get r ''fields'' of
                          Some fs \<Rightarrow> Inr (JObj [(''fields'', fs)])
                        | None \<Rightarrow> Inl NoFieldsFound)
            | None \<Rightarrow> Inl NoFieldsFound))"

text \<open>A template list as the service sends it, used by the witnesses below.\<close>

definition ex_forms :: json where
  "ex_forms = JObj [(''forms'', JArr [JObj [(''value'', JStr ''t1''), (''label'', JStr ''Blog Post Review'')],
                                     JObj [(''value'', JStr ''t2''), (''label'', JStr ''Invoice'')]])]"

subsection \<open>Reference behaviour\<close>

text \<open>A template is listed when there is no filter or its label contains the filter.\<close>

definition label_matches :: "string option \<Rightarrow> json \<Rightarrow> bool" where
  "label_matches flt t =
     (case flt of
        None \<Rightarrow> True
      | Some f \<Rightarrow> f = [] \<or>
          (case js_get t ''label'' of Some (JStr l) \<Rightarrow> sublist (to_lower f) (to_lower l) | _ \<Rightarrow> False))"

definition well_formed_form :: "json \<Rightarrow> bool" where
  "well_formed_form t \<longleftrightarrow> (case js_get t ''label'' of Some (JStr _) \<Rightarrow> True | _ \<Rightarrow> False)"

subsection \<open>Properties\<close>

lemma js_includes_sublist: "js_includes s t \<longleftrightarrow> sublist t s"
  by (induction s) (auto simp: sublist_Cons_right)

lemma well_formed_form_not_null: "well_formed_form t \<Longrightarrow> t \<noteq> JNull"
  by (auto simp: well_formed_form_def)

lemma form_matches_ref:
  "well_formed_form t \<Longrightarrow> form_matches flt t = Inr (label_matches flt t)"
  by (auto simp: form_matches_def label_matches_def well_formed_form_def read_prop_def
      js_includes_sublist split: option.splits json.splits)

lemma filter_forms_ref:
  "\<forall>t\<in>set ts. well_formed_form t \<Longrightarrow> filter_forms flt ts = Inr (filter (label_matches flt) ts)"
  by (induction ts) (auto simp: form_matches_ref)

lemma map_results_ref:
  "\<forall>t\<in>set ts. t \<noteq> JNull \<Longrightarrow> map_results ts = Inr (map result_obj ts)"
  by (induction ts) (auto simp: form_result_def)

text \<open>
  Claim C21. When the service lists its templates as objects with string labels, the search
  answers exactly the templates whose lower-cased label contains the lower-cased filter
  (all of them without a filter), in the service's order, as \<open>{name: label, value}\<close>.
\<close>

theorem search_templates_filter:
  assumes "js_get r ''forms'' = Some (JArr ts)" and "\<forall>t\<in>set ts. well_formed_form t"
  shows "search_review_templates flt (Some r) =
           Inr (JObj [(''results'', JArr (map result_obj (filter (label_matches flt) ts)))])"
proof -
  have "filter_forms flt ts = Inr (filter (label_matches flt) ts)"
    using assms(2) by (rule filter_forms_ref)
  moreover have "map_results (filter (label_matches flt) ts) =
                 Inr (map result_obj (filter (label_matches flt) ts))"
    using assms(2) by (intro map_results_ref) (auto dest: well_formed_form_not_null)
  ultimately show ?thesis using assms(1)
    by (simp add: search_review_templates_def Let_def)
qed

theorem search_templates_filter_witness:
  "search_review_templates (Some ''post'') (Some ex_forms) =
     Inr (JObj [(''results'', JArr [JObj [(''name'', JStr ''Blog Post Review''), (''value'', JStr ''t1'')]])])"
proof -
  have "search_review_templates (Some ''post'') (Some ex_forms) =
     Inr (JObj [(''results'', JArr (map result_obj (filter (label_matches (Some ''post''))
        [JObj [(''value'', JStr ''t1''), (''label'', JStr ''Blog Post Review'')],
         JObj [(''value'', JStr ''t2''), (''label'', JStr ''Invoice'')]])))])"
    by (rule search_templates_filter) (simp_all add: ex_forms_def well_formed_form_def)
  also have "\<dots> = Inr (JObj [(''results'', JArr [JObj [(''name'', JStr ''Blog Post Review''), (''value'', JStr ''t1'')]])])"
    by code_simp
  finally show ?thesis .
qed

text \<open>
  Claim C22. For a chosen template, the field schema is requested with the template's id
  as \<open>formId\<close>, and an answer without \<open>fields\<close> (or no answer) is the user-facing error
  \<open>NoFieldsFound\<close>; without a chosen template no request is made and the schema is empty.
\<close>

theorem get_mapping_fields_missing:
  assumes "js_get tmpl ''value'' = Some v" and "\<forall>r. resp = Some r \<longrightarrow> js_get r ''fields'' = None"
  shows "get_mapping_fields tmpl resp = (Some (fields_request tmpl), Inl NoFieldsFound) \<and>
         rq_qs (fields_request tmpl) = [(''formId'', v)] \<and>
         get_mapping_fields JNull resp = (None, Inr (JObj [(''fields'', JArr [])]))"
proof -
  have "js_truthy tmpl" using assms(1) by (rule js_get_truthy)
  with assms show ?thesis
    by (auto simp: get_mapping_fields_def fields_request_def split: option.splits)
qed

theorem get_mapping_fields_missing_witness:
  "get_mapping_fields (JObj [(''mode'', JStr ''list''), (''value'', JStr ''t1'')]) (Some (JObj [(''formId'', JStr ''t1'')]))
     = (Some (fields_request (JObj [(''mode'', JStr ''list''), (''value'', JStr ''t1'')])), Inl NoFieldsFound)"
  using get_mapping_fields_missing [of "JObj [(''mode'', JStr ''list''), (''value'', JStr ''t1'')]" "JStr ''t1''"
      "Some (JObj [(''formId'', JStr ''t1'')])"]
  by simp

end
