(* ===== verification/Node_Description.thy ===== *)
theory Node_Description
  imports Request_Builder Credentials
begin

text \<open>
  The node description of \<open>src/nodes/GotoHuman/GotoHuman.node.ts\<close> (lines 7--314): the
  node's header (credentials, the resume webhook) and its eleven editor parameters, each
  with its type, default, and display conditions (\<open>displayOptions.show/hide\<close>), and the
  credential type of \<open>src/credentials/GotoHumanApi.credentials.ts\<close>. The host's reading
  of this data is modelled from n8n's semantics: a parameter's value is the one the user
  set or else its default, and a parameter is displayed when every \<open>show\<close> condition
  names a value its parameter has and no \<open>hide\<close> condition does (a resource-locator
  value is compared by its \<open>value\<close>). \<open>execute_reads\<close> lists the parameters
  \<open>execute\<close> reads for an item, in its order (lines 401--433).
\<close>

subsection \<open>Parameters\<close>

text \<open>The parameter types the description uses, with what each type carries.\<close>

datatype param_kind =
    Options "string list"
  | ResourceLocator "string list"
  | ResourceMapper string
  | JsonParam
  | FixedCollection "(string \<times> (string \<times> json) list) list"
  | Collection "(string \<times> json) list"
  | StringParam

record node_param =
  np_name :: string
  np_kind :: param_kind
  np_default :: json
  np_required :: bool
  np_no_expr :: bool
  np_show :: "(string \<times> json list) list"
  np_hide :: "(string \<times> json list) list"

text \<open>The conditions shared by the parameters below the template selector.\<close>

abbreviation review_show :: "(string \<times> json list) list" where
  "review_show \<equiv> [(''resource'', [JStr ''reviewRequest'']), (''operation'', [JStr ''sendAndWait''])]"

abbreviation no_template_hide :: "(string \<times> json list) list" where
  "no_template_hide \<equiv> [(''reviewTemplateID'', [JStr ''''])]"

definition param_resource :: node_param where
  "param_resource =
     \<lparr>np_name = ''resource'', np_kind = Options [''reviewRequest''],
      np_default = JStr ''reviewRequest'', np_required = True, np_no_expr = True,
      np_show = [], np_hide = []\<rparr>"

definition param_operation :: node_param where
  "param_operation =
     \<lparr>np_name = ''operation'', np_kind = Options [''sendAndWait''],
      np_default = JStr ''sendAndWait'', np_required = False, np_no_expr = True,
      np_show = [(''resource'', [JStr ''reviewRequest''])], np_hide = []\<rparr>"

definition param_template :: node_param where
  "param_template =
     \<lparr>np_name = ''reviewTemplateID'', np_kind = ResourceLocator [''list'', ''id''],
      np_default = JObj [(''mode'', JStr ''list''), (''value'', JStr '''')],
      np_required = False, np_no_expr = False, np_show = review_show, np_hide = []\<rparr>"

definition param_fields :: node_param where
  "param_fields =
     \<lparr>np_name = ''fields'', np_kind = ResourceMapper ''getMappingFields'',
      np_default = JObj [(''mappingMode'', JStr ''defineBelow''), (''value'', JNull)],
      np_required = True, np_no_expr = True, np_show = review_show, np_hide = no_template_hide\<rparr>"

definition param_metaSelect :: node_param where
  "param_metaSelect =
     \<lparr>np_name = ''metaSelect'', np_kind = Options [''no'', ''json'', ''keyValue''],
      np_default = JStr ''no'', np_required = True, np_no_expr = False,
      np_show = review_show, np_hide = no_template_hide\<rparr>"

definition param_metaJson :: node_param where
  "param_metaJson =
     \<lparr>np_name = ''metaJson'', np_kind = JsonParam, np_default = JStr '''',
      np_required = False, np_no_expr = False,
      np_show = review_show @ [(''metaSelect'', [JStr ''json''])], np_hide = no_template_hide\<rparr>"

definition param_metaKeyValues :: node_param where
  "param_metaKeyValues =
     \<lparr>np_name = ''metaKeyValues'',
      np_kind = FixedCollection [(''metaArray'', [(''key'', JStr ''''), (''value'', JStr '''')])],
      np_default = JObj [], np_required = False, np_no_expr = False,
      np_show = review_show @ [(''metaSelect'', [JStr ''keyValue''])], np_hide = no_template_hide\<rparr>"

definition param_assignToSelect :: node_param where
  "param_assignToSelect =
     \<lparr>np_name = ''assignToSelect'', np_kind = Options [''all'', ''selectByEmail''],
      np_default = JStr ''all'', np_required = True, np_no_expr = False,
      np_show = review_show, np_hide = no_template_hide\<rparr>"

definition param_assignTo :: node_param where
  "param_assignTo =
     \<lparr>np_name = ''assignTo'', np_kind = FixedCollection [(''values'', [(''email'', JStr '''')])],
      np_default = JArr [], np_required = False, np_no_expr = False,
      np_show = review_show @ [(''assignToSelect'', [JStr ''selectByEmail''])],
      np_hide = no_template_hide\<rparr>"

definition param_additionalFields :: node_param where
  "param_additionalFields =
     \<lparr>np_name = ''additionalFields'', np_kind = Collection [(''updateForReviewId'', JStr '''')],
      np_default = JObj [], np_required = False, np_no_expr = False,
      np_show = review_show, np_hide = no_template_hide\<rparr>"

definition gotohuman_properties :: "node_param list" where
  "gotohuman_properties =
     [param_resource, param_operation, param_template, param_fields, param_metaSelect,
      param_metaJson, param_metaKeyValues, param_assignToSelect, param_assignTo,
      param_additionalFields]"

subsection \<open>The node header and the credential type\<close>

record webhook_desc =
  wh_name :: string
  wh_method :: http_method
  wh_response_mode :: string
  wh_path :: string
  wh_restart :: bool
  wh_full_path :: bool

record node_header =
  nh_name :: string
  nh_version :: int
  nh_credentials :: "(string \<times> bool) list"
  nh_webhooks :: "webhook_desc list"

definition gotohuman_header :: node_header where
  "gotohuman_header =
     \<lparr>nh_name = ''gotoHuman'', nh_version = node_version,
      nh_credentials = [(''gotoHumanApi'', True)],
      nh_webhooks = [\<lparr>wh_name = ''default'', wh_method = POST, wh_response_mode = ''onReceived'',
                      wh_path = ''={{ $nodeId }}'', wh_restart = True, wh_full_path = True\<rparr>]\<rparr>"

record credential_type =
  ct_name :: string
  ct_properties :: "node_param list"
  ct_header :: string

definition gotohuman_api :: credential_type where
  "gotohuman_api =
     \<lparr>ct_name = ''gotoHumanApi'',
      ct_properties = [\<lparr>np_name = ''apiKey'', np_kind = StringParam, np_default = JStr '''',
                         np_required = False, np_no_expr = False, np_show = [], np_hide = []\<rparr>],
      ct_header = ''x-api-key''\<rparr>"

subsection \<open>The host's reading of the description\<close>

text \<open>The values the user set, by parameter name; an unset parameter has its default.\<close>

type_synonym param_values = "json jsobj"

definition param_value :: "node_param list \<Rightarrow> param_values \<Rightarrow> string \<Rightarrow> json option" where
  "param_value props pv n =
     (case map_of pv n of
        Some v \<Rightarrow> Some v
      | None \<Rightarrow> map_option np_default (find (\<lambda>p. np_name p = n) props))"

text \<open>The value a display condition compares: a resource locator by its \<open>value\<close>.\<close>

definition cond_value :: "json option \<Rightarrow> json option" where
  "cond_value v =
     (case v of
        Some (JObj ps) \<Rightarrow> (if map_of ps ''mode'' \<noteq> None then map_of ps ''value'' else v)
      | _ \<Rightarrow> v)"

definition displayed :: "node_param list \<Rightarrow> param_values \<Rightarrow> node_param \<Rightarrow> bool" where
  "displayed props pv p \<longleftrightarrow>
     list_all (\<lambda>(n, vs). \<exists>v\<in>set vs. cond_value (param_value props pv n) = Some v) (np_show p) \<and>
     list_all (\<lambda>(n, vs). \<forall>v\<in>set vs. cond_value (param_value props pv n) \<noteq> Some v) (np_hide p)"

definition displayed_name :: "node_param list \<Rightarrow> param_values \<Rightarrow> string \<Rightarrow> bool" where
  "displayed_name props pv n =
     (case find (\<lambda>p. np_name p = n) props of Some p \<Rightarrow> displayed props pv p | None \<Rightarrow> False)"

text \<open>The user's values respect the option lists (options parameters take no expressions here).\<close>

definition options_valid :: "node_param list \<Rightarrow> param_values \<Rightarrow> bool" where
  "options_valid props pv \<longleftrightarrow>
     list_all (\<lambda>p. case np_kind p of
                    Options vs \<Rightarrow> \<exists>v\<in>set vs. param_value props pv (np_name p) = Some (JStr v)
                  | _ \<Rightarrow> True) props"

subsection \<open>The parameters \<open>execute\<close> reads\<close>

definition execute_reads :: "(string \<Rightarrow> json option) \<Rightarrow> string list" where
  "execute_reads val =
     [''resource'', ''operation''] @
     (if val ''resource'' = Some (JStr ''reviewRequest'') \<and> val ''operation'' = Some (JStr ''sendAndWait'')
      then [''reviewTemplateID'', ''fields'', ''metaSelect''] @
           (if val ''metaSelect'' = Some (JStr ''json'') then [''metaJson'']
            else if val ''metaSelect'' = Some (JStr ''keyValue'') then [''metaKeyValues''] else []) @
           [''assignToSelect''] @
           (if val ''assignToSelect'' = Some (JStr ''selectByEmail'') then [''assignTo''] else []) @
           [''additionalFields'']
      else [])"

text \<open>Values a user set for one item, used by the witnesses below.\<close>

definition example_values :: param_values where
  "example_values =
     [(''reviewTemplateID'', JObj [(''mode'', JStr ''list''), (''value'', JStr ''t1'')]),
      (''metaSelect'', JStr ''json''), (''metaJson'', JStr ''{}'')]"

subsection \<open>Properties\<close>

lemmas param_defs = param_resource_def param_operation_def param_template_def param_fields_def
  param_metaSelect_def param_metaJson_def param_metaKeyValues_def param_assignToSelect_def
  param_assignTo_def param_additionalFields_def

text \<open>The value of an options parameter under valid values, one fact per options parameter.\<close>

lemma options_valid_values:
  assumes "options_valid gotohuman_properties pv"
  shows "param_value gotohuman_properties pv ''resource'' = Some (JStr ''reviewRequest'')"
    and "param_value gotohuman_properties pv ''operation'' = Some (JStr ''sendAndWait'')"
    and "param_value gotohuman_properties pv ''metaSelect'' \<in> Some ` JStr ` {''no'', ''json'', ''keyValue''}"
    and "param_value gotohuman_properties pv ''assignToSelect'' \<in> Some ` JStr ` {''all'', ''selectByEmail''}"
  using assms by (auto simp: options_valid_def gotohuman_properties_def param_defs)

text \<open>Which parameters are displayed once the resource, operation and template are set.\<close>

lemma displayed_names:
  assumes "param_value gotohuman_properties pv ''resource'' = Some (JStr ''reviewRequest'')"
    and "param_value gotohuman_properties pv ''operation'' = Some (JStr ''sendAndWait'')"
    and "cond_value (param_value gotohuman_properties pv ''reviewTemplateID'') \<noteq> Some (JStr '''')"
  shows "displayed_name gotohuman_properties pv ''resource''"
    and "displayed_name gotohuman_properties pv ''operation''"
    and "displayed_name gotohuman_properties pv ''reviewTemplateID''"
    and "displayed_name gotohuman_properties pv ''fields''"
    and "displayed_name gotohuman_properties pv ''metaSelect''"
    and "displayed_name gotohuman_properties pv ''assignToSelect''"
    and "displayed_name gotohuman_properties pv ''additionalFields''"
    and "param_value gotohuman_properties pv ''metaSelect'' = Some (JStr ''json'') \<Longrightarrow>
         displayed_name gotohuman_properties pv ''metaJson''"
    and "param_value gotohuman_properties pv ''metaSelect'' = Some (JStr ''keyValue'') \<Longrightarrow>
         displayed_name gotohuman_properties pv ''metaKeyValues''"
    and "param_value gotohuman_properties pv ''assignToSelect'' = Some (JStr ''selectByEmail'') \<Longrightarrow>
         displayed_name gotohuman_properties pv ''assignTo''"
  using assms
  by (simp_all add: displayed_name_def displayed_def gotohuman_properties_def param_defs cond_value_def)

text \<open>
  Claim C25. Once a review template is chosen, every parameter \<open>execute\<close> reads for an
  item is displayed by the editor for the values the user set: the metadata text only in
  JSON mode, the pairs only in key-value mode, the e-mail list only for selected users.
\<close>

theorem execute_reads_displayed:
  assumes "options_valid gotohuman_properties pv"
    and "cond_value (param_value gotohuman_properties pv ''reviewTemplateID'') \<noteq> Some (JStr '''')"
  shows "list_all (displayed_name gotohuman_properties pv) (execute_reads (param_value gotohuman_properties pv))"
proof -
  note v = options_valid_values [OF assms(1)]
  note d = displayed_names [OF v(1) v(2) assms(2)]
  from v(3) v(4) show ?thesis by (auto simp: execute_reads_def v(1) v(2) d)
qed

theorem execute_reads_displayed_witness:
  "list_all (displayed_name gotohuman_properties example_values)
     (execute_reads (param_value gotohuman_properties example_values))"
proof (rule execute_reads_displayed)
  show "options_valid gotohuman_properties example_values" by code_simp
  show "cond_value (param_value gotohuman_properties example_values ''reviewTemplateID'') \<noteq> Some (JStr '''')"
    by code_simp
qed

end
