(* ===== verification/Spec2Isabelle.thy ===== *)
theory Spec2Isabelle
  imports Host_Protocol Templates Node_Description
begin

text \<open>
  \<^bold>\<open>A verification development of the gotoHuman n8n node.\<close>

  The repository is one n8n community node, \<open>src/nodes/GotoHuman/GotoHuman.node.ts\<close>, and
  its credential type, \<open>src/credentials/GotoHumanApi.credentials.ts\<close>. The node's
  \<open>execute\<close> sends one review request per input item to the gotoHuman API and then puts
  the whole execution to wait; the service later POSTs the human's answer to the node's
  webhook, whose body becomes the resumed node's output. Two editor helpers list the
  account's review templates and load a template's field schema. The n8n host (parameters,
  HTTP, waiting and resuming) and the JavaScript runtime (\<open>JSON.parse\<close>,
  \<open>JSON.stringify\<close>, \<open>String\<close>, truthiness, property assignment) are the environment.

  \<^bold>\<open>Theories, in import order.\<close>
  \<^item> \<open>Prelude\<close>: JavaScript objects as insertion-ordered association lists
    (\<open>'v jsobj\<close>, updated by \<^const>\<open>AList.update\<close>), digit characters, the shared lemma
    collections \<open>jsobj_simps\<close> and \<open>node_simps\<close>.
  \<^item> \<open>Json\<close>: the \<open>json\<close> datatype for JavaScript values; truthiness, property reads,
    the assignment \<open>o[k] = v\<close> with the \<open>__proto__\<close> setter (\<open>js_assign\<close>),
    \<open>String(v)\<close> (\<open>js_String\<close>), \<open>JSON.stringify\<close> (\<open>json_print\<close>) and
    \<open>jsonParse\<close> (\<open>json_parse\<close>, a recursive-descent parser with fuel), and
    \<open>json_rejects\<close>, the texts the parser finds malformed. Modelled from the ECMAScript
    semantics, since this code is not in the repository. Its lemmas show the fuel is
    enough and the parser's answer does not depend on it.
  \<^item> \<open>Json_Roundtrip\<close>: library lemmas on the JSON model: \<open>json_parse (json_print j) =
    Some j\<close> for every value whose numbers are safe integers and whose objects have
    distinct keys (\<open>json_wf\<close>), the parser only produces such values, and
    \<open>decimal_value_rat\<close>: a number literal is read as the rational value it denotes.
  \<^item> \<open>Host\<close>: request options, the errors the node throws and their messages, output
    items, the constants \<open>BASE_URL\<close> and \<open>VERSION\<close>.
  \<^item> \<open>Credentials\<close>: \<open>authenticate\<close> (the \<open>x-api-key\<close> header) and the credential test.
  \<^item> \<open>Field_Mapper\<close> (\<open>execute\<close>, lines 435--449): \<open>parse_fields\<close> and its loop
    \<open>map_schema\<close>; reference \<open>bad_field\<close>/\<open>expected_value\<close>; claims C8--C10 (success
    against the reference, the error on the first malformed field, no values or no schema),
    C20 (a JSON string literal is sent as a string) and C23 (every failure is a genuine
    parse failure of an array- or object-typed field).
  \<^item> \<open>Request_Builder\<close> (lines 401--470): the item's parameters (\<open>item_params\<close>),
    \<open>resolve_meta\<close>, \<open>meta_from_pairs\<close>, \<open>resolve_assignees\<close>,
    \<open>update_review_id\<close>, \<open>build_body\<close>, \<open>build_request\<close>, and the body type
    \<open>body_typed\<close>; claims C11--C16 (malformed metadata fails the item first, last pair
    wins, \<open>__proto__\<close> is dropped, \<open>assignTo\<close>, \<open>webhookUrl\<close>, \<open>meta\<close> by mode) and
    C26 (every body has the type \<open>body_typed\<close>; the key is \<open>originV\<close>, not the spec's
    \<open>originVersion\<close>).
  \<^item> \<open>Submission\<close> (lines 471--486): \<open>status_code\<close>, \<open>is_error_status\<close>,
    \<open>check_response\<close>, \<open>next_wait\<close>; claims C6--C7.
  \<^item> \<open>Execute\<close> (lines 394--503): the per-item step \<open>exec_item\<close> on an
    \<open>exec_state\<close> record (wait time, \<open>returnData\<close>, the requests sent), the loop
    \<open>exec_items\<close> with \<open>continueOnFail\<close>, and \<open>execute\<close>, whose outcome is
    \<open>Failed\<close> (the error escapes, no wait) or \<open>Waiting\<close> (deadline, returned items,
    requests sent). The host's answers are inputs: per item its parameters, input JSON and
    the response (or thrown error) of its request. \<open>item_out\<close> is the entry an item
    leaves in \<open>returnData\<close>. Claims C1--C5: the deadline, fail-fast (the requests sent
    stop at the failing item), continue-on-fail, authentication, the deadline bound; C28:
    the loop invariant that under \<open>continueOnFail\<close> \<open>returnData\<close> gets one entry per
    item, in order; C29: whenever the execution waits, it returns its input items unchanged
    and has sent one request per buildable item.
  \<^item> \<open>Webhook\<close> (lines 505--510): \<open>webhook\<close> with n8n's \<open>returnJsonArray\<close>;
    claims C17--C19.
  \<^item> \<open>Host_Protocol\<close>: the host's two-phase suspend/resume protocol around the node,
    modelled from the spec (the code is n8n's). A \<open>host_state\<close> maps (execution id,
    node id) to a \<open>Parked\<close> node (deadline, output of the timeout path) or a
    \<open>Resumed\<close> one (its output) and holds the clock. \<open>run_node\<close> runs the node's
    \<open>execute\<close> with the execution's \<open>resumeUrl\<close> and node id and parks it on a valid
    deadline (\<open>scheduleResume\<close>); \<open>on_callback\<close> routes a callback URL
    (\<open>decode_token\<close>) and resumes that node with \<open>webhook\<close> of the body before its
    deadline (\<open>onExternalEvent\<close>); \<open>tick\<close> resumes every node whose deadline has come
    with what \<open>execute\<close> returned. \<open>host_step\<close> is the inductive step relation over
    these events and \<open>reachable\<close> its reachable states. Claim C24: the invariant, by rule
    induction, that every parked deadline is after the clock, so that every parked node can
    be resumed both ways; claim C27, end to end: the URL in every request the node sent,
    called before the deadline, resumes exactly the node that sent it.
  \<^item> \<open>Templates\<close> (lines 318--390): \<open>search_review_templates\<close> and
    \<open>get_mapping_fields\<close>; claims C21 (the search is a case-insensitive substring filter)
    and C22 (the schema request and its missing-fields error).
  \<^item> \<open>Node_Description\<close> (lines 7--313, and the credential type of
    \<open>GotoHumanApi.credentials.ts\<close>): the node header and one definition per editor
    parameter (\<open>param_resource\<close> \<dots> \<open>param_additionalFields\<close>, records
    \<open>node_param\<close> with type, default and \<open>displayOptions\<close>); n8n's reading of them
    (\<open>param_value\<close>: set value or default; \<open>displayed\<close>: the show/hide conditions),
    modelled from the host's semantics; \<open>execute_reads\<close>, the parameters \<open>execute\<close>
    reads for an item. Claim C25: once a template is chosen, every parameter read is
    displayed.

  \<^bold>\<open>What the lemmas show.\<close> Each component has its functional behaviour on every branch,
  errors included, and, where the code loops, an equivalence of the loop with a reference
  definition proved by induction over the list: the field loop against
  \<open>expected_value\<close> and the first \<open>bad_field\<close>; the wait-time accumulation against
  \<open>last_timeout\<close> (the last positive \<open>timeoutInMillis\<close> wins); the requests sent
  against \<open>built_requests\<close>; the template filter against \<open>Sublist.sublist\<close>.

  \<^bold>\<open>Bounds and fuel.\<close> JavaScript numbers are the safe integers here (\<open>int\<close>
  with \<open>|x| \<le> max_safe = 2^53 - 1\<close>): exactly the integers that are one binary64 value
  each and print in plain decimal, so no rounding is involved; \<open>jsonParse\<close> reads
  \<open>1.0\<close>, \<open>25e-1\<close> or \<open>1E3\<close> to the integer they denote (\<open>number_end\<close>,
  \<open>decimal_value\<close>). The deadline is clipped as \<open>new Date\<close> clips (\<open>\<plusminus>8.64e15\<close> ms,
  \<open>time_clip\<close>), and C5 shows a valid deadline is always after the clock. The JSON parser
  spends one unit of fuel per call; \<open>json_parse\<close> gives it twice the input length plus
  one. Every call either consumes input or (for a value inside an array or object) is
  preceded by a call that did, so this is enough: \<open>parse_fuel\<close> shows the parser never
  runs out of it (\<open>progress\<close>, by induction on the fuel with one step lemma per parser
  and the shared lemmas \<open>bracket_progress\<close> and \<open>seq_progress\<close> on an opening bracket
  and on a collection's tail), \<open>parse_mono\<close> that more fuel never changes an answer, and
  \<open>json_parse_iff\<close> that \<open>json_parse\<close> is the fuel-free parser; C23 uses this to
  show that every mapper failure is a text no amount of fuel parses.

  \<^bold>\<open>Not modelled.\<close> Of the node description, the texts shown to the user (display
  names, descriptions, placeholders, hints) and the icon and subtitle, which no code
  reads. The host's transport (\<open>requestWithAuthentication\<close>) is the per-item response
  input. A \<open>Waiting\<close> outcome whose deadline is not a valid date (\<open>time_clip\<close> gives
  \<open>None\<close>) parks nothing in the protocol model; what n8n does with an Invalid Date is not
  specified. JSON numbers whose value is not a safe integer (\<open>1.5\<close>, \<open>1e16\<close>) and
  \<open>\u\<close> escapes of UTF-16 surrogates are outside the JSON model: the parser answers
  \<open>Unsupported\<close> and \<open>json_parse\<close> folds this into \<open>None\<close>, so on such a text the
  modelled node fails (\<open>MetaParseError\<close>, \<open>FieldParseError\<close>) where the real one goes
  on. The claims are stated so that this does not matter: a claim that the node succeeds
  holds of the real node (the parser's values are exact), and a claim that it fails on a
  text assumes \<open>json_rejects\<close>, a text \<open>JSON.parse\<close> also throws on (C9, C11).
  Modelling these values needs binary64 rounding and the shortest-decimal printing of
  \<open>Number::toString\<close>. \<open>toLowerCase\<close> is modelled on ASCII letters (its Unicode case
  tables are the runtime's). A node that runs more than once in one execution is outside
  the protocol model: the spec keys a suspended execution by \<open>(executionId, nodeId)\<close>
  and the node's callback URL carries nothing else, so a second wait of the same node cannot
  be told apart from the first; the model parks each node of an execution at most once. The
  host's answer to a read of a hidden parameter (without a template, \<open>execute\<close> reads
  four parameters the editor hides) is not specified.
\<close>

end
